(* ===== verification/Prelude.thy ===== *)
theory Prelude
  imports Main "HOL-Library.Word" "HOL-Library.Monad_Syntax"
begin

text \<open>
  Shared vocabulary of the development: the fixed-width integer types of
  \<^verbatim>\<open>inc/types.h\<close>, the rounding macros, the option monad in which kernel code that can
  panic is written, singly linked free lists, and the collections of rewrite rules that
  the component theories use.
\<close>

unbundle bit_operations_syntax

section \<open>Integer types and rule collections\<close>

type_synonym u8 = "8 word"
type_synonym u16 = "16 word"
type_synonym u32 = "32 word"
type_synonym u64 = "64 word"

text \<open>
  A computation of the kernel either panics (or takes a fault in kernel mode, which
  \<^verbatim>\<open>trap_dispatch\<close> turns into a panic) or delivers a value: \<open>None\<close> is the panic.
  Error codes that the C functions return are values, not panics.
\<close>

type_synonym 'a may_panic = "'a option"

named_theorems const_defs \<open>numeric constants of the header files\<close>
named_theorems addr_simps \<open>address arithmetic of pages and table entries\<close>

section \<open>Rounding macros of inc/types.h\<close>

definition ROUNDDOWN :: "u64 \<Rightarrow> u64 \<Rightarrow> u64" where
  "ROUNDDOWN a n = a - a mod n"

definition ROUNDUP :: "u64 \<Rightarrow> u64 \<Rightarrow> u64" where
  "ROUNDUP a n = ROUNDDOWN (a + n - 1) n"

definition C_MIN :: "'a::linorder \<Rightarrow> 'a \<Rightarrow> 'a" where
  "C_MIN a b = (if a \<le> b then a else b)"

definition BIT_AT :: "u64 \<Rightarrow> nat \<Rightarrow> u64" where
  "BIT_AT val x = drop_bit x val AND 1"

lemma unat_ROUNDDOWN: "unat (ROUNDDOWN a n) = unat a - unat a mod unat n"
  by (simp add: ROUNDDOWN_def unat_sub word_mod_less_divisor word_le_nat_alt unat_mod)

lemma ROUNDDOWN_le: "ROUNDDOWN a n \<le> a"
  by (simp add: word_le_nat_alt unat_ROUNDDOWN)

lemma ROUNDDOWN_dvd: "unat n dvd unat (ROUNDDOWN a n)"
  by (simp add: unat_ROUNDDOWN minus_mod_eq_mult_div)

lemma BIT_AT_eq: "BIT_AT val x = of_bool (bit val x)"
  by (simp add: BIT_AT_def and_one_eq mod_2_eq_odd bit_iff_odd_drop_bit)

lemma C_MIN_eq [simp]: "C_MIN a b = min a b"
  by (simp add: C_MIN_def min_def)

section \<open>The option monad\<close>

lemma bind_Some_iff: "(Option.bind m f = Some y) \<longleftrightarrow> (\<exists>x. m = Some x \<and> f x = Some y)"
  by (cases m) auto

lemma bind_SomeE:
  assumes "Option.bind m f = Some y"
  obtains x where "m = Some x" and "f x = Some y"
  using assms by (cases m) auto

definition guard_panic :: "bool \<Rightarrow> unit may_panic" where
  \<comment> \<open>\<^verbatim>\<open>assert(b)\<close> and \<^verbatim>\<open>if (!b) panic(...)\<close>\<close>
  "guard_panic b = (if b then Some () else None)"

lemma guard_panic_simps [simp]:
  "guard_panic True = Some ()"
  "guard_panic False = None"
  "(guard_panic b = Some u) = b"
  by (auto simp: guard_panic_def)

section \<open>Singly linked lists\<close>

text \<open>
  \<open>linked nxt h xs\<close>: following \<open>nxt\<close> from the head pointer \<open>h\<close> visits exactly \<open>xs\<close>
  and ends in the null pointer. Both free lists of the kernel have this shape.
\<close>

fun linked :: "('a \<Rightarrow> 'a option) \<Rightarrow> 'a option \<Rightarrow> 'a list \<Rightarrow> bool" where
  "linked nxt None xs = (xs = [])"
| "linked nxt (Some p) [] = False"
| "linked nxt (Some p) (x # xs) = (x = p \<and> linked nxt (nxt p) xs)"

lemma linked_Nil [simp]: "linked nxt h [] = (h = None)"
  by (cases h) auto

lemma linked_Cons: "linked nxt h (x # xs) = (h = Some x \<and> linked nxt (nxt x) xs)"
  by (cases h) auto

lemma linked_unique: "linked nxt h xs \<Longrightarrow> linked nxt h ys \<Longrightarrow> xs = ys"
  by (induction xs arbitrary: h ys) (auto simp: linked_Cons, case_tac ys, auto simp: linked_Cons)

lemma linked_cong: "linked nxt h xs \<Longrightarrow> (\<And>x. x \<in> set xs \<Longrightarrow> nxt' x = nxt x) \<Longrightarrow> linked nxt' h xs"
  by (induction xs arbitrary: h) (auto simp: linked_Cons)

lemma linked_upd: "x \<notin> set xs \<Longrightarrow> linked (nxt(x := v)) h xs = linked nxt h xs"
  by (induction xs arbitrary: h) (auto simp: linked_Cons)

text \<open>A null-terminated list visits no node twice.\<close>

lemma linked_append: "linked nxt h (xs @ ys) \<Longrightarrow> ys \<noteq> [] \<Longrightarrow> linked nxt (Some (hd ys)) ys"
  by (induction xs arbitrary: h) (auto simp: linked_Cons neq_Nil_conv)

text \<open>Two link functions that agree on a prefix lead to the same node after it.\<close>

lemma linked_agree:
  assumes "linked nxt h (as @ x # bs)" and "linked nxt' h zs"
    and "\<And>y. y \<in> set as \<Longrightarrow> nxt' y = nxt y"
  shows "\<exists>ws. zs = as @ ws \<and> linked nxt' (Some x) ws"
  using assms
proof (induction as arbitrary: h zs)
  case (Cons a as)
  then have "h = Some a" by (simp add: linked_Cons)
  with Cons.prems obtain zs' where "zs = a # zs'" "linked nxt' (nxt a) zs'"
    by (cases zs) auto
  with Cons show ?case by (auto simp: linked_Cons)
qed (auto simp: linked_Cons)

lemma linked_distinct: "linked nxt h xs \<Longrightarrow> distinct xs"
proof (induction xs arbitrary: h)
  case (Cons x xs)
  from Cons.prems have tl: "linked nxt (nxt x) xs" by (simp add: linked_Cons)
  have "x \<notin> set xs"
  proof
    assume "x \<in> set xs"
    then obtain as bs where xs: "xs = as @ x # bs" by (meson split_list)
    with tl linked_append [of nxt "nxt x" as "x # bs"] have "linked nxt (Some x) (x # bs)"
      by simp
    moreover from tl have "linked nxt (Some x) (x # xs)" by simp
    ultimately have "x # bs = x # xs" by (rule linked_unique)
    with xs show False by simp
  qed
  with Cons.IH [OF tl] show ?case by simp
qed simp

text \<open>Only the last node has a null link.\<close>

lemma linked_last:
  assumes "linked nxt h xs" "x \<in> set xs"
  shows "nxt x = None \<longleftrightarrow> x = last xs"
  using assms
proof (induction xs arbitrary: h)
  case (Cons a xs)
  then have l: "linked nxt (nxt a) xs" and d: "distinct (a # xs)"
    using linked_distinct [OF Cons.prems(1)] by (auto simp: linked_Cons)
  show ?case
  proof (cases xs)
    case (Cons b ys)
    with l have n: "nxt a = Some b" by (simp add: linked_Cons)
    have "last xs \<in> set xs" using Cons by simp
    with d have ne: "a \<noteq> last xs" by auto
    show ?thesis
    proof (cases "x = a")
      case True
      then show ?thesis using n ne Cons by simp
    next
      case False
      then show ?thesis using Cons.prems Cons.IH [OF l] \<open>xs = b # ys\<close> by simp
    qed
  qed (use Cons.prems l in simp)
qed simp

end
