(* ===== verification/Mmu.thy ===== *)
theory Mmu
  imports Prelude
begin

text \<open>
  Paging constants and the address decomposition macros of \<^verbatim>\<open>inc/mmu.h\<close>, the virtual
  memory layout of \<^verbatim>\<open>inc/memlayout.h\<close>, the entry flags of \<^verbatim>\<open>inc/ept.h\<close> and the error codes of
  \<^verbatim>\<open>inc/error.h\<close>; the word arithmetic of page frames and table slots that every page-table
  proof rests on.
\<close>

section \<open>Error codes (inc/error.h)\<close>

definition E_BAD_ENV :: int where [const_defs]: "E_BAD_ENV = 2"
definition E_INVAL :: int where [const_defs]: "E_INVAL = 3"
definition E_NO_MEM :: int where [const_defs]: "E_NO_MEM = 4"
definition E_NO_FREE_ENV :: int where [const_defs]: "E_NO_FREE_ENV = 5"
definition E_FAULT :: int where [const_defs]: "E_FAULT = 6"
definition E_NO_VMX :: int where [const_defs]: "E_NO_VMX = 17"
definition E_NO_EPT :: int where [const_defs]: "E_NO_EPT = 18"
definition E_VMX_ON :: int where [const_defs]: "E_VMX_ON = 19"
definition E_VMCS_INIT :: int where [const_defs]: "E_VMCS_INIT = 20"
definition E_NO_ENT :: int where [const_defs]: "E_NO_ENT = 21"

section \<open>Paging constants (inc/mmu.h)\<close>

definition PGSIZE :: u64 where [const_defs]: "PGSIZE = 4096"
definition PTSIZE :: u64 where [const_defs]: "PTSIZE = PGSIZE * 512"
definition NPTENTRIES :: nat where [const_defs]: "NPTENTRIES = 512"

definition PTE_P :: u64 where [const_defs]: "PTE_P = 0x001"
definition PTE_W :: u64 where [const_defs]: "PTE_W = 0x002"
definition PTE_U :: u64 where [const_defs]: "PTE_U = 0x004"
definition PTE_PWT :: u64 where [const_defs]: "PTE_PWT = 0x008"
definition PTE_PCD :: u64 where [const_defs]: "PTE_PCD = 0x010"
definition PTE_AVAIL :: u32 where [const_defs]: "PTE_AVAIL = 0xE00"

definition PPN :: "u64 \<Rightarrow> u64" where
  "PPN pa = drop_bit 12 pa"

definition PML4 :: "u64 \<Rightarrow> u64" where
  "PML4 la = drop_bit 39 la AND 0x1FF"

definition PDPE :: "u64 \<Rightarrow> u64" where
  "PDPE la = drop_bit 30 la AND 0x1FF"

definition PDX :: "u64 \<Rightarrow> u64" where
  "PDX la = drop_bit 21 la AND 0x1FF"

definition PTX :: "u64 \<Rightarrow> u64" where
  "PTX la = drop_bit 12 la AND 0x1FF"

definition PGOFF :: "u64 \<Rightarrow> u64" where
  "PGOFF la = la AND 0xFFF"

definition PGADDR :: "u64 \<Rightarrow> u64 \<Rightarrow> u64 \<Rightarrow> u64 \<Rightarrow> u64 \<Rightarrow> u64" where
  "PGADDR m p d t off =
     push_bit 39 m OR push_bit 30 p OR push_bit 21 d OR push_bit 12 t OR off"

definition PTE_ADDR :: "u64 \<Rightarrow> u64" where
  "PTE_ADDR pte = pte AND NOT 0xFFF"

section \<open>Virtual memory layout (inc/memlayout.h)\<close>

definition KERNBASE :: u64 where [const_defs]: "KERNBASE = 0x8004000000"
definition IOPHYSMEM :: u64 where [const_defs]: "IOPHYSMEM = 0x0A0000"
definition EXTPHYSMEM :: u64 where [const_defs]: "EXTPHYSMEM = 0x100000"
definition KSTACKTOP :: u64 where [const_defs]: "KSTACKTOP = KERNBASE"
definition KSTKSIZE :: u64 where [const_defs]: "KSTKSIZE = 16 * PGSIZE"
definition KSTKGAP :: u64 where [const_defs]: "KSTKGAP = 8 * PGSIZE"
definition MMIOLIM :: u64 where [const_defs]: "MMIOLIM = KSTACKTOP - PTSIZE"
definition MMIOBASE :: u64 where [const_defs]: "MMIOBASE = MMIOLIM - PTSIZE"
definition ULIM :: u64 where [const_defs]: "ULIM = MMIOBASE"
definition UVPT :: u64 where [const_defs]: "UVPT = 0x10000000000"
definition UPAGES :: u64 where [const_defs]: "UPAGES = ULIM - 25 * PTSIZE"
definition UENVS :: u64 where [const_defs]: "UENVS = UPAGES - PTSIZE"
definition UTOP :: u64 where [const_defs]: "UTOP = UENVS"
definition UXSTACKTOP :: u64 where [const_defs]: "UXSTACKTOP = 0xef800000"
definition USTACKTOP :: u64 where [const_defs]: "USTACKTOP = UXSTACKTOP - 2 * PGSIZE"
definition USTABDATA :: u64 where [const_defs]: "USTABDATA = PTSIZE"
definition MPENTRY_PADDR :: u64 where [const_defs]: "MPENTRY_PADDR = 0x7000"

definition GD_KT :: u16 where [const_defs]: "GD_KT = 0x08"
definition GD_KD :: u16 where [const_defs]: "GD_KD = 0x10"
definition GD_UT :: u16 where [const_defs]: "GD_UT = 0x18"
definition GD_UD :: u16 where [const_defs]: "GD_UD = 0x20"
definition GD_TSS0 :: u16 where [const_defs]: "GD_TSS0 = 0x28"

definition FL_IF :: u64 where [const_defs]: "FL_IF = 0x200"
definition FL_IOPL_3 :: u64 where [const_defs]: "FL_IOPL_3 = 0x3000"
definition CR0_NE :: u64 where [const_defs]: "CR0_NE = 0x20"
definition CR4_VMXE :: u64 where [const_defs]: "CR4_VMXE = 0x2000"
definition EFER_MSR :: u32 where [const_defs]: "EFER_MSR = 0xC0000080"
definition EFER_LME :: nat where [const_defs]: "EFER_LME = 8"

section \<open>Extended page table entries (inc/ept.h, vmm/ept.h)\<close>

definition EPTE_READ :: u32 where [const_defs]: "EPTE_READ = 0x01"
definition EPTE_WRITE :: u32 where [const_defs]: "EPTE_WRITE = 0x02"
definition EPTE_EXEC :: u32 where [const_defs]: "EPTE_EXEC = 0x04"
definition EPTE_IPAT :: u32 where [const_defs]: "EPTE_IPAT = 0x40"
definition EPTE_TYPE :: "u32 \<Rightarrow> u32" where "EPTE_TYPE n = push_bit 3 (n AND 0x7)"
definition EPTE_TYPE_WB :: u32 where [const_defs]: "EPTE_TYPE_WB = 6"
definition EPTE_FULL :: u32 where [const_defs]: "EPTE_FULL = EPTE_READ OR EPTE_WRITE OR EPTE_EXEC"
definition EPT_LEVELS :: nat where [const_defs]: "EPT_LEVELS = 4"
definition EPTE_ADDR :: u64 where "EPTE_ADDR = NOT (PGSIZE - 1)"
definition EPTE_FLAGS :: u64 where "EPTE_FLAGS = PGSIZE - 1"

definition ADDR_TO_IDX :: "u64 \<Rightarrow> nat \<Rightarrow> u64" where
  "ADDR_TO_IDX pa n = drop_bit (12 + 9 * n) pa AND (push_bit 9 1 - 1)"

section \<open>Bit-level view of the decomposition macros\<close>

lemma mask_9: "(0x1FF::u64) = mask 9"
  by (simp add: mask_eq_exp_minus_1)

lemma mask_12: "(0xFFF::u64) = mask 12"
  by (simp add: mask_eq_exp_minus_1)

lemma idx_bits:
  "PML4 la = take_bit 9 (drop_bit 39 la)" "PDPE la = take_bit 9 (drop_bit 30 la)"
  "PDX la = take_bit 9 (drop_bit 21 la)" "PTX la = take_bit 9 (drop_bit 12 la)"
  "PGOFF la = take_bit 12 la"
  by (simp_all only: PML4_def PDPE_def PDX_def PTX_def PGOFF_def mask_9 mask_12 take_bit_eq_mask)

lemma take_bit_less_u64: "n < 64 \<Longrightarrow> take_bit n (x::u64) < 2 ^ n"
  by (simp add: take_bit_eq_mask and_mask_less_size word_size)

lemma idx_less [simp]:
  "PML4 la < 512" "PDPE la < 512" "PDX la < 512" "PTX la < 512" "PGOFF la < 4096"
  using take_bit_less_u64 [of 9] take_bit_less_u64 [of 12] by (simp_all add: idx_bits)

lemma small_take_bit: "(x::u64) < 2 ^ n \<Longrightarrow> take_bit n x = x"
  by (metis less_mask_eq take_bit_eq_mask)

lemma PGADDR_take_bit:
  fixes m p d t f :: u64
  defines "la \<equiv> PGADDR (take_bit 9 m) (take_bit 9 p) (take_bit 9 d) (take_bit 9 t) (take_bit 12 f)"
  shows PML4_PGADDR_take_bit: "PML4 la = take_bit 9 m"
    and PDPE_PGADDR_take_bit: "PDPE la = take_bit 9 p"
    and PDX_PGADDR_take_bit: "PDX la = take_bit 9 d"
    and PTX_PGADDR_take_bit: "PTX la = take_bit 9 t"
    and PGOFF_PGADDR_take_bit: "PGOFF la = take_bit 12 f"
proof -
  show "PML4 la = take_bit 9 m"
    by (rule bit_word_eqI) (auto simp: la_def idx_bits PGADDR_def bit_simps)
  show "PDPE la = take_bit 9 p"
    by (rule bit_word_eqI) (auto simp: la_def idx_bits PGADDR_def bit_simps)
  show "PDX la = take_bit 9 d"
    by (rule bit_word_eqI) (auto simp: la_def idx_bits PGADDR_def bit_simps)
  show "PTX la = take_bit 9 t"
    by (rule bit_word_eqI) (auto simp: la_def idx_bits PGADDR_def bit_simps)
  show "PGOFF la = take_bit 12 f"
    by (rule bit_word_eqI) (auto simp: la_def idx_bits PGADDR_def bit_simps)
qed

lemma PGADDR_index:
  assumes "m < 512" "p < 512" "d < 512" "t < 512" "off < 4096"
  shows "PML4 (PGADDR m p d t off) = m" "PDPE (PGADDR m p d t off) = p"
    "PDX (PGADDR m p d t off) = d" "PTX (PGADDR m p d t off) = t"
    "PGOFF (PGADDR m p d t off) = off"
proof -
  have e: "take_bit 9 m = m" "take_bit 9 p = p" "take_bit 9 d = d" "take_bit 9 t = t"
    "take_bit 12 off = off"
    using assms by (simp_all add: small_take_bit)
  show "PML4 (PGADDR m p d t off) = m" "PDPE (PGADDR m p d t off) = p"
    "PDX (PGADDR m p d t off) = d" "PTX (PGADDR m p d t off) = t"
    "PGOFF (PGADDR m p d t off) = off"
    by (fact PGADDR_take_bit [of m p d t off, unfolded e])+
qed

lemma bit_field_iff:
  "(k \<le> n \<and> n - k < w \<and> bit x (k + (n - k))) \<longleftrightarrow> (k \<le> n \<and> n < k + w \<and> bit (x::u64) n)" for k n w :: nat
  by auto

lemma PGADDR_of_index: "PGADDR (PML4 la) (PDPE la) (PDX la) (PTX la) (PGOFF la) = take_bit 48 la"
  by (rule bit_word_eqI) (simp add: idx_bits PGADDR_def bit_simps bit_field_iff, auto)

text \<open>
  Decomposing a linear address into its table indices and page offset and composing it
  again with \<^verbatim>\<open>PGADDR\<close> gives the address back for every address of the 48-bit space, and
  composing indices in range and decomposing gives the indices back.
\<close>

theorem PGADDR_roundtrip:
  assumes "la < 2 ^ 48" and "m < 512" "p < 512" "d < 512" "t < 512" "off < 4096"
  shows "PGADDR (PML4 la) (PDPE la) (PDX la) (PTX la) (PGOFF la) = la \<and>
    (PML4 (PGADDR m p d t off), PDPE (PGADDR m p d t off), PDX (PGADDR m p d t off),
     PTX (PGADDR m p d t off), PGOFF (PGADDR m p d t off)) = (m, p, d, t, off)"
  using assms by (simp add: PGADDR_of_index small_take_bit PGADDR_index)

theorem PGADDR_roundtrip_witness:
  "PGADDR (PML4 0x8004001018) (PDPE 0x8004001018) (PDX 0x8004001018) (PTX 0x8004001018)
     (PGOFF 0x8004001018) = 0x8004001018 \<and>
   (PML4 (PGADDR 1 0 32 1 0x18), PDPE (PGADDR 1 0 32 1 0x18), PDX (PGADDR 1 0 32 1 0x18),
    PTX (PGADDR 1 0 32 1 0x18), PGOFF (PGADDR 1 0 32 1 0x18)) = (1, 0, 32, 1, 0x18)"
  by (rule PGADDR_roundtrip) simp_all

section \<open>Page frames and table slots\<close>

text \<open>
  A \<^verbatim>\<open>struct PageInfo *\<close> is represented by its index in the array \<^verbatim>\<open>pages\<close>, so
  \<^verbatim>\<open>page2ppn\<close> is the identity and \<open>page2pa\<close> shifts the index.
\<close>

definition page2pa :: "nat \<Rightarrow> u64" where
  "page2pa pp = push_bit 12 (of_nat pp)"

text \<open>Physical address of entry \<open>i\<close> of the table that lies in page frame \<open>p\<close>.\<close>

definition slot :: "nat \<Rightarrow> u64 \<Rightarrow> u64" where
  "slot p i = page2pa p + 8 * i"

lemma PTE_ADDR_bits: "PTE_ADDR x = push_bit 12 (drop_bit 12 x)"
  by (rule bit_word_eqI) (auto simp: PTE_ADDR_def mask_12 bit_simps)

lemma PTE_ADDR_page2pa: "PTE_ADDR x = page2pa (unat (PPN x))"
  by (simp add: PTE_ADDR_bits page2pa_def PPN_def)

lemma unat_page2pa: "p < 2 ^ 52 \<Longrightarrow> unat (page2pa p) = 4096 * p"
  by (simp add: page2pa_def push_bit_eq_mult unat_word_ariths unat_of_nat)

lemma page2pa_inj [simp]: "p < 2 ^ 52 \<Longrightarrow> q < 2 ^ 52 \<Longrightarrow> page2pa p = page2pa q \<longleftrightarrow> p = q"
  by (metis mult_cancel1 unat_page2pa zero_neq_numeral)

lemma unat_slot: "p < 2 ^ 51 \<Longrightarrow> i < 512 \<Longrightarrow> unat (slot p i) = 4096 * p + 8 * unat i"
proof -
  assume p: "p < 2 ^ 51" and i: "i < (512::u64)"
  then have "unat i < 512" by (simp add: word_less_nat_alt)
  with p show ?thesis by (simp add: slot_def unat_word_ariths unat_page2pa)
qed

lemma slot_inj:
  assumes "p < 2 ^ 51" "q < 2 ^ 51" "i < 512" "j < 512"
  shows "slot p i = slot q j \<longleftrightarrow> p = q \<and> i = j"
proof
  assume "slot p i = slot q j"
  with assms have eq: "4096 * p + 8 * unat i = 4096 * q + 8 * unat j"
    by (metis unat_slot)
  moreover from assms have "unat i < 512" "unat j < 512" by (simp_all add: word_less_nat_alt)
  ultimately have "p = q"
    using arg_cong [where f = "\<lambda>n. n div 4096", of "4096 * p + 8 * unat i" "4096 * q + 8 * unat j"]
    by simp
  with eq have "unat i = unat j" by simp
  with \<open>p = q\<close> show "p = q \<and> i = j" by (simp add: word_unat_eq_iff)
qed simp

lemma drop_push_12: "drop_bit 12 (push_bit 12 (x::u64)) = take_bit 52 x"
  by (rule bit_word_eqI) (auto simp: bit_simps)

lemma PPN_or_flags: "p < 2 ^ 52 \<Longrightarrow> f < 4096 \<Longrightarrow> PPN (page2pa p OR f) = of_nat p"
proof -
  assume p: "p < 2 ^ 52" and f: "f < 4096"
  from f have "drop_bit 12 f = 0"
    by (metis drop_bit_take_bit small_take_bit [of f 12, simplified] diff_self_eq_0 take_bit_0)
  moreover from p have "(of_nat p :: u64) < 2 ^ 52"
    by (simp add: word_less_nat_alt unat_of_nat)
  then have "take_bit 52 (of_nat p :: u64) = of_nat p" by (rule small_take_bit)
  ultimately show ?thesis
    by (simp add: PPN_def page2pa_def drop_push_12)
qed

lemma PTE_ADDR_or_flags [addr_simps]: "p < 2 ^ 52 \<Longrightarrow> f < 4096 \<Longrightarrow> PTE_ADDR (page2pa p OR f) = page2pa p"
  by (simp add: PTE_ADDR_page2pa PPN_or_flags unat_of_nat)

lemma PPN_page2pa [addr_simps]: "p < 2 ^ 52 \<Longrightarrow> PPN (page2pa p) = of_nat p"
  using PPN_or_flags [of p 0] by simp

lemma PPN_less: "unat (PPN x) < 2 ^ 52"
proof -
  have "unat (PPN x) = unat x div 4096" by (simp add: PPN_def drop_bit_eq_div unat_div)
  then show ?thesis using unsigned_less [where 'a = nat, of x] by (simp add: less_mult_imp_div_less)
qed

lemma PPN_page2pa_PPN [simp]: "PPN (page2pa (unat (PPN x))) = PPN x"
  by (simp add: PPN_page2pa [OF PPN_less])

lemma PTE_ADDR_flags_only: "PTE_ADDR (x OR y) = PTE_ADDR x OR PTE_ADDR y"
  by (simp add: PTE_ADDR_bits)

lemma PTE_ADDR_small [addr_simps]: "f < 4096 \<Longrightarrow> PTE_ADDR f = 0"
  using PTE_ADDR_or_flags [of 0 f] by (simp add: page2pa_def)

lemma PTE_ADDR_idem [simp]: "PTE_ADDR (PTE_ADDR x) = PTE_ADDR x"
  by (simp add: PTE_ADDR_def and.assoc)

lemma PPN_slot [addr_simps]: "p < 2 ^ 51 \<Longrightarrow> i < 512 \<Longrightarrow> PPN (slot p i) = of_nat p"
proof -
  assume p: "p < 2 ^ 51" and i: "i < 512"
  have "unat i < 512" using i by (simp add: word_less_nat_alt)
  then have "unat (slot p i) div 4096 = p" using unat_slot [OF p i] by simp
  then have "unat (PPN (slot p i)) = p"
    by (simp add: PPN_def drop_bit_eq_div unat_div)
  then have "of_nat (unat (PPN (slot p i))) = (of_nat p :: u64)" by simp
  then show ?thesis by simp
qed

lemma and_flag_or [simp]:
  "(x OR PTE_P) AND PTE_P = PTE_P" "(x OR (y OR PTE_P)) AND PTE_P = PTE_P"
  by (simp_all add: or.assoc bit.conj_disj_distrib2)

lemma page2pa_not_P [simp]: "page2pa p AND PTE_P = 0"
  by (rule bit_word_eqI) (auto simp: page2pa_def PTE_P_def bit_simps)

end
