(* ===== verification/Kernel_State.thy ===== *)
theory Kernel_State
  imports Mmu
begin

text \<open>
  The state of the kernel: the C structures of \<^verbatim>\<open>inc/env.h\<close>, \<^verbatim>\<open>inc/trap.h\<close>,
  \<^verbatim>\<open>inc/vmx.h\<close>, \<^verbatim>\<open>inc/memlayout.h\<close>, \<^verbatim>\<open>kern/cpu.h\<close> and \<^verbatim>\<open>kern/spinlock.h\<close> as records, the
  kernel's globals and function-static variables, the registers it writes, and physical
  memory. Memory is a map from the physical address of an aligned 8-byte cell to its
  contents; the kernel reaches it through the mapping of all physical memory at
  \<^const>\<open>KERNBASE\<close>, and an access outside that mapping is a kernel-mode fault.

  Pointers into the arrays \<^verbatim>\<open>pages\<close> and \<^verbatim>\<open>envs\<close> are array indices, null pointers are \<open>None\<close>.
\<close>

section \<open>Structures\<close>

record PageInfo =
  pp_link :: "nat option"
  pp_ref :: u16

record PushRegs =
  reg_r15 :: u64
  reg_r14 :: u64
  reg_r13 :: u64
  reg_r12 :: u64
  reg_r11 :: u64
  reg_r10 :: u64
  reg_r9 :: u64
  reg_r8 :: u64
  reg_rsi :: u64
  reg_rdi :: u64
  reg_rbp :: u64
  reg_rdx :: u64
  reg_rcx :: u64
  reg_rbx :: u64
  reg_rax :: u64

text \<open>The padding halves of \<^verbatim>\<open>struct Trapframe\<close> are never written and left out.\<close>

record Trapframe =
  tf_regs :: PushRegs
  tf_es :: u16
  tf_ds :: u16
  tf_trapno :: u64
  tf_err :: u64
  tf_rip :: u64
  tf_cs :: u16
  tf_eflags :: u64
  tf_rsp :: u64
  tf_ss :: u16

datatype EnvStatus = ENV_FREE | ENV_DYING | ENV_RUNNABLE | ENV_RUNNING | ENV_NOT_RUNNABLE

datatype EnvType = ENV_TYPE_USER | ENV_TYPE_FS | ENV_TYPE_NS | ENV_TYPE_GUEST | ENV_TYPE_IDLE

text \<open>Pointer fields hold kernel virtual addresses; \<^verbatim>\<open>0\<close> is the null pointer.\<close>

record VmxGuestInfo =
  phys_sz :: u64
  vmcs :: u64
  exception_bmap :: u32
  io_bmap_a :: u64
  io_bmap_b :: u64
  msr_count :: nat
  msr_host_area :: u64
  msr_guest_area :: u64
  vcpunum :: u32

record Env =
  env_tf :: Trapframe
  env_link :: "nat option"
  env_id :: u32
  env_parent_id :: u32
  env_type :: EnvType
  env_status :: EnvStatus
  env_runs :: u32
  env_cpunum :: nat
  env_pml4e :: u64
  env_cr3 :: u64
  env_pgfault_upcall :: u64
  env_ipc_recving :: bool
  env_ipc_dstva :: u64
  env_ipc_value :: u32
  env_ipc_from :: u32
  env_ipc_perm :: u32
  env_elf :: u64
  env_vmxinfo :: VmxGuestInfo

datatype CpuStatus = CPU_UNUSED | CPU_STARTED | CPU_HALTED

record CpuInfo =
  cpu_id :: u8
  cpu_status :: CpuStatus
  cpu_env :: "nat option"
  is_vmx_root :: bool
  vmxon_region :: u64

text \<open>The program counters that \<^verbatim>\<open>struct spinlock\<close> records for its debug output are left out.\<close>

record spinlock =
  locked :: u32
  lk_cpu :: "nat option"

definition NENV :: nat where [const_defs]: "NENV = 1024"
definition NCPU :: nat where [const_defs]: "NCPU = 4"

section \<open>Machine state\<close>

text \<open>
  \<open>msrs\<close> are the model-specific registers, \<open>vmcs_cur\<close> the physical address of the current
  VMCS of this CPU, \<open>vmcs_data\<close> the field values of each VMCS region by field encoding,
  \<open>this_cpu\<close> the number \<^verbatim>\<open>cpunum()\<close> returns.
\<close>

record kernel =
  npages :: nat
  npages_basemem :: nat
  pages :: "nat \<Rightarrow> PageInfo"
  page_free_list :: "nat option"
  mem :: "u64 \<Rightarrow> u64"
  boot_pml4e :: u64
  boot_cr3 :: u64
  nextfree :: u64
  mmio_base :: u64
  user_mem_check_addr :: u64
  envs :: "nat \<Rightarrow> Env"
  env_free_list :: "nat option"
  vcpu_count :: u32
  cpus :: "nat \<Rightarrow> CpuInfo"
  this_cpu :: nat
  kernel_lock :: spinlock
  cr0 :: u64
  cr3 :: u64
  cr4 :: u64
  msrs :: "u32 \<Rightarrow> u64"
  vmcs_cur :: "u64 option"
  vmcs_data :: "u64 \<Rightarrow> u32 \<Rightarrow> u64"
  vmdisk_number :: u32
  port_iortc :: u32
  host_vector :: u32
  invlpg_log :: "u64 list"

definition thiscpu :: "kernel \<Rightarrow> CpuInfo" where
  "thiscpu s = cpus s (this_cpu s)"

definition curenv :: "kernel \<Rightarrow> nat option" where
  "curenv s = cpu_env (thiscpu s)"

definition upd_page :: "nat \<Rightarrow> (PageInfo \<Rightarrow> PageInfo) \<Rightarrow> kernel \<Rightarrow> kernel" where
  "upd_page pp f s = s\<lparr>pages := (pages s)(pp := f (pages s pp))\<rparr>"

definition upd_env :: "nat \<Rightarrow> (Env \<Rightarrow> Env) \<Rightarrow> kernel \<Rightarrow> kernel" where
  "upd_env e f s = s\<lparr>envs := (envs s)(e := f (envs s e))\<rparr>"

definition upd_thiscpu :: "(CpuInfo \<Rightarrow> CpuInfo) \<Rightarrow> kernel \<Rightarrow> kernel" where
  "upd_thiscpu f s = s\<lparr>cpus := (cpus s)(this_cpu s := f (thiscpu s))\<rparr>"

definition set_curenv :: "nat option \<Rightarrow> kernel \<Rightarrow> kernel" where
  "set_curenv e = upd_thiscpu (cpu_env_update (\<lambda>_. e))"

text \<open>
  The state at boot: globals and static variables are zero, except the static
  \<^verbatim>\<open>base\<close> of \<^verbatim>\<open>mmio_map_region\<close>.
\<close>

definition zero_regs :: PushRegs where
  "zero_regs = \<lparr>reg_r15 = 0, reg_r14 = 0, reg_r13 = 0, reg_r12 = 0, reg_r11 = 0, reg_r10 = 0,
     reg_r9 = 0, reg_r8 = 0, reg_rsi = 0, reg_rdi = 0, reg_rbp = 0, reg_rdx = 0, reg_rcx = 0,
     reg_rbx = 0, reg_rax = 0\<rparr>"

definition zero_tf :: Trapframe where
  "zero_tf = \<lparr>tf_regs = zero_regs, tf_es = 0, tf_ds = 0, tf_trapno = 0, tf_err = 0, tf_rip = 0,
     tf_cs = 0, tf_eflags = 0, tf_rsp = 0, tf_ss = 0\<rparr>"

definition zero_vmxinfo :: VmxGuestInfo where
  "zero_vmxinfo = \<lparr>phys_sz = 0, vmcs = 0, exception_bmap = 0, io_bmap_a = 0, io_bmap_b = 0,
     msr_count = 0, msr_host_area = 0, msr_guest_area = 0, vcpunum = 0\<rparr>"

definition zero_env :: Env where
  "zero_env = \<lparr>env_tf = zero_tf, env_link = None, env_id = 0, env_parent_id = 0,
     env_type = ENV_TYPE_USER, env_status = ENV_FREE, env_runs = 0, env_cpunum = 0, env_pml4e = 0,
     env_cr3 = 0, env_pgfault_upcall = 0, env_ipc_recving = False, env_ipc_dstva = 0,
     env_ipc_value = 0, env_ipc_from = 0, env_ipc_perm = 0, env_elf = 0,
     env_vmxinfo = zero_vmxinfo\<rparr>"

definition bss_state :: kernel where
  "bss_state = \<lparr>npages = 0, npages_basemem = 0, pages = (\<lambda>_. \<lparr>pp_link = None, pp_ref = 0\<rparr>),
     page_free_list = None, mem = (\<lambda>_. 0), boot_pml4e = 0, boot_cr3 = 0, nextfree = 0,
     mmio_base = MMIOBASE, user_mem_check_addr = 0, envs = (\<lambda>_. zero_env), env_free_list = None,
     vcpu_count = 0,
     cpus = (\<lambda>_. \<lparr>cpu_id = 0, cpu_status = CPU_UNUSED, cpu_env = None, is_vmx_root = False,
                   vmxon_region = 0\<rparr>),
     this_cpu = 0, kernel_lock = \<lparr>locked = 0, lk_cpu = None\<rparr>, cr0 = 0, cr3 = 0, cr4 = 0,
     msrs = (\<lambda>_. 0), vmcs_cur = None, vmcs_data = (\<lambda>_ _. 0), vmdisk_number = 0, port_iortc = 0,
     host_vector = 0, invlpg_log = []\<rparr>"

section \<open>Address conversion (kern/pmap.h)\<close>

text \<open>The page number that \<^verbatim>\<open>KADDR\<close> compares with \<^verbatim>\<open>npages\<close> is truncated to 32 bits.\<close>

definition KADDR :: "kernel \<Rightarrow> u64 \<Rightarrow> u64 may_panic" where
  "KADDR s pa =
     (if unat (ucast (PPN pa) :: u32) \<ge> npages s then None else Some (pa + KERNBASE))"

definition PADDR :: "u64 \<Rightarrow> u64 may_panic" where
  "PADDR kva = (if kva < KERNBASE then None else Some (kva - KERNBASE))"

definition pa2page :: "kernel \<Rightarrow> u64 \<Rightarrow> nat may_panic" where
  "pa2page s pa = (if unat (PPN pa) \<ge> npages s then None else Some (unat (PPN pa)))"

definition page2kva :: "kernel \<Rightarrow> nat \<Rightarrow> u64 may_panic" where
  "page2kva s pp = KADDR s (page2pa pp)"

section \<open>Access to memory through the kernel mapping\<close>

definition kva_mapped :: "kernel \<Rightarrow> u64 \<Rightarrow> bool" where
  "kva_mapped s kva \<longleftrightarrow> KERNBASE \<le> kva \<and> unat (kva - KERNBASE) < npages s * 4096"

text \<open>Address of element \<open>i\<close> of an array of 64-bit words.\<close>

definition entry :: "u64 \<Rightarrow> u64 \<Rightarrow> u64" where
  "entry base i = base + 8 * i"

definition load64 :: "kernel \<Rightarrow> u64 \<Rightarrow> u64 may_panic" where
  "load64 s kva = (if kva_mapped s kva then Some (mem s (kva - KERNBASE)) else None)"

definition store64 :: "u64 \<Rightarrow> u64 \<Rightarrow> kernel \<Rightarrow> kernel may_panic" where
  "store64 kva v s =
     (if kva_mapped s kva then Some (s\<lparr>mem := (mem s)(kva - KERNBASE := v)\<rparr>) else None)"

text \<open>A 32-bit access touches the half of its aligned cell that bit 2 of the address selects.\<close>

definition load32 :: "kernel \<Rightarrow> u64 \<Rightarrow> u32 may_panic" where
  "load32 s kva = map_option
     (\<lambda>w. if bit kva 2 then ucast (drop_bit 32 w) else ucast w) (load64 s (kva AND NOT 7))"

definition put_half :: "bool \<Rightarrow> u32 \<Rightarrow> u64 \<Rightarrow> u64" where
  "put_half hi v w =
     (if hi then push_bit 32 (ucast v) OR take_bit 32 w
      else push_bit 32 (drop_bit 32 w) OR ucast v)"

definition store32 :: "u64 \<Rightarrow> u32 \<Rightarrow> kernel \<Rightarrow> kernel may_panic" where
  "store32 kva v s = do {
     w \<leftarrow> load64 s (kva AND NOT 7);
     store64 (kva AND NOT 7) (put_half (bit kva 2) v w) s }"

text \<open>\<^verbatim>\<open>memset(v, 0, n)\<close> on 8-byte aligned memory.\<close>

definition memset_zero :: "u64 \<Rightarrow> nat \<Rightarrow> kernel \<Rightarrow> kernel may_panic" where
  "memset_zero kva n s =
     (if n = 0 then Some s
      else if kva_mapped s kva \<and> unat (kva - KERNBASE) + n \<le> npages s * 4096
      then Some (s\<lparr>mem := (\<lambda>a. if unat (a - (kva - KERNBASE)) < n then 0 else mem s a)\<rparr>)
      else None)"

text \<open>Copying a structure of 32-bit fields.\<close>

fun store32s :: "u64 \<Rightarrow> u32 list \<Rightarrow> kernel \<Rightarrow> kernel may_panic" where
  "store32s kva [] s = Some s"
| "store32s kva (v # vs) s = do { s \<leftarrow> store32 kva v s; store32s (kva + 4) vs s }"

text \<open>Writing a field back changes nothing.\<close>

lemma kernel_update_same [simp]:
  "s\<lparr>mem := mem s\<rparr> = s" "s\<lparr>pages := pages s\<rparr> = s" "s\<lparr>page_free_list := page_free_list s\<rparr> = s"
  "s\<lparr>envs := envs s\<rparr> = s" "s\<lparr>env_free_list := env_free_list s\<rparr> = s" for s :: kernel
  by (cases s; simp)+

section \<open>Bounds of physical memory\<close>

text \<open>
  The kernel limits \<^verbatim>\<open>npages\<close> to what fits below \<^const>\<open>UVPT\<close> when mapped at
  \<^const>\<open>KERNBASE\<close>; every frame number is then far below \<open>2 ^ 51\<close> and no address
  computation on frames wraps around.
\<close>

definition kern_mem_max :: nat where
  "kern_mem_max = unat ((UVPT - KERNBASE) div PGSIZE)"

definition phys_ok :: "kernel \<Rightarrow> bool" where
  "phys_ok s \<longleftrightarrow> npages s \<le> kern_mem_max"

lemma kern_mem_max_eq: "kern_mem_max = 0x7FFC000"
  by (simp add: kern_mem_max_def const_defs)

lemma phys_ok_frame: "phys_ok s \<Longrightarrow> p < npages s \<Longrightarrow> p < 2 ^ 27"
  by (simp add: phys_ok_def kern_mem_max_eq)

lemma KADDR_page: "phys_ok s \<Longrightarrow> p < npages s \<Longrightarrow> KADDR s (page2pa p) = Some (page2pa p + KERNBASE)"
  using phys_ok_frame [of s p]
  by (simp add: KADDR_def PPN_page2pa unsigned_ucast_eq unat_of_nat take_bit_nat_eq_self)

lemma page2kva_page: "phys_ok s \<Longrightarrow> p < npages s \<Longrightarrow> page2kva s p = Some (page2pa p + KERNBASE)"
  by (simp add: page2kva_def KADDR_page)

lemma pa2page_page: "phys_ok s \<Longrightarrow> p < npages s \<Longrightarrow> pa2page s (page2pa p) = Some p"
  using phys_ok_frame [of s p] by (simp add: pa2page_def PPN_page2pa unat_of_nat)

lemma pa2page_PTE_ADDR: "pa2page s (PTE_ADDR x) = pa2page s x"
  by (simp add: pa2page_def PTE_ADDR_page2pa PPN_page2pa_PPN)

lemma KADDR_PTE_ADDR:
  "phys_ok s \<Longrightarrow> unat (PPN e) < npages s \<Longrightarrow>
    KADDR s (PTE_ADDR e) = Some (page2pa (unat (PPN e)) + KERNBASE)"
  by (simp add: PTE_ADDR_page2pa KADDR_page)

text \<open>Entry \<open>i\<close> of the table in frame \<open>p\<close>, seen through the kernel mapping, is the cell \<^term>\<open>slot p i\<close>.\<close>

lemma entry_slot: "entry (page2pa p + KERNBASE) i - KERNBASE = slot p i"
  by (simp add: entry_def slot_def)

lemma kva_mapped_slot:
  assumes "phys_ok s" "p < npages s" "i < 512"
  shows "kva_mapped s (slot p i + KERNBASE)"
proof -
  have p: "p < 2 ^ 27" and i: "unat i < 512"
    using assms phys_ok_frame by (auto simp: word_less_nat_alt)
  have a: "unat (slot p i) = 4096 * p + 8 * unat i"
    using p assms(3) by (simp add: unat_slot)
  then have "unat (slot p i) < npages s * 4096" using i assms(2) by simp
  moreover have "KERNBASE \<le> slot p i + KERNBASE"
    using a p i by (simp add: word_le_nat_alt unat_word_ariths const_defs)
  ultimately show ?thesis by (simp add: kva_mapped_def)
qed

lemma entry_page: "entry (page2pa p + KERNBASE) i = slot p i + KERNBASE"
  by (simp add: entry_def slot_def)

lemma load64_slot:
  "phys_ok s \<Longrightarrow> p < npages s \<Longrightarrow> i < 512 \<Longrightarrow> load64 s (slot p i + KERNBASE) = Some (mem s (slot p i))"
  by (simp add: load64_def kva_mapped_slot)

lemma store64_slot:
  "phys_ok s \<Longrightarrow> p < npages s \<Longrightarrow> i < 512 \<Longrightarrow>
    store64 (slot p i + KERNBASE) v s = Some (s\<lparr>mem := (mem s)(slot p i := v)\<rparr>)"
  by (simp add: store64_def kva_mapped_slot)

section \<open>Zeroing a page\<close>

definition zero_page :: "nat \<Rightarrow> (u64 \<Rightarrow> u64) \<Rightarrow> u64 \<Rightarrow> u64" where
  "zero_page p m = (\<lambda>a. if unat (a - page2pa p) < 4096 then 0 else m a)"

lemma memset_zero_page:
  assumes "phys_ok s" "p < npages s"
  shows "memset_zero (page2pa p + KERNBASE) 4096 s = Some (s\<lparr>mem := zero_page p (mem s)\<rparr>)"
proof -
  have "kva_mapped s (page2pa p + KERNBASE)"
    using kva_mapped_slot [OF assms, of 0] by (simp add: slot_def)
  moreover have "unat (page2pa p) + 4096 \<le> npages s * 4096"
    using phys_ok_frame [OF assms] assms(2) by (simp add: unat_page2pa)
  ultimately show ?thesis by (simp add: memset_zero_def zero_page_def)
qed

lemma zero_page_slot:
  assumes "p < 2 ^ 27" "q < 2 ^ 27" "i < 512"
  shows "zero_page p m (slot q i) = (if q = p then 0 else m (slot q i))"
proof -
  have i: "unat i < 512" using assms(3) by (simp add: word_less_nat_alt)
  have sl: "unat (slot q i) = 4096 * q + 8 * unat i" and pa: "unat (page2pa p) = 4096 * p"
    using assms by (simp_all add: unat_slot unat_page2pa)
  show ?thesis
  proof (cases "p \<le> q")
    case True
    then have "unat (slot q i - page2pa p) = 4096 * (q - p) + 8 * unat i"
      by (subst unat_sub) (auto simp: word_le_nat_alt sl pa right_diff_distrib')
    then show ?thesis using True i by (auto simp: zero_page_def)
  next
    case False
    then have lt: "slot q i < page2pa p" using i by (simp add: word_less_nat_alt sl pa)
    have "unat (slot q i - page2pa p) = 2 ^ 64 + unat (slot q i) - unat (page2pa p)"
      using lt by (simp add: unat_sub_if_size word_size word_less_nat_alt)
    then have "4096 \<le> unat (slot q i - page2pa p)" using assms(1) by (simp add: sl pa)
    then show ?thesis using False by (auto simp: zero_page_def)
  qed
qed

end
