(* ===== verification/Page_Alloc.thy ===== *)
theory Page_Alloc
  imports Kernel_State
begin

text \<open>
  The physical page allocator of \<^verbatim>\<open>kern/pmap.c\<close>: \<^verbatim>\<open>page_alloc\<close>, \<^verbatim>\<open>page_free\<close> and
  \<^verbatim>\<open>page_decref\<close> over the free list that the fields \<^verbatim>\<open>pp_link\<close> form. The locale
  \<open>free_list\<close> states what a null-terminated free list promises its clients; it is
  interpreted here on the page list and, in theory Env_Invariant, on the list of free
  environments.
\<close>

section \<open>Operations\<close>

definition ALLOC_ZERO :: u32 where [const_defs]: "ALLOC_ZERO = 1"

definition page_alloc :: "u32 \<Rightarrow> kernel \<Rightarrow> (nat option \<times> kernel) may_panic" where
  "page_alloc alloc_flags s =
     (case page_free_list s of
        None \<Rightarrow> Some (None, s)
      | Some pp \<Rightarrow>
          (let s = s\<lparr>page_free_list := pp_link (pages s pp)\<rparr>;
               s = upd_page pp (pp_link_update (\<lambda>_. None)) s
           in if alloc_flags AND ALLOC_ZERO \<noteq> 0
              then do { kva \<leftarrow> page2kva s pp;
                        s \<leftarrow> memset_zero kva (unat PGSIZE) s;
                        Some (Some pp, s) }
              else Some (Some pp, s)))"

definition page_free :: "nat \<Rightarrow> kernel \<Rightarrow> kernel" where
  "page_free pp s =
     (if pp_ref (pages s pp) \<noteq> 0 \<or> pp_link (pages s pp) \<noteq> None then s
      else let s = upd_page pp (pp_link_update (\<lambda>_. page_free_list s)) s;
               s = s\<lparr>page_free_list := Some pp\<rparr>
           in upd_page pp (pp_ref_update (\<lambda>_. 0)) s)"

definition page_decref :: "nat \<Rightarrow> kernel \<Rightarrow> kernel" where
  "page_decref pp s =
     (let s = upd_page pp (pp_ref_update (\<lambda>r. r - 1)) s
      in if pp_ref (pages s pp) = 0 then page_free pp s else s)"

text \<open>\<^verbatim>\<open>pp->pp_ref += 1\<close> of the callers.\<close>

definition page_incref :: "nat \<Rightarrow> kernel \<Rightarrow> kernel" where
  "page_incref pp = upd_page pp (pp_ref_update (\<lambda>r. r + 1))"

section \<open>Null-terminated free lists\<close>

locale free_list =
  fixes head :: "'s \<Rightarrow> 'a option"
    and link :: "'s \<Rightarrow> 'a \<Rightarrow> 'a option"
    and pop :: "'s \<Rightarrow> 's"
    and push :: "'a \<Rightarrow> 's \<Rightarrow> 's"
    and pushable :: "'a \<Rightarrow> 's \<Rightarrow> bool"
  assumes pop_head: "head s = Some p \<Longrightarrow> head (pop s) = link s p"
    and pop_link: "head s = Some p \<Longrightarrow> q \<noteq> p \<Longrightarrow> link (pop s) q = link s q"
    and push_head: "pushable p s \<Longrightarrow> head (push p s) = Some p"
    and push_link: "pushable p s \<Longrightarrow> link (push p s) = (link s)(p := head s)"
begin

lemma pop_linked:
  assumes "linked (link s) (head s) (x # xs)"
  shows "linked (link (pop s)) (head (pop s)) xs"
proof -
  from assms have h: "head s = Some x" and l: "linked (link s) (link s x) xs"
    by (simp_all add: linked_Cons)
  from linked_distinct [OF assms] have "x \<notin> set xs" by simp
  with h have "\<And>y. y \<in> set xs \<Longrightarrow> link (pop s) y = link s y"
    by (metis pop_link)
  with l h show ?thesis by (simp add: pop_head linked_cong)
qed

lemma push_linked:
  assumes "linked (link s) (head s) xs" and "x \<notin> set xs" and "pushable x s"
  shows "linked (link (push x s)) (head (push x s)) (x # xs)"
  using assms by (simp add: push_head push_link linked_upd)

lemma push_pop_linked:
  assumes "linked (link s) (head s) xs" and "x \<notin> set xs" and "pushable x s"
  shows "linked (link (pop (push x s))) (head (pop (push x s))) xs"
  using push_linked [OF assms] by (rule pop_linked)

text \<open>Pushing a node that is already on the list closes a cycle: it has no end any more.\<close>

lemma push_again_cyclic:
  assumes "linked (link s) (head s) xs" and "x \<in> set xs" and "pushable x s"
  shows "\<not> linked (link (push x s)) (head (push x s)) ys"
proof
  assume ys: "linked (link (push x s)) (head (push x s)) ys"
  then obtain zs where zs: "ys = x # zs" "linked (link (push x s)) (head s) zs"
    using assms(3) by (cases ys) (auto simp: push_head push_link)
  from assms(2) obtain as bs where xs: "xs = as @ x # bs" "x \<notin> set as"
    by (meson split_list_first)
  then have "\<And>y. y \<in> set as \<Longrightarrow> link (push x s) y = link s y"
    using assms(3) by (auto simp: push_link)
  with assms(1) xs zs(2) obtain ws where ws: "zs = as @ ws" "linked (link (push x s)) (Some x) ws"
    by (metis linked_agree)
  with ys assms(3) have "ws = ys" by (metis linked_unique push_head)
  with zs(1) ws(1) show False by simp
qed

end

section \<open>The page free list\<close>

definition alloc_wf :: "kernel \<Rightarrow> nat list \<Rightarrow> bool" where
  "alloc_wf s fl \<longleftrightarrow> phys_ok s \<and> linked (\<lambda>p. pp_link (pages s p)) (page_free_list s) fl \<and>
     (\<forall>p\<in>set fl. p < npages s \<and> pp_ref (pages s p) = 0)"

interpretation pagelist: free_list
  page_free_list "\<lambda>s p. pp_link (pages s p)" "\<lambda>s. snd (the (page_alloc 0 s))" page_free
  "\<lambda>p s. pp_ref (pages s p) = 0 \<and> pp_link (pages s p) = None"
  by unfold_locales (auto simp: page_alloc_def page_free_def upd_page_def Let_def)

lemma alloc_wf_phys [simp]: "alloc_wf s fl \<Longrightarrow> phys_ok s"
  by (simp add: alloc_wf_def)

lemma alloc_wf_distinct: "alloc_wf s fl \<Longrightarrow> distinct fl"
  by (auto simp: alloc_wf_def dest: linked_distinct)

lemma alloc_wf_npages: "alloc_wf s fl \<Longrightarrow> p \<in> set fl \<Longrightarrow> p < npages s"
  by (simp add: alloc_wf_def)

lemma alloc_wf_frame: "alloc_wf s fl \<Longrightarrow> p \<in> set fl \<Longrightarrow> p < 2 ^ 27"
  by (meson alloc_wf_def phys_ok_frame)

lemma alloc_wf_Cons:
  "alloc_wf s (p # fl) \<Longrightarrow> p < npages s \<and> p < 2 ^ 27 \<and> p \<notin> set fl"
  using alloc_wf_distinct alloc_wf_frame [of s "p # fl" p] by (fastforce simp: alloc_wf_def)

lemma alloc_wf_unique: "alloc_wf s fl \<Longrightarrow> alloc_wf s fl' \<Longrightarrow> fl = fl'"
  by (auto simp: alloc_wf_def intro: linked_unique)

lemma alloc_wf_cong:
  "npages s' = npages s \<Longrightarrow> pages s' = pages s \<Longrightarrow> page_free_list s' = page_free_list s \<Longrightarrow>
    alloc_wf s' fl = alloc_wf s fl"
  by (simp add: alloc_wf_def phys_ok_def)

lemma alloc_wf_mem [simp]: "alloc_wf (s\<lparr>mem := m\<rparr>) fl = alloc_wf s fl"
  by (rule alloc_wf_cong) simp_all

lemma alloc_wf_incref:
  "alloc_wf s fl \<Longrightarrow> p \<notin> set fl \<Longrightarrow> alloc_wf (page_incref p s) fl"
  by (auto simp: alloc_wf_def page_incref_def upd_page_def phys_ok_def elim!: linked_cong)

lemma ALLOC_ZERO_nonzero [simp]: "ALLOC_ZERO \<noteq> 0"
  by (simp add: ALLOC_ZERO_def)

lemma page_alloc_empty: "alloc_wf s [] \<Longrightarrow> page_alloc f s = Some (None, s)"
  by (simp add: alloc_wf_def page_alloc_def)

definition taken :: "nat \<Rightarrow> kernel \<Rightarrow> kernel" where
  "taken p s = s\<lparr>page_free_list := pp_link (pages s p),
                 pages := (pages s)(p := (pages s p)\<lparr>pp_link := None\<rparr>)\<rparr>"

lemma page_alloc_zero:
  assumes "alloc_wf s (p # fl)"
  shows "page_alloc ALLOC_ZERO s = Some (Some p, (taken p s)\<lparr>mem := zero_page p (mem s)\<rparr>)"
proof -
  have "page_free_list s = Some p" "p < npages s" "phys_ok (taken p s)" "npages (taken p s) = npages s"
    using assms by (auto simp: alloc_wf_def linked_Cons phys_ok_def taken_def)
  then show ?thesis
    by (simp add: page_alloc_def Let_def upd_page_def taken_def [symmetric] page2kva_page PGSIZE_def
        ALLOC_ZERO_def memset_zero_page) (simp add: taken_def)
qed

lemma page_alloc_plain:
  assumes "alloc_wf s (p # fl)"
  shows "page_alloc 0 s = Some (Some p, taken p s)"
  using assms by (simp add: page_alloc_def alloc_wf_def linked_Cons upd_page_def taken_def)

lemma taken_wf:
  assumes "alloc_wf s (p # fl)"
  shows "alloc_wf (taken p s) fl"
proof -
  have "linked (\<lambda>q. pp_link (pages (taken p s) q)) (page_free_list (taken p s)) fl"
    using pagelist.pop_linked [of s p fl] assms page_alloc_plain [OF assms]
    by (simp add: alloc_wf_def)
  then show ?thesis
    using assms by (auto simp: alloc_wf_def taken_def phys_ok_def)
qed

lemma taken_simps [simp]:
  "npages (taken p s) = npages s" "mem (taken p s) = mem s"
  "pp_ref (pages (taken p s) q) = pp_ref (pages s q)"
  "pp_link (pages (taken p s) p) = None"
  by (auto simp: taken_def)

lemma page_free_wf:
  assumes "alloc_wf s fl" "p \<notin> set fl" "p < npages s" "pp_ref (pages s p) = 0" "pp_link (pages s p) = None"
  shows "alloc_wf (page_free p s) (p # fl)"
proof -
  have "linked (\<lambda>q. pp_link (pages (page_free p s) q)) (page_free_list (page_free p s)) (p # fl)"
    using assms by (intro pagelist.push_linked) (auto simp: alloc_wf_def)
  then show ?thesis
    using assms by (auto simp: alloc_wf_def phys_ok_def page_free_def Let_def upd_page_def)
qed

lemma pp_ref_dec_1: "pp_ref x = 1 \<Longrightarrow> pp_ref_update (\<lambda>r. r - 1) x = x\<lparr>pp_ref := 0\<rparr>"
  by (cases x) simp

lemma ref_zero_same: "pp_ref (pages s p) = 0 \<Longrightarrow> (pages s)(p := (pages s p)\<lparr>pp_ref := 0\<rparr>) = pages s"
  by (intro fun_upd_idem) (cases "pages s p", simp)

lemma page_decref_last:
  "pp_ref (pages s p) = 1 \<Longrightarrow>
    page_decref p s = page_free p (upd_page p (pp_ref_update (\<lambda>_. 0)) s)"
  by (simp add: page_decref_def Let_def upd_page_def pp_ref_dec_1)

lemma page_decref_more:
  "pp_ref (pages s p) \<noteq> 1 \<Longrightarrow>
    page_decref p s = upd_page p (pp_ref_update (\<lambda>r. r - 1)) s"
  by (simp add: page_decref_def Let_def upd_page_def)

lemma page_ops_fields [simp]:
  "npages (page_free p s) = npages s" "mem (page_free p s) = mem s"
  "npages (page_decref p s) = npages s" "mem (page_decref p s) = mem s"
  "npages (page_incref p s) = npages s" "mem (page_incref p s) = mem s"
  "page_free_list (page_incref p s) = page_free_list s"
  by (simp_all add: page_free_def page_decref_def page_incref_def Let_def upd_page_def)

text \<open>The allocator leaves the rest of the state alone.\<close>

lemma page_ops_frame [simp]:
  "boot_pml4e (page_free p s) = boot_pml4e s" "boot_pml4e (page_decref p s) = boot_pml4e s" "boot_pml4e (page_incref p s) = boot_pml4e s" "boot_pml4e (taken p s) = boot_pml4e s"
  "boot_cr3 (page_free p s) = boot_cr3 s" "boot_cr3 (page_decref p s) = boot_cr3 s" "boot_cr3 (page_incref p s) = boot_cr3 s" "boot_cr3 (taken p s) = boot_cr3 s"
  "envs (page_free p s) = envs s" "envs (page_decref p s) = envs s" "envs (page_incref p s) = envs s" "envs (taken p s) = envs s"
  "env_free_list (page_free p s) = env_free_list s" "env_free_list (page_decref p s) = env_free_list s" "env_free_list (page_incref p s) = env_free_list s" "env_free_list (taken p s) = env_free_list s"
  "vcpu_count (page_free p s) = vcpu_count s" "vcpu_count (page_decref p s) = vcpu_count s" "vcpu_count (page_incref p s) = vcpu_count s" "vcpu_count (taken p s) = vcpu_count s"
  "cpus (page_free p s) = cpus s" "cpus (page_decref p s) = cpus s" "cpus (page_incref p s) = cpus s" "cpus (taken p s) = cpus s"
  "this_cpu (page_free p s) = this_cpu s" "this_cpu (page_decref p s) = this_cpu s" "this_cpu (page_incref p s) = this_cpu s" "this_cpu (taken p s) = this_cpu s"
  "kernel_lock (page_free p s) = kernel_lock s" "kernel_lock (page_decref p s) = kernel_lock s" "kernel_lock (page_incref p s) = kernel_lock s" "kernel_lock (taken p s) = kernel_lock s"
  "cr0 (page_free p s) = cr0 s" "cr0 (page_decref p s) = cr0 s" "cr0 (page_incref p s) = cr0 s" "cr0 (taken p s) = cr0 s"
  "cr3 (page_free p s) = cr3 s" "cr3 (page_decref p s) = cr3 s" "cr3 (page_incref p s) = cr3 s" "cr3 (taken p s) = cr3 s"
  "cr4 (page_free p s) = cr4 s" "cr4 (page_decref p s) = cr4 s" "cr4 (page_incref p s) = cr4 s" "cr4 (taken p s) = cr4 s"
  "msrs (page_free p s) = msrs s" "msrs (page_decref p s) = msrs s" "msrs (page_incref p s) = msrs s" "msrs (taken p s) = msrs s"
  "vmcs_cur (page_free p s) = vmcs_cur s" "vmcs_cur (page_decref p s) = vmcs_cur s" "vmcs_cur (page_incref p s) = vmcs_cur s" "vmcs_cur (taken p s) = vmcs_cur s"
  "vmcs_data (page_free p s) = vmcs_data s" "vmcs_data (page_decref p s) = vmcs_data s" "vmcs_data (page_incref p s) = vmcs_data s" "vmcs_data (taken p s) = vmcs_data s"
  "vmdisk_number (page_free p s) = vmdisk_number s" "vmdisk_number (page_decref p s) = vmdisk_number s" "vmdisk_number (page_incref p s) = vmdisk_number s" "vmdisk_number (taken p s) = vmdisk_number s"
  "port_iortc (page_free p s) = port_iortc s" "port_iortc (page_decref p s) = port_iortc s" "port_iortc (page_incref p s) = port_iortc s" "port_iortc (taken p s) = port_iortc s"
  "host_vector (page_free p s) = host_vector s" "host_vector (page_decref p s) = host_vector s" "host_vector (page_incref p s) = host_vector s" "host_vector (taken p s) = host_vector s"
  "curenv (page_free p s) = curenv s" "curenv (page_decref p s) = curenv s"
  "curenv (page_incref p s) = curenv s" "curenv (taken p s) = curenv s"
  by (simp_all add: page_free_def page_decref_def page_incref_def taken_def Let_def upd_page_def
      curenv_def thiscpu_def)

lemma page_incref_mem: "page_incref p (s\<lparr>mem := m\<rparr>) = (page_incref p s)\<lparr>mem := m\<rparr>"
  by (simp add: page_incref_def upd_page_def)

section \<open>Correctness of the allocator\<close>

text \<open>
  C31. The allocator implements a stack of free pages. On a well-formed free list \<open>fl\<close>,
  \<^verbatim>\<open>page_alloc\<close> never panics; it returns a null pointer and changes nothing exactly when the
  list is empty, and otherwise returns the first page, with null link, unchanged reference
  count and (under \<^verbatim>\<open>ALLOC_ZERO\<close>) zeroed memory, and leaves the rest of the list and every
  other page as they were.
\<close>

theorem page_alloc_stack:
  assumes "alloc_wf s fl" and "f = 0 \<or> f = ALLOC_ZERO"
  shows "\<exists>r s'. page_alloc f s = Some (r, s') \<and>
    (case fl of
       [] \<Rightarrow> r = None \<and> s' = s
     | p # fl' \<Rightarrow> r = Some p \<and> alloc_wf s' fl' \<and> pp_link (pages s' p) = None \<and>
         (\<forall>q. pp_ref (pages s' q) = pp_ref (pages s q)) \<and>
         (\<forall>q. q \<noteq> p \<longrightarrow> pages s' q = pages s q) \<and>
         mem s' = (if f = 0 then mem s else zero_page p (mem s)))"
proof (cases fl)
  case Nil
  with assms(1) show ?thesis by (simp add: page_alloc_empty)
next
  case (Cons p fl')
  with assms(1) have wf: "alloc_wf s (p # fl')" by simp
  have "\<forall>q. q \<noteq> p \<longrightarrow> pages (taken p s) q = pages s q" by (simp add: taken_def)
  with wf assms(2) Cons show ?thesis
    by (auto simp: page_alloc_zero page_alloc_plain taken_wf)
qed

text \<open>
  A small concrete machine for the examples: eight pages, of which 2 to 5 are free and page 1
  holds an empty top-level page table.
\<close>

definition small_kernel :: kernel where
  "small_kernel = bss_state\<lparr>npages := 8, page_free_list := Some 2,
     pages := (\<lambda>p. \<lparr>pp_link = (if 2 \<le> p \<and> p < 5 then Some (p + 1) else None),
                     pp_ref = (if p = 1 then 1 else 0)\<rparr>)\<rparr>"

lemma small_kernel_wf: "alloc_wf small_kernel [2, 3, 4, 5]"
  by (simp add: alloc_wf_def small_kernel_def bss_state_def phys_ok_def kern_mem_max_eq)

lemma small_kernel_simps [simp]:
  "npages small_kernel = 8" "mem small_kernel = (\<lambda>_. 0)"
  "pages small_kernel p = \<lparr>pp_link = (if 2 \<le> p \<and> p < 5 then Some (p + 1) else None),
     pp_ref = (if p = 1 then 1 else 0)\<rparr>"
  "curenv small_kernel = None"
  by (simp_all add: small_kernel_def bss_state_def curenv_def thiscpu_def)

theorem page_alloc_stack_witness:
  "\<exists>s'. page_alloc ALLOC_ZERO small_kernel = Some (Some 2, s') \<and> alloc_wf s' [3, 4, 5]"
  using page_alloc_stack [OF small_kernel_wf, of ALLOC_ZERO] by auto

text \<open>
  Freeing the page just allocated restores the state exactly: the free list, every
  \<^verbatim>\<open>struct PageInfo\<close> and all of memory.
\<close>

theorem page_alloc_free_roundtrip:
  assumes "alloc_wf s (p # fl)"
  shows "\<exists>s'. page_alloc 0 s = Some (Some p, s') \<and> page_free p s' = s"
proof -
  have h: "page_free_list s = Some p" and r: "pp_ref (pages s p) = 0"
    using assms by (auto simp: alloc_wf_def linked_Cons)
  have "page_free p (taken p s) = s\<lparr>page_free_list := page_free_list s, pages := pages s\<rparr>"
    unfolding h by (simp add: page_free_def taken_def upd_page_def Let_def r ref_zero_same)
  then have "page_free p (taken p s) = s" by simp
  with page_alloc_plain [OF assms] show ?thesis by simp
qed

theorem page_alloc_free_roundtrip_witness:
  "\<exists>s'. page_alloc 0 small_kernel = Some (Some 2, s') \<and> page_free 2 s' = small_kernel"
  using page_alloc_free_roundtrip [OF small_kernel_wf] .

lemma page_decref_wf:
  assumes "alloc_wf s fl" "p \<notin> set fl" "p < npages s" "pp_link (pages s p) = None"
  shows "alloc_wf (page_decref p s) (if pp_ref (pages s p) = 1 then p # fl else fl)"
proof -
  let ?s = "upd_page p (pp_ref_update (\<lambda>_. 0)) s" and ?t = "upd_page p (pp_ref_update (\<lambda>r. r - 1)) s"
  have wf: "alloc_wf ?s fl" "alloc_wf ?t fl"
    using assms by (auto simp: alloc_wf_def upd_page_def phys_ok_def elim!: linked_cong)
  show ?thesis
    using wf assms by (simp add: page_decref_last page_decref_more page_free_wf upd_page_def)
qed

text \<open>
  C32. Dropping a reference, for every value of the 16-bit count: the last reference puts the
  page in front of the free list, a count above one only goes down by one, and at count zero
  the decrement wraps around to 65535 and the page is not freed.
\<close>

theorem page_decref_cases:
  assumes "alloc_wf s fl" "p \<notin> set fl" "p < npages s" "pp_link (pages s p) = None"
  shows "(pp_ref (pages s p) = 1 \<longrightarrow> alloc_wf (page_decref p s) (p # fl)) \<and>
    (pp_ref (pages s p) \<noteq> 1 \<longrightarrow> alloc_wf (page_decref p s) fl \<and>
       pp_ref (pages (page_decref p s) p) = pp_ref (pages s p) - 1) \<and>
    (pp_ref (pages s p) = 0 \<longrightarrow> pp_ref (pages (page_decref p s) p) = 0xFFFF)"
  using page_decref_wf [OF assms] by (auto simp: page_decref_more upd_page_def)

theorem page_decref_cases_witness:
  "alloc_wf (page_decref 1 small_kernel) [1, 2, 3, 4, 5] \<and>
   pp_ref (pages (page_decref 7 small_kernel) 7) = 0xFFFF"
  using page_decref_cases [OF small_kernel_wf, of 1] page_decref_cases [OF small_kernel_wf, of 7]
  by simp

text \<open>
  The double-free check of \<^verbatim>\<open>page_free\<close> (a non-null \<^verbatim>\<open>pp_link\<close>) misses the last page of
  the free list, whose link is null: freeing it again is accepted, and the free list becomes a
  cycle, so that no finite list of free pages describes it any more. Freeing any other free
  page again is refused and changes nothing.
\<close>

theorem page_free_twice:
  assumes "alloc_wf s fl" and "p \<in> set fl"
  shows "if p = last fl then (\<nexists>ys. alloc_wf (page_free p s) ys) else page_free p s = s"
proof -
  have ln: "linked (\<lambda>q. pp_link (pages s q)) (page_free_list s) fl" and r: "pp_ref (pages s p) = 0"
    using assms by (auto simp: alloc_wf_def)
  have l: "pp_link (pages s p) = None \<longleftrightarrow> p = last fl"
    by (rule linked_last [OF ln assms(2)])
  then show ?thesis
    using pagelist.push_again_cyclic [OF ln assms(2)] r
    by (auto simp: alloc_wf_def) (auto simp: page_free_def)
qed

theorem page_free_twice_witness:
  "(\<nexists>ys. alloc_wf (page_free 5 small_kernel) ys) \<and> page_free 2 small_kernel = small_kernel"
  using page_free_twice [OF small_kernel_wf, of 5] page_free_twice [OF small_kernel_wf, of 2]
  by simp

end
