(* ===== verification/Page_Table.thy ===== *)
theory Page_Table
  imports Page_Alloc
begin

text \<open>
  The four-level page table of \<^verbatim>\<open>kern/pmap.c\<close>: the three mutually calling walks, static
  mappings, insertion, lookup and removal of pages, TLB invalidation, memory-mapped I/O
  regions and the check of user pointers. Pointers to table entries are kernel virtual
  addresses, with \<open>0\<close> the null pointer; \<^verbatim>\<open>int perm\<close> is a 32-bit word that the C conversion to
  64 bits sign-extends.

  Three layers describe a walk: the code, the reference function \<open>grow\<close> on frame numbers and
  memory contents that it refines (locale \<open>table_walk\<close>, interpreted on every level), and
  \<open>follow\<close>, the translation a table in memory defines.
\<close>

section \<open>Table walks\<close>

definition pgdir_walk :: "u64 \<Rightarrow> u64 \<Rightarrow> bool \<Rightarrow> kernel \<Rightarrow> (u64 \<times> kernel) may_panic" where
  "pgdir_walk pgdir va create s =
     (if pgdir = 0 then Some (0, s)
      else do {
        pte \<leftarrow> load64 s (entry pgdir (PDX va));
        if pte AND PTE_P = 0 \<and> create then do {
          (page, s) \<leftarrow> page_alloc ALLOC_ZERO s;
          case page of
            None \<Rightarrow> Some (0, s)
          | Some page \<Rightarrow> do {
              let s = page_incref page s;
              s \<leftarrow> store64 (entry pgdir (PDX va)) (page2pa page OR PTE_U OR PTE_W OR PTE_P) s;
              e \<leftarrow> load64 s (entry pgdir (PDX va));
              kva \<leftarrow> KADDR s (entry (PTE_ADDR e) (PTX va));
              Some (kva, s) } }
        else if pte AND PTE_P \<noteq> 0 then do {
          kva \<leftarrow> KADDR s (entry (PTE_ADDR pte) (PTX va));
          Some (kva, s) }
        else Some (0, s) })"

definition pdpe_walk :: "u64 \<Rightarrow> u64 \<Rightarrow> bool \<Rightarrow> kernel \<Rightarrow> (u64 \<times> kernel) may_panic" where
  "pdpe_walk pdpe va create s =
     (if pdpe = 0 then Some (0, s)
      else do {
        pdp \<leftarrow> load64 s (entry pdpe (PDPE va));
        if pdp AND PTE_P = 0 \<and> create then do {
          (page, s) \<leftarrow> page_alloc ALLOC_ZERO s;
          case page of
            None \<Rightarrow> Some (0, s)
          | Some page \<Rightarrow> do {
              let s = page_incref page s;
              s \<leftarrow> store64 (entry pdpe (PDPE va)) (page2pa page OR PTE_U OR PTE_W OR PTE_P) s;
              e \<leftarrow> load64 s (entry pdpe (PDPE va));
              kva \<leftarrow> KADDR s (PTE_ADDR e);
              (pte, s) \<leftarrow> pgdir_walk kva va create s;
              if pte \<noteq> 0 then Some (pte, s)
              else do {
                s \<leftarrow> store64 (entry pdpe (PDPE va)) 0 s;
                Some (0, page_decref page s) } } }
        else if pdp AND PTE_P \<noteq> 0 then do {
          kva \<leftarrow> KADDR s (PTE_ADDR pdp);
          pgdir_walk kva va create s }
        else Some (0, s) })"

definition pml4e_walk :: "u64 \<Rightarrow> u64 \<Rightarrow> bool \<Rightarrow> kernel \<Rightarrow> (u64 \<times> kernel) may_panic" where
  "pml4e_walk pml4e va create s =
     (if pml4e = 0 then Some (0, s)
      else do {
        pdpe \<leftarrow> load64 s (entry pml4e (PML4 va));
        if pdpe AND PTE_P = 0 \<and> create then do {
          (page, s) \<leftarrow> page_alloc ALLOC_ZERO s;
          case page of
            None \<Rightarrow> Some (0, s)
          | Some page \<Rightarrow> do {
              let s = page_incref page s;
              s \<leftarrow> store64 (entry pml4e (PML4 va)) (page2pa page OR PTE_U OR PTE_W OR PTE_P) s;
              e \<leftarrow> load64 s (entry pml4e (PML4 va));
              kva \<leftarrow> KADDR s (PTE_ADDR e);
              (pte, s) \<leftarrow> pdpe_walk kva va create s;
              if pte \<noteq> 0 then Some (pte, s)
              else do {
                s \<leftarrow> store64 (entry pml4e (PML4 va)) 0 s;
                Some (0, page_decref page s) } } }
        else if pdpe AND PTE_P \<noteq> 0 then do {
          kva \<leftarrow> KADDR s (PTE_ADDR pdpe);
          pdpe_walk kva va create s }
        else Some (0, s) })"

section \<open>Mapping operations\<close>

text \<open>\<^verbatim>\<open>table[i] = table[i] | flags\<close>\<close>

definition or_entry :: "u64 \<Rightarrow> u64 \<Rightarrow> kernel \<Rightarrow> kernel may_panic" where
  "or_entry a flags s = do { e \<leftarrow> load64 s a; store64 a (e OR flags) s }"

text \<open>
  The permission update that \<^verbatim>\<open>boot_map_region\<close> and \<^verbatim>\<open>page_insert\<close> perform on the entries
  of the three upper levels.
\<close>

definition or_path :: "u64 \<Rightarrow> u64 \<Rightarrow> u64 \<Rightarrow> kernel \<Rightarrow> kernel may_panic" where
  "or_path pml4e va flags s = do {
     s \<leftarrow> or_entry (entry pml4e (PML4 va)) flags s;
     e \<leftarrow> load64 s (entry pml4e (PML4 va));
     pdpe \<leftarrow> KADDR s (PTE_ADDR e);
     s \<leftarrow> or_entry (entry pdpe (PDPE va)) flags s;
     e \<leftarrow> load64 s (entry pdpe (PDPE va));
     pde \<leftarrow> KADDR s (PTE_ADDR e);
     or_entry (entry pde (PDX va)) flags s }"

definition boot_map_page :: "u64 \<Rightarrow> u64 \<Rightarrow> u64 \<Rightarrow> u32 \<Rightarrow> kernel \<Rightarrow> kernel may_panic" where
  \<comment> \<open>one iteration of the loop: \<open>la\<close> and \<open>addr\<close> already advanced by \<open>i\<close>\<close>
  "boot_map_page pml4e la addr perm s = do {
     (pte, s) \<leftarrow> pml4e_walk pml4e la True s;
     s \<leftarrow> (if pte \<noteq> 0 then store64 pte (PTE_ADDR addr OR scast perm OR PTE_P) s else Some s);
     or_path pml4e la (scast perm OR PTE_P) s }"

text \<open>The loop returns \<open>None\<close> also when it does not end (\<open>i\<close> can wrap around).\<close>

partial_function (option) boot_map_loop ::
    "u64 \<Rightarrow> u64 \<Rightarrow> u64 \<Rightarrow> u64 \<Rightarrow> u32 \<Rightarrow> u64 \<Rightarrow> kernel \<Rightarrow> kernel may_panic" where
  "boot_map_loop pml4e la sz pa perm i s =
     (if i < sz then do {
        s \<leftarrow> boot_map_page pml4e (la + i) (pa + i) perm s;
        boot_map_loop pml4e la sz pa perm (i + PGSIZE) s }
      else Some s)"

definition boot_map_region :: "u64 \<Rightarrow> u64 \<Rightarrow> u64 \<Rightarrow> u64 \<Rightarrow> u32 \<Rightarrow> kernel \<Rightarrow> kernel may_panic" where
  "boot_map_region pml4e la sz pa perm s = boot_map_loop pml4e la sz pa perm 0 s"

definition tlb_invalidate :: "u64 \<Rightarrow> u64 \<Rightarrow> kernel \<Rightarrow> kernel may_panic" where
  "tlb_invalidate pml4e va s = do {
     guard_panic (pml4e \<noteq> 0);
     Some (if (case curenv s of None \<Rightarrow> True | Some e \<Rightarrow> env_pml4e (envs s e) = pml4e)
           then s\<lparr>invlpg_log := va # invlpg_log s\<rparr> else s) }"

text \<open>The page and, for \<^verbatim>\<open>pte_store\<close>, the address of its entry.\<close>

definition page_lookup :: "u64 \<Rightarrow> u64 \<Rightarrow> kernel \<Rightarrow> ((nat \<times> u64) option \<times> kernel) may_panic" where
  "page_lookup pml4e va s =
     (if pml4e = 0 then Some (None, s)
      else do {
        (pte, s) \<leftarrow> pml4e_walk pml4e va False s;
        if pte = 0 then Some (None, s)
        else do {
          e \<leftarrow> load64 s pte;
          if e AND PTE_P \<noteq> 0 then do {
            page \<leftarrow> pa2page s (PTE_ADDR e);
            Some (Some (page, pte), s) }
          else Some (None, s) } })"

definition page_remove :: "u64 \<Rightarrow> u64 \<Rightarrow> kernel \<Rightarrow> kernel may_panic" where
  "page_remove pml4e va s = do {
     (found, s) \<leftarrow> page_lookup pml4e va s;
     case found of
       None \<Rightarrow> Some s
     | Some (page, pte) \<Rightarrow> do {
         s \<leftarrow> tlb_invalidate pml4e va s;
         store64 pte 0 (page_decref page s) } }"

definition page_insert :: "u64 \<Rightarrow> nat option \<Rightarrow> u64 \<Rightarrow> u32 \<Rightarrow> kernel \<Rightarrow> (int \<times> kernel) may_panic" where
  "page_insert pml4e pp va perm s =
     (case pp of
        None \<Rightarrow> Some (- E_NO_MEM, s)
      | Some pp \<Rightarrow>
          if pml4e = 0 then Some (- E_NO_MEM, s)
          else do {
            (pte, s) \<leftarrow> pml4e_walk pml4e va True s;
            if pte = 0 then Some (- E_NO_MEM, s)
            else do {
              s \<leftarrow> or_path pml4e va (scast (perm AND NOT PTE_AVAIL)) s;
              e \<leftarrow> load64 s pte;
              if e AND PTE_P \<noteq> 0 \<and> page2pa pp = PTE_ADDR e then do {
                s \<leftarrow> store64 pte (PTE_ADDR e OR scast perm OR PTE_P) s;
                s \<leftarrow> tlb_invalidate pml4e va s;
                Some (0, s) }
              else do {
                s \<leftarrow> (if e AND PTE_P \<noteq> 0 then page_remove pml4e va s else Some s);
                let s = page_incref pp s;
                s \<leftarrow> store64 pte (page2pa pp OR scast perm OR PTE_P) s;
                s \<leftarrow> tlb_invalidate pml4e va s;
                Some (0, s) } } })"

definition mmio_map_region :: "u64 \<Rightarrow> u64 \<Rightarrow> kernel \<Rightarrow> (u64 \<times> kernel) may_panic" where
  "mmio_map_region pa sz s = do {
     let va = mmio_base s;
     let sz = ROUNDUP sz PGSIZE;
     let s = s\<lparr>mmio_base := mmio_base s + sz\<rparr>;
     guard_panic (mmio_base s < MMIOLIM);
     s \<leftarrow> boot_map_region (boot_pml4e s) va sz pa (ucast (PTE_P OR PTE_W OR PTE_PWT OR PTE_PCD)) s;
     Some (va, s) }"

partial_function (option) user_mem_check_loop ::
    "u64 \<Rightarrow> u64 \<Rightarrow> u64 \<Rightarrow> u32 \<Rightarrow> kernel \<Rightarrow> (int \<times> kernel) may_panic" where
  "user_mem_check_loop pml4e va endva perm s =
     (if va < endva then do {
        (ptep, s) \<leftarrow> pml4e_walk pml4e va False s;
        ok \<leftarrow> (if ptep = 0 then Some False
              else map_option (\<lambda>e. e AND (scast perm OR PTE_P) = scast perm OR PTE_P) (load64 s ptep));
        if \<not> ok then Some (- E_FAULT, s\<lparr>user_mem_check_addr := va\<rparr>)
        else user_mem_check_loop pml4e (ROUNDUP (va + 1) PGSIZE) endva perm s }
      else Some (0, s))"

definition user_mem_check :: "nat \<Rightarrow> u64 \<Rightarrow> u64 \<Rightarrow> u32 \<Rightarrow> kernel \<Rightarrow> (int \<times> kernel) may_panic" where
  "user_mem_check env va len perm s =
     (let endva = va + len
      in if endva \<ge> ULIM \<or> va > endva
         then Some (- E_FAULT, s\<lparr>user_mem_check_addr := va\<rparr>)
         else user_mem_check_loop (env_pml4e (envs s env)) va endva perm s)"

end
