(* ===== verification/Page_Walk.thy ===== *)
theory Page_Walk
  imports Page_Table
begin

text \<open>
  Correctness of the table walks. \<open>follow\<close> is the translation that tables in memory define,
  \<open>grow\<close> the reference function for a walk that creates missing tables. The locale
  \<open>table_walk\<close> is the contract of one level towards the level above; it is interpreted on
  \<^const>\<open>pgdir_walk\<close>, \<^const>\<open>pdpe_walk\<close> and \<^const>\<open>pml4e_walk\<close>, each from the one below.
\<close>

section \<open>Translation\<close>

abbreviation present :: "u64 \<Rightarrow> bool" where
  "present e \<equiv> e AND PTE_P \<noteq> 0"

abbreviation target :: "u64 \<Rightarrow> nat" where
  "target e \<equiv> unat (PPN e)"

fun follow :: "(u64 \<Rightarrow> u64) \<Rightarrow> nat \<Rightarrow> u64 list \<Rightarrow> nat option" where
  "follow m p [] = Some p"
| "follow m p (i # is) =
     (if present (m (slot p i)) then follow m (target (m (slot p i))) is else None)"

text \<open>The frames that a walk visits.\<close>

fun path_frames :: "(u64 \<Rightarrow> u64) \<Rightarrow> nat \<Rightarrow> u64 list \<Rightarrow> nat list" where
  "path_frames m p [] = [p]"
| "path_frames m p (i # is) =
     p # (if present (m (slot p i)) then path_frames m (target (m (slot p i))) is else [])"

text \<open>The addresses of the entries that it reads.\<close>

fun path_cells :: "(u64 \<Rightarrow> u64) \<Rightarrow> nat \<Rightarrow> u64 list \<Rightarrow> u64 list" where
  "path_cells m p [] = []"
| "path_cells m p (i # is) =
     slot p i # (if present (m (slot p i)) then path_cells m (target (m (slot p i))) is else [])"

definition path_ok :: "kernel \<Rightarrow> nat \<Rightarrow> u64 list \<Rightarrow> bool" where
  "path_ok s p is \<longleftrightarrow> (\<forall>q\<in>set (path_frames (mem s) p is). q < npages s)"

definition walk_idx :: "u64 \<Rightarrow> u64 list" where
  "walk_idx va = [PML4 va, PDPE va, PDX va]"

definition missing :: "(u64 \<Rightarrow> u64) \<Rightarrow> nat \<Rightarrow> u64 list \<Rightarrow> nat" where
  "missing m p is = Suc (length is) - length (path_frames m p is)"

text \<open>Frame \<open>q\<close>, cleared, becomes the table that entry \<open>i\<close> of table \<open>p\<close> refers to.\<close>

definition link_table :: "nat \<Rightarrow> u64 \<Rightarrow> nat \<Rightarrow> (u64 \<Rightarrow> u64) \<Rightarrow> u64 \<Rightarrow> u64" where
  "link_table p i q m = (zero_page q m)(slot p i := page2pa q OR PTE_U OR PTE_W OR PTE_P)"

text \<open>A walk that creates tables: new memory, remaining free list, last table.\<close>

fun grow :: "(u64 \<Rightarrow> u64) \<Rightarrow> nat list \<Rightarrow> nat \<Rightarrow> u64 list \<Rightarrow> (u64 \<Rightarrow> u64) \<times> nat list \<times> nat option" where
  "grow m fl p [] = (m, fl, Some p)"
| "grow m fl p (i # is) =
     (if present (m (slot p i)) then grow m fl (target (m (slot p i))) is
      else case fl of
        [] \<Rightarrow> (m, [], None)
      | q # fl \<Rightarrow>
          (case grow (link_table p i q m) fl q is of
             (m, fl, Some t) \<Rightarrow> (m, fl, Some t)
           | (m, fl, None) \<Rightarrow> (m(slot p i := 0), q # fl, None)))"

section \<open>Properties of the reference function\<close>

lemma present_bit: "present e \<longleftrightarrow> bit e 0"
  by (simp add: PTE_P_def and_one_eq mod_2_eq_odd bit_0)

lemma table_flags [simp]: "PTE_U OR PTE_W OR PTE_P = 7"
  by (simp add: const_defs)

lemma present_new [simp]: "present (page2pa q OR 7)"
  by (subst present_bit) (simp add: bit_or_iff)

lemma target_new [simp]: "p < 2 ^ 52 \<Longrightarrow> target (page2pa p OR 7) = p"
  by (simp add: PPN_or_flags unat_of_nat)

lemma path_frames_hd [simp]: "p \<in> set (path_frames m p is)"
  by (cases "is") simp_all

lemma path_frames_zero: "\<forall>i\<in>set is. m (slot q i) = 0 \<Longrightarrow> path_frames m q is = [q]"
  by (cases "is") simp_all

lemma follow_path: "follow m p is = Some q \<Longrightarrow> q \<in> set (path_frames m p is)"
  by (induction m p "is" rule: follow.induct) (auto split: if_splits)

lemma length_path_frames: "length (path_frames m p is) \<le> Suc (length is)"
  by (induction m p "is" rule: path_frames.induct) auto

lemma follow_missing: "follow m p is \<noteq> None \<longleftrightarrow> missing m p is = 0"
  using length_path_frames
  by (induction m p "is" rule: follow.induct) (auto simp: missing_def)

lemma grow_fail: "grow m fl p is = (m', fl', None) \<Longrightarrow> fl' = fl"
  by (induction m fl p "is" arbitrary: m' fl' rule: grow.induct)
    (auto split: if_splits list.splits prod.splits option.splits)

lemma grow_suffix: "grow m fl p is = (m', fl', r) \<Longrightarrow> \<exists>us. fl = us @ fl'"
proof (induction "is" arbitrary: m fl p m' fl' r)
  case (Cons i "is")
  show ?case
  proof (cases "present (m (slot p i)) \<or> fl = []")
    case True
    with Cons show ?thesis by (auto split: if_splits)
  next
    case False
    then obtain q fl1 where fl: "fl = q # fl1" by (cases fl) auto
    obtain m2 fl2 r2 where g: "grow (link_table p i q m) fl1 q is = (m2, fl2, r2)"
      by (cases "grow (link_table p i q m) fl1 q is") auto
    then have "\<exists>us. fl1 = us @ fl2" by (rule Cons.IH)
    then show ?thesis using Cons.prems False fl g by (cases r2) (auto dest: grow_fail)
  qed
qed simp

text \<open>A new table is empty and its parent entry refers to it.\<close>

lemma link_table_eq: "link_table p i q m = (zero_page q m)(slot p i := page2pa q OR 7)"
  by (simp add: link_table_def)

lemma link_table_slot:
  assumes "p < 2 ^ 27" "q < 2 ^ 27" "r < 2 ^ 27" "i < 512" "j < 512"
  shows "link_table p i q m (slot r j) =
    (if r = p \<and> j = i then page2pa q OR 7 else if r = q then 0 else m (slot r j))"
  using assms by (simp add: link_table_def slot_inj zero_page_slot)

lemma fresh_table:
  assumes "p < 2 ^ 27" "q < 2 ^ 27" "p \<noteq> q" "i < 512" "\<forall>j\<in>set is. j < 512"
  shows "path_frames (link_table p i q m) q is = [q]"
  using assms by (intro path_frames_zero) (simp add: link_table_slot)

text \<open>The last table found lies in memory.\<close>

lemma grow_bound:
  assumes "grow m fl p is = (m', fl', Some t)" "\<forall>q\<in>set (path_frames m p is). q < n"
    "\<forall>q\<in>set fl. q < n" "set (path_frames m p is) \<inter> set fl = {}" "distinct fl"
    "n \<le> 2 ^ 27" "\<forall>i\<in>set is. i < 512"
  shows "t < n"
  using assms
proof (induction "is" arbitrary: m fl p)
  case (Cons i "is")
  show ?case
  proof (cases "present (m (slot p i))")
    case False
    with Cons.prems obtain q fl1 where fl: "fl = q # fl1" by (cases fl) auto
    with Cons.prems False have "grow (link_table p i q m) fl1 q is = (m', fl', Some t)"
      by (auto split: prod.splits option.splits)
    moreover have "path_frames (link_table p i q m) q is = [q]"
      using Cons.prems fl by (intro fresh_table) auto
    ultimately show ?thesis using Cons.prems fl by (intro Cons.IH [of "link_table p i q m" fl1 q]) auto
  qed (use Cons in auto)
qed simp

text \<open>A walk succeeds exactly when the free list covers the missing tables.\<close>

lemma grow_success:
  assumes "grow m fl p is = (m', fl', r)" "\<forall>q\<in>set (path_frames m p is). q < 2 ^ 27"
    "\<forall>q\<in>set fl. q < 2 ^ 27" "set (path_frames m p is) \<inter> set fl = {}" "distinct fl"
    "\<forall>i\<in>set is. i < 512"
  shows "(if missing m p is \<le> length fl then r \<noteq> None \<and> fl' = drop (missing m p is) fl
          else r = None)"
  using assms
proof (induction "is" arbitrary: m fl p m' fl' r)
  case (Cons i "is")
  show ?case
  proof (cases "present (m (slot p i))")
    case True
    with Cons.prems have "missing m p (i # is) = missing m (target (m (slot p i))) is"
      by (simp add: missing_def)
    with True Cons show ?thesis by simp
  next
    case False
    show ?thesis
    proof (cases fl)
      case Nil
      with Cons.prems False show ?thesis by (simp add: missing_def)
    next
      case (Cons q fl1)
      obtain m2 fl2 r2 where g: "grow (link_table p i q m) fl1 q is = (m2, fl2, r2)"
        by (cases "grow (link_table p i q m) fl1 q is") auto
      have f: "path_frames (link_table p i q m) q is = [q]"
        using Cons.prems Cons by (intro fresh_table) auto
      have "if missing (link_table p i q m) q is \<le> length fl1
        then r2 \<noteq> None \<and> fl2 = drop (missing (link_table p i q m) q is) fl1 else r2 = None"
        using Cons.prems Cons f by (intro Cons.IH [OF g]) auto
      then show ?thesis
        using Cons.prems False Cons g f by (auto simp: missing_def split: if_splits)
    qed
  qed
qed (simp add: missing_def)

lemma grow_none_missing: "missing m p is = 0 \<Longrightarrow> grow m fl p is = (m, fl, follow m p is)"
proof (induction "is" arbitrary: p)
  case (Cons i "is")
  then show ?case by (auto simp: missing_def split: if_splits)
qed simp

text \<open>The side conditions under which a walk from table \<open>p\<close> is safe.\<close>

definition walk_pre :: "(u64 \<Rightarrow> u64) \<Rightarrow> nat list \<Rightarrow> nat \<Rightarrow> u64 list \<Rightarrow> bool" where
  "walk_pre m fl p is \<longleftrightarrow> (\<forall>q\<in>set (path_frames m p is). q < 2 ^ 27) \<and> (\<forall>q\<in>set fl. q < 2 ^ 27) \<and>
     set (path_frames m p is) \<inter> set fl = {} \<and> distinct fl \<and> (\<forall>i\<in>set is. i < 512)"

lemma walk_pre_next:
  "walk_pre m fl p (i # is) \<Longrightarrow> present (m (slot p i)) \<Longrightarrow> walk_pre m fl (target (m (slot p i))) is"
  by (auto simp: walk_pre_def)

lemma walk_pre_new:
  assumes "walk_pre m (q # fl) p (i # is)"
  shows "walk_pre (link_table p i q m) fl q is"
proof -
  have "path_frames (link_table p i q m) q is = [q]"
    using assms by (intro fresh_table) (auto simp: walk_pre_def)
  with assms show ?thesis by (auto simp: walk_pre_def)
qed

lemma walk_preD:
  assumes "walk_pre m fl p is"
  shows "p < 2 ^ 27" "p \<notin> set fl" "q \<in> set fl \<Longrightarrow> q < 2 ^ 27" "q \<in> set fl \<Longrightarrow> q \<noteq> p"
  using assms path_frames_hd [of p m "is"] unfolding walk_pre_def by (blast, blast, blast, blast)

lemma grow_cases:
  assumes "grow m fl p (i # is) = (m', fl', r)"
  obtains
    (Old) "present (m (slot p i))" "grow m fl (target (m (slot p i))) is = (m', fl', r)"
  | (Empty) "\<not> present (m (slot p i))" "fl = []" "m' = m" "fl' = []" "r = None"
  | (New) q fl1 t where "\<not> present (m (slot p i))" "fl = q # fl1" "r = Some t"
      "grow (link_table p i q m) fl1 q is = (m', fl', Some t)"
  | (Undo) q fl1 m2 where "\<not> present (m (slot p i))" "fl = q # fl1" "r = None"
      "grow (link_table p i q m) fl1 q is = (m2, fl1, None)" "m' = m2(slot p i := 0)" "fl' = fl"
proof (cases "present (m (slot p i)) \<or> fl = []")
  case True
  with assms show ?thesis using Old Empty by (auto split: if_splits)
next
  case False
  then obtain q fl1 where fl: "fl = q # fl1" by (cases fl) auto
  obtain m2 fl2 r2 where g: "grow (link_table p i q m) fl1 q is = (m2, fl2, r2)"
    by (cases "grow (link_table p i q m) fl1 q is") auto
  show ?thesis
  proof (cases r2)
    case None
    with g have "fl2 = fl1" by (auto dest: grow_fail)
    with None g fl False assms show ?thesis by (intro Undo) auto
  next
    case (Some t)
    with g fl False assms show ?thesis by (intro New) auto
  qed
qed

lemma link_table_cells:
  assumes "walk_pre m (q # fl) p (i # is)" "t < 2 ^ 27" "j < 512" "t \<noteq> q"
  shows "slot t j \<notin> set (path_cells (link_table p i q m) q is)"
proof (cases "is")
  case (Cons k ks)
  with assms have "link_table p i q m (slot q k) = 0"
    by (subst link_table_slot) (auto simp: walk_pre_def)
  with Cons assms show ?thesis by (auto simp: walk_pre_def slot_inj)
qed simp

text \<open>Outside the free pages, present entries and entries off the path keep their value.\<close>

lemma grow_frame:
  assumes "grow m fl p is = (m', fl', r)" "walk_pre m fl p is"
    "t < 2 ^ 27" "j < 512" "t \<notin> set fl"
    "present (m (slot t j)) \<or> slot t j \<notin> set (path_cells m p is)"
  shows "m' (slot t j) = m (slot t j)"
  using assms
proof (induction "is" arbitrary: m fl p m' fl' r)
  case (Cons i "is")
  have i: "i < 512" using Cons.prems(2) by (simp add: walk_pre_def)
  have new: "slot t j \<noteq> slot p i \<and> m2 (slot t j) = m (slot t j)"
    if "\<not> present (m (slot p i))" "fl = q # fl1" "grow (link_table p i q m) fl1 q is = (m2, fl2, r2)"
    for q fl1 m2 fl2 r2
  proof -
    have ne: "slot t j \<noteq> slot p i" using that Cons.prems(6) by auto
    have eq: "link_table p i q m (slot t j) = m (slot t j)"
      using ne Cons.prems that i walk_preD [OF Cons.prems(2)] by (auto simp: link_table_slot)
    have "slot t j \<notin> set (path_cells (link_table p i q m) q is)"
      using Cons.prems that by (intro link_table_cells) auto
    with Cons.IH [OF that(3) walk_pre_new] Cons.prems that eq ne show ?thesis by auto
  qed
  from Cons.prems(1) show ?case
  proof (cases rule: grow_cases)
    case Old
    with Cons.prems show ?thesis by (intro Cons.IH [OF Old(2)]) (auto dest: walk_pre_next)
  next
    case (Undo q fl1 m2)
    with new [of q fl1 m2 fl1 None] show ?thesis by simp
  qed (use new in auto)
qed simp

lemma grow_follow:
  assumes "grow m fl p is = (m', fl', Some t)" "walk_pre m fl p is"
  shows "follow m' p is = Some t \<and> set (path_frames m' p is) \<subseteq> set (path_frames m p is) \<union> (set fl - set fl') \<and>
    (distinct (path_frames m p is) \<longrightarrow> distinct (path_frames m' p is))"
  using assms
proof (induction "is" arbitrary: m fl p m' fl' t)
  case (Cons i "is")
  have i: "i < 512" and p: "p < 2 ^ 27" "p \<notin> set fl"
    using Cons.prems(2) walk_preD [OF Cons.prems(2)] by (auto simp: walk_pre_def)
  from Cons.prems(1) show ?case
  proof (cases rule: grow_cases)
    case Old
    have "m' (slot p i) = m (slot p i)"
      using grow_frame [OF Cons.prems, of p i] p i Old(1) by simp
    with Old Cons.IH [OF Old(2) walk_pre_next [OF Cons.prems(2) Old(1)]] p(2) show ?thesis by auto
  next
    case (New q fl1 t')
    then have wp: "walk_pre (link_table p i q m) fl1 q is"
      using Cons.prems(2) by (simp add: walk_pre_new)
    have q: "q < 2 ^ 27" "q \<notin> set fl1" using New(2) Cons.prems(2) by (auto simp: walk_pre_def)
    have e: "link_table p i q m (slot p i) = page2pa q OR 7"
      by (simp add: link_table_def)
    then have "m' (slot p i) = page2pa q OR 7"
      using grow_frame [OF New(4) wp, of p i] p i New(2) by simp
    moreover have "set fl' \<subseteq> set fl1" using grow_suffix [OF New(4)] by auto
    moreover have "path_frames (link_table p i q m) q is = [q]"
      using Cons.prems(2) New(2) by (intro fresh_table) (auto simp: walk_pre_def)
    ultimately show ?thesis using Cons.IH [OF New(4) wp] New(2,3) q p(2) by auto
  qed simp_all
qed simp

lemma grow_fresh_leaf:
  assumes "grow m fl p is = (m', fl', Some t)" "walk_pre m fl p is" "missing m p is \<noteq> 0"
  shows "t \<in> set fl \<and> (\<forall>j<512. m' (slot t j) = 0)"
  using assms
proof (induction "is" arbitrary: m fl p m' fl' t)
  case (Cons i "is")
  from Cons.prems(1) show ?case
  proof (cases rule: grow_cases)
    case Old
    with Cons.prems(3) have "missing m (target (m (slot p i))) is \<noteq> 0" by (simp add: missing_def)
    with Cons.IH [OF Old(2)] Cons.prems(2) Old(1) show ?thesis by (auto dest: walk_pre_next)
  next
    case (New q fl1 t')
    then have wp: "walk_pre (link_table p i q m) fl1 q is"
      using Cons.prems(2) by (simp add: walk_pre_new)
    have pq: "p < 2 ^ 27" "q < 2 ^ 27" "p \<noteq> q" "i < 512"
      using New(2) Cons.prems(2) by (auto simp: walk_pre_def)
    have f: "path_frames (link_table p i q m) q is = [q]"
      using Cons.prems(2) New(2) by (intro fresh_table) (auto simp: walk_pre_def)
    show ?thesis
    proof (cases "is")
      case Nil
      with New pq show ?thesis by (auto simp: link_table_slot)
    next
      case (Cons k ks)
      then have "missing (link_table p i q m) q is \<noteq> 0" using f by (simp add: missing_def)
      then show ?thesis using Cons.IH [OF New(4) wp] New by auto
    qed
  qed simp_all
qed (simp add: missing_def)

section \<open>The walk contract\<close>

definition leaf_ptr :: "nat option \<Rightarrow> u64 \<Rightarrow> u64" where
  "leaf_ptr r va = (case r of None \<Rightarrow> 0 | Some t \<Rightarrow> slot t (PTX va) + KERNBASE)"

text \<open>
  The state in which the pages of \<open>fl\<close> that are no longer in \<open>fl'\<close> have been claimed as
  tables and memory has become \<open>m\<close>.
\<close>

definition claimed :: "nat list \<Rightarrow> nat list \<Rightarrow> (u64 \<Rightarrow> u64) \<Rightarrow> kernel \<Rightarrow> kernel" where
  "claimed fl fl' m s = s\<lparr>mem := m,
     pages := (\<lambda>q. if q \<in> set fl - set fl' then \<lparr>pp_link = None, pp_ref = 1\<rparr> else pages s q),
     page_free_list := (case fl' of [] \<Rightarrow> None | q # _ \<Rightarrow> Some q)\<rparr>"

definition walk_ready :: "kernel \<Rightarrow> nat list \<Rightarrow> nat \<Rightarrow> u64 list \<Rightarrow> bool" where
  "walk_ready s fl p is \<longleftrightarrow> alloc_wf s fl \<and> path_ok s p is \<and>
     set (path_frames (mem s) p is) \<inter> set fl = {}"

locale table_walk =
  fixes walk :: "u64 \<Rightarrow> u64 \<Rightarrow> bool \<Rightarrow> kernel \<Rightarrow> (u64 \<times> kernel) may_panic"
    and idx :: "u64 \<Rightarrow> u64 list"
  assumes idx_bound: "i \<in> set (idx va) \<Longrightarrow> i < 512"
    and lookup: "phys_ok s \<Longrightarrow> path_ok s p (idx va) \<Longrightarrow>
      walk (page2pa p + KERNBASE) va False s = Some (leaf_ptr (follow (mem s) p (idx va)) va, s)"
    and create: "walk_ready s fl p (idx va) \<Longrightarrow> grow (mem s) fl p (idx va) = (m', fl', r) \<Longrightarrow>
      walk (page2pa p + KERNBASE) va True s = Some (leaf_ptr r va, claimed fl fl' m' s)"

text \<open>What \<^const>\<open>pdpe_walk\<close> and \<^const>\<open>pml4e_walk\<close> do around the walk of the next level.\<close>

definition walk_level ::
    "(u64 \<Rightarrow> u64) \<Rightarrow> (u64 \<Rightarrow> u64 \<Rightarrow> bool \<Rightarrow> kernel \<Rightarrow> (u64 \<times> kernel) may_panic) \<Rightarrow>
     u64 \<Rightarrow> u64 \<Rightarrow> bool \<Rightarrow> kernel \<Rightarrow> (u64 \<times> kernel) may_panic" where
  "walk_level ix next_walk base va create s =
     (if base = 0 then Some (0, s)
      else do {
        e \<leftarrow> load64 s (entry base (ix va));
        if e AND PTE_P = 0 \<and> create then do {
          (page, s) \<leftarrow> page_alloc ALLOC_ZERO s;
          case page of
            None \<Rightarrow> Some (0, s)
          | Some page \<Rightarrow> do {
              let s = page_incref page s;
              s \<leftarrow> store64 (entry base (ix va)) (page2pa page OR PTE_U OR PTE_W OR PTE_P) s;
              e \<leftarrow> load64 s (entry base (ix va));
              kva \<leftarrow> KADDR s (PTE_ADDR e);
              (pte, s) \<leftarrow> next_walk kva va create s;
              if pte \<noteq> 0 then Some (pte, s)
              else do {
                s \<leftarrow> store64 (entry base (ix va)) 0 s;
                Some (0, page_decref page s) } } }
        else if e AND PTE_P \<noteq> 0 then do {
          kva \<leftarrow> KADDR s (PTE_ADDR e);
          next_walk kva va create s }
        else Some (0, s) })"

lemma walk_levels:
  "pdpe_walk = walk_level PDPE pgdir_walk" "pml4e_walk = walk_level PML4 pdpe_walk"
  by (simp_all add: fun_eq_iff walk_level_def pdpe_walk_def pml4e_walk_def)

lemma table_ptr_nonzero:
  assumes "p < 2 ^ 27" "i < 512"
  shows "slot p i + KERNBASE \<noteq> 0" "page2pa p + KERNBASE \<noteq> 0"
proof -
  have i: "unat i < 512" using assms(2) by (simp add: word_less_nat_alt)
  then have "unat (slot p i + KERNBASE) = 4096 * p + 8 * unat i + 0x8004000000"
    using assms by (simp add: unat_word_ariths unat_slot const_defs)
  moreover have "unat (page2pa p + KERNBASE) = 4096 * p + 0x8004000000"
    using assms by (simp add: unat_word_ariths unat_page2pa const_defs)
  ultimately show "slot p i + KERNBASE \<noteq> 0" "page2pa p + KERNBASE \<noteq> 0" by auto
qed

text \<open>Claiming the first free page as the table that an entry of table \<open>p\<close> refers to.\<close>

lemma claim_table:
  assumes "alloc_wf s (q # fl)"
  shows "(page_incref q (taken q s))\<lparr>mem := m\<rparr> = claimed (q # fl) fl m s"
    "alloc_wf (claimed (q # fl) fl m s) fl"
proof -
  have l: "linked (\<lambda>p. pp_link (pages s p)) (page_free_list s) (q # fl)" and r: "pp_ref (pages s q) = 0"
    and q: "q \<notin> set fl"
    using assms alloc_wf_distinct [OF assms] by (auto simp: alloc_wf_def)
  have "pp_link (pages s q) = (case fl of [] \<Rightarrow> None | x # _ \<Rightarrow> Some x)"
    using l by (cases fl) (auto simp: linked_Cons)
  moreover have "(pages (taken q s))(q := pp_ref_update (\<lambda>r. r + 1) (pages (taken q s) q)) =
      (\<lambda>x. if x \<in> set (q # fl) - set fl then \<lparr>pp_link = None, pp_ref = 1\<rparr> else pages s x)"
    using q r by (cases "pages s q") (auto simp: taken_def fun_eq_iff)
  ultimately show eq: "(page_incref q (taken q s))\<lparr>mem := m\<rparr> = claimed (q # fl) fl m s"
    by (simp add: page_incref_def upd_page_def claimed_def taken_def)
  have "alloc_wf (page_incref q (taken q s)) fl"
    using assms q by (intro alloc_wf_incref taken_wf)
  then show "alloc_wf (claimed (q # fl) fl m s) fl"
    unfolding eq [symmetric] by simp
qed

lemma claimed_simps [simp]:
  "npages (claimed fl fl' m s) = npages s" "mem (claimed fl fl' m s) = m"
  "phys_ok (claimed fl fl' m s) = phys_ok s" "(claimed fl fl' m s)\<lparr>mem := m'\<rparr> = claimed fl fl' m' s"
  by (simp_all add: claimed_def phys_ok_def)

lemma claimed_none:
  assumes "alloc_wf s fl"
  shows "claimed fl fl m s = s\<lparr>mem := m\<rparr>"
proof -
  have "page_free_list s = (case fl of [] \<Rightarrow> None | q # _ \<Rightarrow> Some q)"
    using assms by (cases fl) (auto simp: alloc_wf_def linked_Cons)
  then have "claimed fl fl m s = s\<lparr>mem := m, page_free_list := page_free_list s\<rparr>"
    by (simp add: claimed_def)
  then show ?thesis by simp
qed

lemma claimed_trans:
  assumes "q \<notin> set fl" "set fl' \<subseteq> set fl"
  shows "claimed fl fl' m' (claimed (q # fl) fl m s) = claimed (q # fl) fl' m' s"
proof -
  have "pages (claimed fl fl' m' (claimed (q # fl) fl m s)) = pages (claimed (q # fl) fl' m' s)"
    using assms by (auto simp: claimed_def fun_eq_iff)
  then show ?thesis by (simp add: claimed_def)
qed

text \<open>Giving the page back undoes the claim.\<close>

lemma claimed_undo:
  assumes "alloc_wf s (q # fl)"
  shows "page_decref q (claimed (q # fl) fl m s) = s\<lparr>mem := m\<rparr>"
proof -
  let ?c = "claimed (q # fl) fl m s"
  have q: "q \<notin> set fl" and r: "pp_ref (pages s q) = 0" and h: "page_free_list s = Some q"
    and n: "pp_link (pages s q) = (case fl of [] \<Rightarrow> None | x # _ \<Rightarrow> Some x)"
    using assms alloc_wf_distinct [OF assms]
    by (auto simp: alloc_wf_def linked_Cons split: list.split)
  have "(pages ?c)(q := \<lparr>pp_link = page_free_list ?c, pp_ref = 0\<rparr>) = pages s"
    using q r n by (cases "pages s q") (auto simp: claimed_def fun_eq_iff)
  moreover have "pages ?c q = \<lparr>pp_link = None, pp_ref = 1\<rparr>"
    using q by (simp add: claimed_def)
  ultimately have "page_decref q ?c = ?c\<lparr>page_free_list := page_free_list s, pages := pages s\<rparr>"
    by (simp add: page_decref_last page_free_def upd_page_def Let_def h r ref_zero_same)
  then show ?thesis by (simp add: claimed_def)
qed

lemma claimed_wf:
  assumes "alloc_wf s (us @ fl)"
  shows "alloc_wf (claimed (us @ fl) fl m s) fl"
  using assms
proof (induction us arbitrary: s)
  case Nil
  then show ?case by (simp add: claimed_none)
next
  case (Cons q us)
  then have "alloc_wf (claimed (q # us @ fl) (us @ fl) m s) (us @ fl)"
    by (simp add: claim_table)
  from Cons.IH [OF this] show ?case
    using alloc_wf_Cons [of s q "us @ fl"] Cons.prems by (simp add: claimed_trans)
qed

context table_walk
begin

text \<open>The contract of one level gives the contract of the level above it.\<close>

lemma level_lookup:
  assumes "phys_ok s" "path_ok s p (ix va # idx va)" "ix va < 512"
  shows "walk_level ix walk (page2pa p + KERNBASE) va False s =
    Some (leaf_ptr (follow (mem s) p (ix va # idx va)) va, s)"
proof -
  have p: "p < npages s" "p < 2 ^ 27" using assms phys_ok_frame by (auto simp: path_ok_def)
  then have l: "load64 s (entry (page2pa p + KERNBASE) (ix va)) = Some (mem s (slot p (ix va)))"
    "page2pa p + KERNBASE \<noteq> 0"
    using assms by (simp_all add: entry_page load64_slot table_ptr_nonzero)
  show ?thesis
  proof (cases "present (mem s (slot p (ix va)))")
    case True
    with assms have ok: "path_ok s (target (mem s (slot p (ix va)))) (idx va)"
      and t: "target (mem s (slot p (ix va))) < npages s"
      by (auto simp: path_ok_def)
    with True l assms show ?thesis
      by (simp add: walk_level_def KADDR_PTE_ADDR lookup [OF assms(1) ok])
  qed (use l in \<open>simp add: walk_level_def leaf_ptr_def\<close>)
qed

lemma level_create:
  assumes ready: "walk_ready s fl p (ix va # idx va)" and ix: "ix va < 512"
    and g: "grow (mem s) fl p (ix va # idx va) = (m', fl', r)"
  shows "walk_level ix walk (page2pa p + KERNBASE) va True s = Some (leaf_ptr r va, claimed fl fl' m' s)"
proof -
  let ?i = "ix va" and ?base = "page2pa p + KERNBASE"
  have wf: "alloc_wf s fl" and ph: "phys_ok s" using ready by (auto simp: walk_ready_def alloc_wf_def)
  have p: "p < npages s" "p < 2 ^ 27" "p \<notin> set fl"
    using ready phys_ok_frame [OF ph] by (auto simp: walk_ready_def path_ok_def)
  then have l: "load64 s (slot p ?i + KERNBASE) = Some (mem s (slot p ?i))" "?base \<noteq> 0"
    using ix ph by (simp_all add: load64_slot table_ptr_nonzero)
  have new: "walk_level ix walk ?base va True s = do {
      (pte, s') \<leftarrow> Some (leaf_ptr r2 va, claimed fl fl2 m2 s);
      if pte \<noteq> 0 then Some (pte, s')
      else do { s' \<leftarrow> store64 (slot p ?i + KERNBASE) 0 s'; Some (0, page_decref q s') } }"
    if e: "\<not> present (mem s (slot p ?i))" "fl = q # fl1"
      "grow (link_table p ?i q (mem s)) fl1 q (idx va) = (m2, fl2, r2)" for q fl1 m2 fl2 r2
  proof -
    let ?c = "claimed (q # fl1) fl1 (link_table p ?i q (mem s)) s"
    have q: "q < npages s" "q < 2 ^ 27" "q \<noteq> p" "q \<notin> set fl1"
      using alloc_wf_Cons [of s q fl1] wf e(2) p by auto
    have fr: "path_frames (link_table p ?i q (mem s)) q (idx va) = [q]"
      using p q ix idx_bound by (intro fresh_table) auto
    have "walk_ready ?c fl1 q (idx va)"
      using claim_table(2) [of s q fl1] wf e(2) q fr by (simp add: walk_ready_def path_ok_def)
    then have w: "walk (page2pa q + KERNBASE) va True ?c = Some (leaf_ptr r2 va, claimed fl1 fl2 m2 ?c)"
      using e(3) by (intro create) simp_all
    have sub: "set fl2 \<subseteq> set fl1" using grow_suffix [OF e(3)] by auto
    have c: "(page_incref q (taken q s))\<lparr>mem := link_table p ?i q (mem s)\<rparr> = ?c"
      using claim_table(1) wf e(2) by simp
    let ?s1 = "page_incref q ((taken q s)\<lparr>mem := zero_page q (mem s)\<rparr>)"
    have st: "store64 (slot p ?i + KERNBASE) (page2pa q OR 7) ?s1 = Some ?c"
      using c p ix ph by (subst store64_slot)
        (simp_all add: page_incref_mem link_table_eq [symmetric] phys_ok_def)
    have ld: "load64 ?c (slot p ?i + KERNBASE) = Some (page2pa q OR 7)"
      using p ix ph by (simp add: load64_slot link_table_def)
    have ka: "KADDR ?c (PTE_ADDR (page2pa q OR 7)) = Some (page2pa q + KERNBASE)"
      using q ph by (subst KADDR_PTE_ADDR) simp_all
    show ?thesis
      using wf e(1,2) l w q(4) sub
      by (simp add: walk_level_def entry_page page_alloc_zero st ld ka claimed_trans)
  qed
  from g show ?thesis
  proof (cases rule: grow_cases)
    case Old
    then have t: "target (mem s (slot p ?i)) < npages s"
      and rd: "walk_ready s fl (target (mem s (slot p ?i))) (idx va)"
      using ready by (auto simp: walk_ready_def path_ok_def)
    with Old l ph show ?thesis
      by (simp add: walk_level_def entry_page KADDR_PTE_ADDR create [OF rd])
  next
    case Empty
    with l wf show ?thesis
      by (simp add: walk_level_def entry_page page_alloc_empty leaf_ptr_def claimed_none)
  next
    case (New q fl1 t)
    have "t < npages s"
      using grow_bound [OF g [unfolded New(3)], of "npages s"] ready ix idx_bound alloc_wf_npages [OF wf]
        alloc_wf_distinct [OF wf] ph
      by (auto simp: walk_ready_def path_ok_def phys_ok_def kern_mem_max_eq)
    then have "leaf_ptr (Some t) va \<noteq> 0"
      using phys_ok_frame [OF ph] by (simp add: leaf_ptr_def table_ptr_nonzero)
    with new [OF New(1,2,4)] New(3) show ?thesis by simp
  next
    case (Undo q fl1 m2)
    have wf': "alloc_wf s (q # fl1)" using wf Undo(2) by simp
    from claimed_undo [OF wf'] new [OF Undo(1,2,4)] Undo(2,3,5,6) p ix ph show ?thesis
      by (simp add: leaf_ptr_def store64_slot claimed_none [OF wf'])
  qed
qed

lemma level:
  assumes "\<And>va. ix va < 512"
  shows "table_walk (walk_level ix walk) (\<lambda>va. ix va # idx va)"
  using assms idx_bound level_lookup level_create by unfold_locales auto

end

text \<open>The page table itself: the last index only selects an entry.\<close>

definition pt_walk :: "u64 \<Rightarrow> u64 \<Rightarrow> bool \<Rightarrow> kernel \<Rightarrow> (u64 \<times> kernel) may_panic" where
  "pt_walk base va create s = Some (entry base (PTX va), s)"

interpretation ptw: table_walk pt_walk "\<lambda>va. []"
  by unfold_locales
    (auto simp: pt_walk_def leaf_ptr_def entry_page claimed_none walk_ready_def)

text \<open>
  \<^const>\<open>pgdir_walk\<close> has the shape of the other levels, except that it computes the entry's
  address before it converts it and has nothing to undo.
\<close>

lemma KADDR_entry:
  assumes "phys_ok s" "target e < npages s"
  shows "KADDR s (entry (PTE_ADDR e) (PTX va)) = Some (entry (page2pa (target e) + KERNBASE) (PTX va))"
proof -
  have t: "target e < 2 ^ 27" using phys_ok_frame [OF assms] .
  have "entry (PTE_ADDR e) (PTX va) = slot (target e) (PTX va)"
    by (simp add: entry_def slot_def PTE_ADDR_page2pa)
  moreover have "KADDR s (slot (target e) (PTX va)) = Some (slot (target e) (PTX va) + KERNBASE)"
    using t assms(2) by (simp add: KADDR_def PPN_slot unsigned_ucast_eq unat_of_nat take_bit_nat_eq_self)
  ultimately show ?thesis by (simp add: entry_page)
qed

lemma pgdir_lookup:
  assumes "phys_ok s" "path_ok s p [PDX va]"
  shows "pgdir_walk (page2pa p + KERNBASE) va False s =
    walk_level PDX pt_walk (page2pa p + KERNBASE) va False s"
proof -
  have p: "p < npages s" using assms by (auto simp: path_ok_def)
  with assms have "load64 s (entry (page2pa p + KERNBASE) (PDX va)) = Some (mem s (slot p (PDX va)))"
    by (simp add: entry_page load64_slot)
  moreover have "present (mem s (slot p (PDX va))) \<Longrightarrow> target (mem s (slot p (PDX va))) < npages s"
    using assms(2) by (simp add: path_ok_def)
  ultimately show ?thesis
    using assms(1) by (simp add: pgdir_walk_def walk_level_def KADDR_entry KADDR_PTE_ADDR pt_walk_def)
qed

lemma pgdir_create:
  assumes "walk_ready s fl p [PDX va]"
  shows "pgdir_walk (page2pa p + KERNBASE) va True s =
    walk_level PDX pt_walk (page2pa p + KERNBASE) va True s"
proof -
  have wf: "alloc_wf s fl" and ph: "phys_ok s" using assms by (auto simp: walk_ready_def alloc_wf_def)
  have p: "p < npages s" using assms by (auto simp: walk_ready_def path_ok_def)
  then have ld: "load64 s (entry (page2pa p + KERNBASE) (PDX va)) = Some (mem s (slot p (PDX va)))"
    using ph by (simp add: entry_page load64_slot)
  show ?thesis
  proof (cases "present (mem s (slot p (PDX va)))")
    case True
    moreover have "target (mem s (slot p (PDX va))) < npages s"
      using assms True by (simp add: walk_ready_def path_ok_def)
    ultimately show ?thesis
      using ld ph by (simp add: pgdir_walk_def walk_level_def KADDR_entry KADDR_PTE_ADDR pt_walk_def)
  next
    case False
    show ?thesis
    proof (cases fl)
      case Nil
      with False wf ld show ?thesis by (simp add: pgdir_walk_def walk_level_def page_alloc_empty)
    next
      case (Cons q fl1)
      let ?s1 = "page_incref q ((taken q s)\<lparr>mem := zero_page q (mem s)\<rparr>)"
      let ?s2 = "?s1\<lparr>mem := (zero_page q (mem s))(slot p (PDX va) := page2pa q OR 7)\<rparr>"
      have q: "q < npages s" "q < 2 ^ 27" using alloc_wf_Cons [of s q fl1] wf Cons by auto
      have ph2: "phys_ok ?s1" "phys_ok ?s2" using ph by (simp_all add: phys_ok_def)
      have st: "store64 (slot p (PDX va) + KERNBASE) (page2pa q OR 7) ?s1 = Some ?s2"
        using p ph2(1) by (subst store64_slot) simp_all
      have l2: "load64 ?s2 (slot p (PDX va) + KERNBASE) = Some (page2pa q OR 7)"
        using p ph2(2) by (subst load64_slot) simp_all
      have k: "KADDR ?s2 (entry (PTE_ADDR (page2pa q OR 7)) (PTX va)) =
          Some (slot q (PTX va) + KERNBASE)"
        "KADDR ?s2 (PTE_ADDR (page2pa q OR 7)) = Some (page2pa q + KERNBASE)"
        using q ph2(2) by (subst KADDR_entry KADDR_PTE_ADDR; simp add: entry_page)+
      have "slot q (PTX va) + KERNBASE \<noteq> 0" using q by (simp add: table_ptr_nonzero)
      with False wf Cons ld show ?thesis
        by (simp add: pgdir_walk_def walk_level_def page_alloc_zero entry_page)
          (simp add: st l2 k pt_walk_def entry_page)
    qed
  qed
qed

lemma pgdir_contract: "table_walk pgdir_walk (\<lambda>va. [PDX va])"
proof -
  have lv: "table_walk (walk_level PDX pt_walk) (\<lambda>va. [PDX va])"
    by (rule ptw.level) simp
  show ?thesis
    by unfold_locales
      (simp_all add: pgdir_lookup pgdir_create table_walk.lookup [OF lv] table_walk.create [OF lv])
qed

interpretation pgdirw: table_walk pgdir_walk "\<lambda>va. [PDX va]"
  by (rule pgdir_contract)

interpretation pdpew: table_walk pdpe_walk "\<lambda>va. [PDPE va, PDX va]"
  unfolding walk_levels(1) by (rule pgdirw.level) simp

interpretation pml4w: table_walk pml4e_walk walk_idx
proof -
  have "table_walk (walk_level PML4 pdpe_walk) (\<lambda>va. [PML4 va, PDPE va, PDX va])"
    by (rule pdpew.level) simp
  then show "table_walk pml4e_walk walk_idx"
    by (simp add: walk_levels(2) walk_idx_def [abs_def])
qed

section \<open>Correctness of the walks\<close>

text \<open>
  C30. A walk without \<^verbatim>\<open>create\<close> never panics and changes nothing: it returns the address of
  the entry for \<^verbatim>\<open>va\<close> in the last-level table exactly when the entries of all three upper
  levels are present, and the null pointer otherwise.
\<close>

theorem pml4e_walk_lookup:
  assumes "phys_ok s" and "path_ok s root (walk_idx va)"
  shows "pml4e_walk (page2pa root + KERNBASE) va False s =
    Some (case follow (mem s) root (walk_idx va) of
            None \<Rightarrow> 0
          | Some t \<Rightarrow> slot t (PTX va) + KERNBASE, s)"
  using pml4w.lookup [OF assms] by (simp add: leaf_ptr_def)

lemma walk_ready_pre:
  assumes "walk_ready s fl root (walk_idx va)"
  shows "walk_pre (mem s) fl root (walk_idx va)"
proof -
  have wf: "alloc_wf s fl" and ph: "phys_ok s" using assms by (auto simp: walk_ready_def alloc_wf_def)
  show ?thesis
    using assms phys_ok_frame [OF ph] alloc_wf_frame [OF wf] alloc_wf_distinct [OF wf]
    by (auto simp: walk_ready_def walk_pre_def path_ok_def walk_idx_def)
qed

text \<open>
  C3. A walk with \<^verbatim>\<open>create\<close> on a well-formed free list \<open>fl\<close> disjoint from the tables it
  visits never panics. It succeeds exactly when there are as many free pages as missing tables.
  Then it takes precisely that many pages from the front of the list, gives each a reference
  count of one, and the new tables lead to the returned entry, which is empty when a table was
  created; otherwise it returns the null pointer and gives every page back, so that the
  allocator's state is exactly the one before the call. In both cases every present entry
  outside the free pages keeps its value, so no existing mapping of any address changes.
\<close>

theorem pml4e_walk_create:
  assumes ready: "walk_ready s fl root (walk_idx va)"
  defines "k \<equiv> missing (mem s) root (walk_idx va)"
  shows "\<exists>pte s'. pml4e_walk (page2pa root + KERNBASE) va True s = Some (pte, s') \<and>
    (if k \<le> length fl
     then \<exists>t. follow (mem s') root (walk_idx va) = Some t \<and> pte = slot t (PTX va) + KERNBASE \<and>
            alloc_wf s' (drop k fl) \<and>
            (\<forall>q. pages s' q = (if q \<in> set (take k fl) then \<lparr>pp_link = None, pp_ref = 1\<rparr> else pages s q)) \<and>
            mem s' (slot t (PTX va)) = (if k = 0 then mem s (slot t (PTX va)) else 0)
     else pte = 0 \<and> s'\<lparr>mem := mem s\<rparr> = s) \<and>
    (\<forall>t j. t < npages s \<and> j < 512 \<and> t \<notin> set fl \<and> present (mem s (slot t j)) \<longrightarrow>
       mem s' (slot t j) = mem s (slot t j))"
proof -
  have wf: "alloc_wf s fl" and ph: "phys_ok s" using ready by (auto simp: walk_ready_def alloc_wf_def)
  note wp = walk_ready_pre [OF ready]
  obtain m' fl' r where g: "grow (mem s) fl root (walk_idx va) = (m', fl', r)"
    by (cases "grow (mem s) fl root (walk_idx va)") auto
  let ?s' = "claimed fl fl' m' s"
  have w: "pml4e_walk (page2pa root + KERNBASE) va True s = Some (leaf_ptr r va, ?s')"
    by (rule pml4w.create [OF ready g])
  have kept: "\<forall>t j. t < npages s \<and> j < 512 \<and> t \<notin> set fl \<and> present (mem s (slot t j)) \<longrightarrow>
       mem ?s' (slot t j) = mem s (slot t j)"
    using grow_frame [OF g wp] phys_ok_frame [OF ph] by simp
  have suc: "if k \<le> length fl then r \<noteq> None \<and> fl' = drop k fl else r = None"
    using grow_success [OF g] wp unfolding walk_pre_def k_def by blast
  show ?thesis
  proof (cases "k \<le> length fl")
    case False
    then have "r = None" "fl' = fl" using suc grow_fail [of _ _ _ _ m' fl'] g by auto
    with w kept False wf show ?thesis by (simp add: leaf_ptr_def claimed_none)
  next
    case True
    then obtain t where t: "r = Some t" "fl' = drop k fl" using suc by auto
    have "mem ?s' (slot t (PTX va)) = (if k = 0 then mem s (slot t (PTX va)) else 0)"
    proof (cases "k = 0")
      case True
      with g show ?thesis by (simp add: k_def grow_none_missing)
    next
      case False
      with grow_fresh_leaf [OF g [unfolded t(1)] wp] show ?thesis by (simp add: k_def)
    qed
    moreover have "set fl - set fl' = set (take k fl)"
      using alloc_wf_distinct [OF wf] t(2) append_take_drop_id [of k fl]
      by (metis Diff_Int_distrib2 distinct_append set_append Un_Diff Diff_cancel Un_empty_right Diff_triv)
    moreover have "alloc_wf ?s' (drop k fl)"
      using claimed_wf [of s "take k fl" "drop k fl" m'] wf t(2) by simp
    ultimately show ?thesis
      using w kept True t grow_follow [OF g [unfolded t(1)] wp]
      by (simp add: leaf_ptr_def) (simp add: claimed_def)
  qed
qed

lemma small_kernel_ready: "walk_ready small_kernel [2, 3, 4, 5] 1 (walk_idx va)"
  using small_kernel_wf by (simp add: walk_ready_def path_ok_def walk_idx_def)

lemma small_kernel_missing: "missing (mem small_kernel) 1 (walk_idx va) = 3"
  by (simp add: missing_def walk_idx_def)

theorem pml4e_walk_lookup_witness:
  "pml4e_walk (page2pa 1 + KERNBASE) 0x800000 False small_kernel = Some (0, small_kernel)"
  using pml4e_walk_lookup [of small_kernel 1 "0x800000"] small_kernel_ready [of "0x800000"]
    alloc_wf_phys [OF small_kernel_wf]
  by (simp add: walk_ready_def walk_idx_def)

theorem pml4e_walk_create_witness:
  "\<exists>pte s' t. pml4e_walk (page2pa 1 + KERNBASE) 0x800000 True small_kernel = Some (pte, s') \<and>
     follow (mem s') 1 (walk_idx 0x800000) = Some t \<and> alloc_wf s' [5]"
  using pml4e_walk_create [OF small_kernel_ready, of "0x800000"]
  unfolding small_kernel_missing by auto

end
