(* ===== verification/Page_Map.thy ===== *)
theory Page_Map
  imports Page_Walk
begin

text \<open>
  Correctness of the mapping operations of \<^verbatim>\<open>kern/pmap.c\<close> on top of the walk contract:
  insertion, lookup and removal of pages, their reference counts, what they leave unchanged,
  the static mappings and the check of user pointers.
\<close>

section \<open>What a translation depends on\<close>

lemma follow_cong:
  assumes "\<forall>x\<in>set (path_cells m p is). present (m' x) = present (m x) \<and> target (m' x) = target (m x)"
  shows "follow m' p is = follow m p is" "path_cells m' p is = path_cells m p is"
    "path_frames m' p is = path_frames m p is"
  using assms by (induction m p "is" rule: follow.induct) auto

lemma present_or [simp]: "present e \<Longrightarrow> present (e OR f)"
  by (simp add: present_bit bit_or_iff)

lemma drop_small: "f < 4096 \<Longrightarrow> drop_bit 12 (f::u64) = 0"
  by (metis diff_self_eq_0 drop_bit_take_bit less_mask_eq mask_12 take_bit_0 take_bit_eq_mask
      small_take_bit [of f 12, simplified])

lemma target_or [simp]: "f < 4096 \<Longrightarrow> target (e OR f) = target e"
  by (simp add: PPN_def drop_small)

text \<open>The permission bits of a page fit the low 12 bits of an entry.\<close>

definition perm_ok :: "u32 \<Rightarrow> bool" where
  "perm_ok perm \<longleftrightarrow> perm < 4096"

lemma power2_12: "(4096 :: 'a::len word) = 2 ^ 12"
  by simp

lemma scast_small: "perm < (4096 :: u32) \<Longrightarrow> (scast perm :: u64) < 4096"
proof -
  assume p: "perm < (4096 :: u32)"
  have "take_bit 12 perm = perm" using p by (metis less_mask_eq take_bit_eq_mask power2_12)
  moreover have "(scast (take_bit 12 perm) :: u64) = take_bit 12 (ucast perm)"
    by (rule bit_word_eqI) (auto simp: bit_simps)
  ultimately show ?thesis using take_bit_less_u64 [of 12 "ucast perm"] by simp
qed

lemma or_small: "(x::u64) < 4096 \<Longrightarrow> y < 4096 \<Longrightarrow> x OR y < 4096"
proof -
  assume "x < 4096" "y < 4096"
  then have "take_bit 12 (x OR y) = x OR y"
    using small_take_bit [of x 12] small_take_bit [of y 12] by (simp add: take_bit_or)
  then show ?thesis using take_bit_less_u64 [of 12 "x OR y"] by simp
qed

lemma and_small: "(x::u32) < 4096 \<Longrightarrow> x AND y < 4096"
  by (metis le_less_trans word_and_le2)

lemma perm_or_small: "perm_ok perm \<Longrightarrow> scast perm OR PTE_P < 4096"
  by (simp add: perm_ok_def or_small scast_small PTE_P_def)

lemma perm_avail_small: "perm_ok perm \<Longrightarrow> (scast (perm AND NOT PTE_AVAIL) :: u64) < 4096"
  by (simp add: perm_ok_def scast_small and_small)

section \<open>Permissions along the path\<close>

text \<open>
  Rewriting the entries along a path by a function that keeps present entries present and
  leaves their target alone; both \<^const>\<open>page_insert\<close> and the extended page tables do this.
\<close>

definition keeps :: "(u64 \<Rightarrow> u64) \<Rightarrow> bool" where
  "keeps g \<longleftrightarrow> (\<forall>e. present e \<longrightarrow> present (g e) \<and> target (g e) = target e)"

definition upd_cell :: "nat \<Rightarrow> u64 \<Rightarrow> (u64 \<Rightarrow> u64) \<Rightarrow> (u64 \<Rightarrow> u64) \<Rightarrow> u64 \<Rightarrow> u64" where
  "upd_cell p i g m = m(slot p i := g (m (slot p i)))"

fun upd_cells :: "(u64 \<Rightarrow> u64) \<Rightarrow> nat \<Rightarrow> u64 list \<Rightarrow> (u64 \<Rightarrow> u64) \<Rightarrow> u64 \<Rightarrow> u64" where
  "upd_cells m p [] g = m"
| "upd_cells m p (i # is) g = upd_cells (upd_cell p i g m) (target (m (slot p i))) is g"

lemma keeps_or: "f < 4096 \<Longrightarrow> keeps (\<lambda>e. e OR f)"
  by (simp add: keeps_def)

lemma upd_cells_present:
  assumes "keeps g" "present (m x)"
  shows "present (upd_cells m p is g x) \<and> target (upd_cells m p is g x) = target (m x)"
  using assms(2)
proof (induction "is" arbitrary: m p)
  case (Cons i "is")
  then have "present (upd_cell p i g m x)" "target (upd_cell p i g m x) = target (m x)"
    using assms(1) by (auto simp: upd_cell_def keeps_def)
  with Cons.IH [of "upd_cell p i g m" "target (m (slot p i))"] show ?case by simp
qed simp

lemma follow_present: "follow m p is = Some t \<Longrightarrow> x \<in> set (path_cells m p is) \<Longrightarrow> present (m x)"
  by (induction m p "is" rule: follow.induct) (auto split: if_splits)

text \<open>Such a rewriting changes no complete translation.\<close>

lemma follow_upd_cells:
  assumes "keeps g" "follow m r js = Some t"
  shows "follow (upd_cells m p is g) r js = Some t"
    "path_cells (upd_cells m p is g) r js = path_cells m r js"
    "path_frames (upd_cells m p is g) r js = path_frames m r js"
proof -
  have "\<forall>x\<in>set (path_cells m r js). present (upd_cells m p is g x) = present (m x) \<and>
      target (upd_cells m p is g x) = target (m x)"
    using upd_cells_present [OF assms(1)] follow_present [OF assms(2)] by blast
  from follow_cong [OF this] assms(2)
  show "follow (upd_cells m p is g) r js = Some t"
    "path_cells (upd_cells m p is g) r js = path_cells m r js"
    "path_frames (upd_cells m p is g) r js = path_frames m r js" by simp_all
qed

lemma upd_cell_tail:
  assumes "keeps g" "follow m p (i # is) = Some t"
  shows "follow (upd_cell p i g m) (target (m (slot p i))) is = Some t"
    "path_cells (upd_cell p i g m) (target (m (slot p i))) is = path_cells m (target (m (slot p i))) is"
    "path_frames (upd_cell p i g m) (target (m (slot p i))) is = path_frames m (target (m (slot p i))) is"
proof -
  have tl: "follow m (target (m (slot p i))) is = Some t"
    using assms(2) by (auto split: if_splits)
  have "upd_cells m p [i] g = upd_cell p i g m" by simp
  with follow_upd_cells [OF assms(1) tl, of p "[i]"]
  show "follow (upd_cell p i g m) (target (m (slot p i))) is = Some t"
    "path_cells (upd_cell p i g m) (target (m (slot p i))) is = path_cells m (target (m (slot p i))) is"
    "path_frames (upd_cell p i g m) (target (m (slot p i))) is = path_frames m (target (m (slot p i))) is"
    by simp_all
qed

lemma upd_cells_frame:
  assumes "keeps g" "follow m p is = Some t" "x \<notin> set (path_cells m p is)"
  shows "upd_cells m p is g x = m x"
  using assms
proof (induction "is" arbitrary: m p)
  case (Cons i "is")
  have pr: "present (m (slot p i))" using Cons.prems(2) by (auto split: if_splits)
  note eq = upd_cell_tail [OF Cons.prems(1,2)]
  have ne: "x \<noteq> slot p i" and off: "x \<notin> set (path_cells m (target (m (slot p i))) is)"
    using Cons.prems(3) pr by auto
  from ne have "upd_cell p i g m x = m x" by (simp add: upd_cell_def)
  with Cons.IH [of "upd_cell p i g m" "target (m (slot p i))"] eq Cons.prems(1) off
  show ?case by simp
qed simp

text \<open>On a path of distinct tables each entry is rewritten once.\<close>

lemma path_cells_frame:
  "x \<in> set (path_cells m p is) \<Longrightarrow> \<exists>q\<in>set (path_frames m p is). \<exists>i\<in>set is. x = slot q i"
  by (induction m p "is" rule: path_cells.induct) (auto split: if_splits)

lemma upd_cells_on:
  assumes "keeps g" "follow m p is = Some t" "distinct (path_frames m p is)"
    "\<forall>q\<in>set (path_frames m p is). q < 2 ^ 27" "\<forall>i\<in>set is. i < 512" "x \<in> set (path_cells m p is)"
  shows "upd_cells m p is g x = g (m x)"
  using assms
proof (induction "is" arbitrary: m p)
  case (Cons i "is")
  have pr: "present (m (slot p i))" using Cons.prems(2) by (auto split: if_splits)
  note eq = upd_cell_tail [OF Cons.prems(1,2)]
  let ?q = "target (m (slot p i))"
  have sub: "slot p i \<notin> set (path_cells m ?q is)"
    using Cons.prems(3-5) pr by (auto simp: slot_inj dest!: path_cells_frame)
  show ?case
  proof (cases "x = slot p i")
    case True
    then have "upd_cells (upd_cell p i g m) ?q is g x = upd_cell p i g m x"
      using upd_cells_frame [OF Cons.prems(1) eq(1)] eq(2) sub by simp
    with True show ?thesis by (simp add: upd_cell_def)
  next
    case False
    then have "x \<in> set (path_cells m ?q is)" using Cons.prems(6) pr by simp
    then have "upd_cells (upd_cell p i g m) ?q is g x = g (upd_cell p i g m x)"
      using Cons.IH [of "upd_cell p i g m" ?q] eq Cons.prems pr by simp
    with False show ?thesis by (simp add: upd_cell_def)
  qed
qed simp

lemma or_path_exec:
  assumes "phys_ok s" "path_ok s root (walk_idx va)" "follow (mem s) root (walk_idx va) = Some t" "f < 4096"
  shows "or_path (page2pa root + KERNBASE) va f s =
    Some (s\<lparr>mem := upd_cells (mem s) root (walk_idx va) (\<lambda>e. e OR f)\<rparr>)"
proof -
  let ?g = "\<lambda>e. e OR f"
  have step: "or_entry (slot p i + KERNBASE) f (s\<lparr>mem := m\<rparr>) = Some (s\<lparr>mem := upd_cell p i ?g m\<rparr>)"
    "load64 (s\<lparr>mem := upd_cell p i ?g m\<rparr>) (slot p i + KERNBASE) = Some (m (slot p i) OR f)"
    if "p < npages s" "i < 512" for p i m
    using that assms(1) by (simp_all add: or_entry_def load64_slot store64_slot phys_ok_def upd_cell_def)
  have ka: "KADDR (s\<lparr>mem := m\<rparr>) (PTE_ADDR (e OR f)) = Some (page2pa (target e) + KERNBASE)"
    if "target e < npages s" for e m
    using that assms(1,4) by (subst KADDR_PTE_ADDR) (simp_all add: phys_ok_def)
  let ?q = "target (mem s (slot root (PML4 va)))"
  let ?r = "target (mem s (slot ?q (PDPE va)))"
  have b: "root < npages s" "?q < npages s" "?r < npages s"
    using assms(2,3) by (auto simp: path_ok_def walk_idx_def split: if_splits)
  let ?m1 = "upd_cell root (PML4 va) ?g (mem s)"
  have r: "target (?m1 (slot ?q (PDPE va))) = ?r"
    using assms(4) by (auto simp: upd_cell_def)
  show ?thesis
    using b assms(4) step(1) [of root "PML4 va" "mem s"] r
    by (simp add: or_path_def entry_page step ka walk_idx_def)
qed

section \<open>Complete translations\<close>

definition translate :: "(u64 \<Rightarrow> u64) \<Rightarrow> nat \<Rightarrow> u64 \<Rightarrow> nat option" where
  "translate m root va = follow m root (walk_idx va @ [PTX va])"

lemma follow_append: "follow m p (is @ js) = Option.bind (follow m p is) (\<lambda>t. follow m t js)"
  by (induction m p "is" rule: follow.induct) auto

lemma translate_leaf:
  "translate m root va = (case follow m root (walk_idx va) of None \<Rightarrow> None
     | Some t \<Rightarrow> if present (m (slot t (PTX va))) then Some (target (m (slot t (PTX va)))) else None)"
  by (simp add: translate_def follow_append split: option.split)

lemma path_cells_append:
  "follow m p is = Some t \<Longrightarrow> path_cells m p (is @ js) = path_cells m p is @ path_cells m t js"
  by (induction m p "is" rule: follow.induct) (auto split: if_splits)

text \<open>On a path of distinct tables the last table holds none of the entries of the path.\<close>

lemma leaf_off_path:
  assumes "follow m p is = Some t" "distinct (path_frames m p is)" "\<forall>q\<in>set (path_frames m p is). q < 2 ^ 27"
    "\<forall>i\<in>set is. i < 512" "j < 512"
  shows "slot t j \<notin> set (path_cells m p is)"
  using assms
proof (induction m p "is" rule: follow.induct)
  case (2 m p i "is")
  from 2 have pr: "present (m (slot p i))" by (auto split: if_splits)
  with 2 have "t \<in> set (path_frames m (target (m (slot p i))) is)"
    by (auto intro: follow_path)
  with 2 pr have "slot t j \<noteq> slot p i" by (auto simp: slot_inj)
  with 2 pr show ?case by auto
qed simp

lemma follow_leaf_upd:
  assumes "slot t j \<notin> set (path_cells m p is)"
  shows "follow (m(slot t j := v)) p is = follow m p is"
    "path_cells (m(slot t j := v)) p is = path_cells m p is"
    "path_frames (m(slot t j := v)) p is = path_frames m p is"
  using assms by (intro follow_cong; auto)+

definition flushed :: "u64 \<Rightarrow> u64 \<Rightarrow> kernel \<Rightarrow> kernel" where
  "flushed pml4e va s =
     (if (case curenv s of None \<Rightarrow> True | Some e \<Rightarrow> env_pml4e (envs s e) = pml4e)
      then s\<lparr>invlpg_log := va # invlpg_log s\<rparr> else s)"

lemma tlb_invalidate_exec: "pml4e \<noteq> 0 \<Longrightarrow> tlb_invalidate pml4e va s = Some (flushed pml4e va s)"
  by (simp add: tlb_invalidate_def flushed_def)

lemma flushed_simps [simp]:
  "mem (flushed b va s) = mem s" "pages (flushed b va s) = pages s" "npages (flushed b va s) = npages s"
  "page_free_list (flushed b va s) = page_free_list s" "phys_ok (flushed b va s) = phys_ok s"
  "alloc_wf (flushed b va s) fl = alloc_wf s fl"
  by (simp_all add: flushed_def phys_ok_def alloc_wf_def split: option.split)

lemma flushed_mem: "flushed b va (s\<lparr>mem := m\<rparr>) = (flushed b va s)\<lparr>mem := m\<rparr>"
  by (simp add: flushed_def curenv_def thiscpu_def split: option.split)

definition lookup_ok :: "kernel \<Rightarrow> nat \<Rightarrow> u64 \<Rightarrow> bool" where
  "lookup_ok s root va \<longleftrightarrow> phys_ok s \<and> path_ok s root (walk_idx va) \<and>
     (\<forall>p. translate (mem s) root va = Some p \<longrightarrow> p < npages s)"

definition leaf_addr :: "(u64 \<Rightarrow> u64) \<Rightarrow> nat \<Rightarrow> u64 \<Rightarrow> u64" where
  "leaf_addr m root va = slot (the (follow m root (walk_idx va))) (PTX va)"

lemma lookup_ok_root: "lookup_ok s root va \<Longrightarrow> page2pa root + KERNBASE \<noteq> 0"
  using table_ptr_nonzero(2) [of root 0] phys_ok_frame [of s root]
  by (auto simp: lookup_ok_def path_ok_def)

lemma follow_bound: "path_ok s p is \<Longrightarrow> follow (mem s) p is = Some t \<Longrightarrow> t < npages s"
  by (auto simp: path_ok_def dest: follow_path)

lemma page_lookup_exec:
  assumes "lookup_ok s root va"
  shows "page_lookup (page2pa root + KERNBASE) va s =
    Some (map_option (\<lambda>p. (p, leaf_addr (mem s) root va + KERNBASE)) (translate (mem s) root va), s)"
proof -
  have ph: "phys_ok s" and ok: "path_ok s root (walk_idx va)" using assms by (auto simp: lookup_ok_def)
  note w = pml4w.lookup [OF ph ok] lookup_ok_root [OF assms]
  show ?thesis
  proof (cases "follow (mem s) root (walk_idx va)")
    case None
    with w show ?thesis by (simp add: page_lookup_def leaf_ptr_def translate_leaf)
  next
    case (Some t)
    have t: "t < npages s" using follow_bound [OF ok Some] .
    then have nz: "slot t (PTX va) + KERNBASE \<noteq> 0"
      using phys_ok_frame [OF ph] by (intro table_ptr_nonzero) auto
    have "present (mem s (slot t (PTX va))) \<longrightarrow> target (mem s (slot t (PTX va))) < npages s"
      using assms Some by (simp add: lookup_ok_def translate_leaf)
    with w Some t nz ph show ?thesis
      by (simp add: page_lookup_def leaf_ptr_def translate_leaf load64_slot leaf_addr_def
          pa2page_PTE_ADDR) (auto simp: pa2page_def not_le)
  qed
qed

lemma page_remove_exec:
  assumes "lookup_ok s root va"
  shows "page_remove (page2pa root + KERNBASE) va s = Some (case translate (mem s) root va of
      None \<Rightarrow> s
    | Some p \<Rightarrow> (page_decref p (flushed (page2pa root + KERNBASE) va s))
                 \<lparr>mem := (mem s)(leaf_addr (mem s) root va := 0)\<rparr>)"
proof (cases "translate (mem s) root va")
  case None
  then show ?thesis by (simp add: page_remove_def page_lookup_exec [OF assms])
next
  case (Some p)
  then obtain t where t: "follow (mem s) root (walk_idx va) = Some t" "t < npages s"
    using assms by (auto simp: translate_leaf lookup_ok_def dest: follow_bound split: option.splits)
  let ?d = "page_decref p (flushed (page2pa root + KERNBASE) va s)"
  have "phys_ok ?d" using assms by (simp add: lookup_ok_def phys_ok_def)
  then have "store64 (slot t (PTX va) + KERNBASE) 0 ?d = Some (?d\<lparr>mem := (mem ?d)(slot t (PTX va) := 0)\<rparr>)"
    using t by (intro store64_slot) simp_all
  then show ?thesis
    using Some t lookup_ok_root [OF assms]
    by (simp add: page_remove_def page_lookup_exec [OF assms] tlb_invalidate_exec leaf_addr_def)
qed

section \<open>Insertion\<close>

definition insert_ready :: "kernel \<Rightarrow> nat list \<Rightarrow> nat \<Rightarrow> u64 \<Rightarrow> bool" where
  "insert_ready s fl root va \<longleftrightarrow> walk_ready s fl root (walk_idx va) \<and>
     distinct (path_frames (mem s) root (walk_idx va)) \<and>
     (\<forall>p. translate (mem s) root va = Some p \<longrightarrow> p < npages s)"

text \<open>The tables after the walk and the permission update of \<^const>\<open>page_insert\<close>.\<close>

lemma insert_tables:
  assumes rd: "insert_ready s fl root va" and g: "grow (mem s) fl root (walk_idx va) = (m', fl', Some t)"
    and f: "keeps h"
  defines "m2 \<equiv> upd_cells m' root (walk_idx va) h"
  shows "follow m2 root (walk_idx va) = Some t" "t < npages s"
    "path_ok (claimed fl fl' m s) root (walk_idx va) \<longleftrightarrow> (\<forall>q\<in>set (path_frames m root (walk_idx va)). q < npages s)"
    "\<forall>q\<in>set (path_frames m2 root (walk_idx va)). q < npages s"
    "slot t (PTX va) \<notin> set (path_cells m2 root (walk_idx va))"
    "translate m2 root va = translate (mem s) root va"
    "follow m' root (walk_idx va) = Some t"
    "\<forall>q\<in>set (path_frames m' root (walk_idx va)). q < npages s"
proof -
  have wr: "walk_ready s fl root (walk_idx va)" and wf: "alloc_wf s fl" and ph: "phys_ok s"
    using rd by (auto simp: insert_ready_def walk_ready_def alloc_wf_def)
  have wp: "walk_pre (mem s) fl root (walk_idx va)"
    using wr phys_ok_frame [OF ph] alloc_wf_frame [OF wf] alloc_wf_distinct [OF wf]
    by (auto simp: walk_ready_def walk_pre_def path_ok_def walk_idx_def)
  note gf = grow_follow [OF g wp]
  show fo: "follow m' root (walk_idx va) = Some t" using gf by simp
  have d: "distinct (path_frames m' root (walk_idx va))" using gf rd by (simp add: insert_ready_def)
  show b: "\<forall>q\<in>set (path_frames m' root (walk_idx va)). q < npages s"
    using gf wr alloc_wf_npages [OF wf] by (auto simp: walk_ready_def path_ok_def)
  then show tn: "t < npages s" using fo by (auto dest: follow_path)
  note eq = follow_upd_cells [OF f fo, of root "walk_idx va", folded m2_def]
  show "follow m2 root (walk_idx va) = Some t" using eq(1) .
  show "path_ok (claimed fl fl' m s) root (walk_idx va) \<longleftrightarrow>
      (\<forall>q\<in>set (path_frames m root (walk_idx va)). q < npages s)" by (simp add: path_ok_def)
  show "\<forall>q\<in>set (path_frames m2 root (walk_idx va)). q < npages s" using eq(3) b by simp
  have off: "slot t (PTX va) \<notin> set (path_cells m' root (walk_idx va))"
    using b phys_ok_frame [OF ph] by (intro leaf_off_path [OF fo d]) (auto simp: walk_idx_def)
  then show "slot t (PTX va) \<notin> set (path_cells m2 root (walk_idx va))" using eq(2) by simp
  have leaf: "m2 (slot t (PTX va)) = m' (slot t (PTX va))"
    using upd_cells_frame [OF f fo off] by (simp add: m2_def)
  show "translate m2 root va = translate (mem s) root va"
  proof (cases "missing (mem s) root (walk_idx va) = 0")
    case True
    with g have "m' = mem s" by (simp add: grow_none_missing)
    with eq(1) fo leaf show ?thesis by (simp add: translate_leaf)
  next
    case False
    then have "follow (mem s) root (walk_idx va) = None"
      using follow_missing [of "mem s" root "walk_idx va"] by auto
    moreover have "m' (slot t (PTX va)) = 0" using grow_fresh_leaf [OF g wp False] by simp
    ultimately show ?thesis using eq(1) leaf by (simp add: translate_leaf)
  qed
qed

definition inserted :: "u64 \<Rightarrow> nat \<Rightarrow> u64 \<Rightarrow> nat option \<Rightarrow> kernel \<Rightarrow> kernel" where
  \<comment> \<open>reference counts and TLB after mapping \<open>pp\<close> where \<open>old\<close> was mapped\<close>
  "inserted b pp va old c =
     (if old = Some pp then flushed b va c
      else flushed b va (page_incref pp
             (case old of None \<Rightarrow> c | Some q \<Rightarrow> page_decref q (flushed b va c))))"

lemma page_insert_exec:
  assumes rd: "insert_ready s fl root va" and g: "grow (mem s) fl root (walk_idx va) = (m', fl', Some t)"
    and pp: "pp < npages s" and perm: "perm_ok perm"
  defines "b \<equiv> page2pa root + KERNBASE"
    and "m2 \<equiv> upd_cells m' root (walk_idx va) (\<lambda>e. e OR scast (perm AND NOT PTE_AVAIL))"
  shows "page_insert b (Some pp) va perm s = Some (0,
    (inserted b pp va (translate (mem s) root va) (claimed fl fl' m2 s))
      \<lparr>mem := m2(slot t (PTX va) := page2pa pp OR scast perm OR PTE_P)\<rparr>)"
proof -
  let ?leaf = "slot t (PTX va)" and ?c = "claimed fl fl' m2 s" and ?v = "page2pa pp OR scast perm OR PTE_P"
  have wr: "walk_ready s fl root (walk_idx va)" and ph: "phys_ok s"
    using rd by (auto simp: insert_ready_def walk_ready_def alloc_wf_def)
  note f = perm_avail_small [OF perm]
  note it = insert_tables [OF rd g keeps_or [OF f], folded m2_def]
  have rootn: "root < npages s" "root < 2 ^ 27"
    using it(4) phys_ok_frame [OF ph] by auto
  have b0: "b \<noteq> 0" using rootn(2) table_ptr_nonzero [of root 0] by (simp add: b_def)
  have walk: "pml4e_walk b va True s = Some (?leaf + KERNBASE, claimed fl fl' m' s)"
    using pml4w.create [OF wr g] by (simp add: b_def leaf_ptr_def)
  have orp: "or_path b va (scast (perm AND NOT PTE_AVAIL)) (claimed fl fl' m' s) = Some ?c"
    using or_path_exec [of "claimed fl fl' m' s" root va t] it f ph
    by (simp add: b_def m2_def path_ok_def)
  have lz: "?leaf + KERNBASE \<noteq> 0" using it(2) phys_ok_frame [OF ph] by (intro table_ptr_nonzero) auto
  have ld: "load64 ?c (?leaf + KERNBASE) = Some (m2 ?leaf)"
    using it(2) ph by (subst load64_slot) simp_all
  have st: "store64 (?leaf + KERNBASE) v x = Some (x\<lparr>mem := (mem x)(?leaf := v)\<rparr>)"
    if "npages x = npages s" for v x
    using it(2) ph that by (intro store64_slot) (simp_all add: phys_ok_def)
  have tr: "translate (mem s) root va = (if present (m2 ?leaf) then Some (target (m2 ?leaf)) else None)"
    using it(1,6) by (simp add: translate_leaf)
  have same: "page2pa pp = PTE_ADDR (m2 ?leaf) \<longleftrightarrow> pp = target (m2 ?leaf)"
    using phys_ok_frame [OF ph pp] PPN_less [of "m2 ?leaf"] by (simp add: PTE_ADDR_page2pa)
  have rm: "page_remove b va ?c = Some ((page_decref (target (m2 ?leaf)) (flushed b va ?c))\<lparr>mem := m2(?leaf := 0)\<rparr>)"
    if pr: "present (m2 ?leaf)"
  proof -
    have "lookup_ok ?c root va"
      using it rd ph tr pr by (auto simp: lookup_ok_def insert_ready_def)
    from page_remove_exec [OF this] it(1,6) tr pr show ?thesis
      by (simp add: b_def leaf_addr_def)
  qed
  show ?thesis
  proof (cases "present (m2 ?leaf)")
    case False
    then show ?thesis
      using b0 lz tr by (simp add: page_insert_def walk orp ld st tlb_invalidate_exec inserted_def page_incref_mem flushed_mem)
  next
    case True
    show ?thesis
    proof (cases "pp = target (m2 ?leaf)")
      case same': True
      then have "PTE_ADDR (m2 ?leaf) = page2pa pp" using same by simp
      with same' True show ?thesis
        using b0 lz tr by (simp add: page_insert_def walk orp ld st tlb_invalidate_exec inserted_def flip: flushed_mem)
    next
      case False
      with True same show ?thesis
        using b0 lz tr rm
        by (simp add: page_insert_def walk orp ld st tlb_invalidate_exec inserted_def page_incref_mem flushed_mem)
    qed
  qed
qed

lemma page_decref_ref:
  "pp_ref (pages (page_decref p s) x) = (if x = p then pp_ref (pages s p) - 1 else pp_ref (pages s x))"
  by (auto simp: page_decref_def page_free_def upd_page_def Let_def)

lemma inserted_ref:
  "pp_ref (pages (inserted b pp va old c) x) =
     (if old = Some pp then pp_ref (pages c x)
      else pp_ref (pages c x) + of_bool (x = pp) - of_bool (old = Some x))"
  by (auto simp: inserted_def page_incref_def upd_page_def page_decref_ref split: option.split)

lemma inserted_npages [simp]: "npages (inserted b pp va old c) = npages c"
  by (auto simp: inserted_def split: option.split)

lemma insert_grow:
  assumes "insert_ready s fl root va" "missing (mem s) root (walk_idx va) \<le> length fl"
  obtains m' t where
    "grow (mem s) fl root (walk_idx va) = (m', drop (missing (mem s) root (walk_idx va)) fl, Some t)"
    "walk_pre (mem s) fl root (walk_idx va)"
proof -
  have wp: "walk_pre (mem s) fl root (walk_idx va)"
    using assms(1) by (intro walk_ready_pre) (simp add: insert_ready_def)
  obtain m' fl' r where g: "grow (mem s) fl root (walk_idx va) = (m', fl', r)"
    by (cases "grow (mem s) fl root (walk_idx va)") auto
  from grow_success [OF this] wp assms(2) obtain t where "r = Some t"
    "fl' = drop (missing (mem s) root (walk_idx va)) fl"
    unfolding walk_pre_def by auto
  with g wp that show thesis by blast
qed

text \<open>
  C6. Mapping a page and looking the address up again: when there are enough free pages for
  the missing tables, \<^verbatim>\<open>page_insert\<close> returns 0, the address then translates to the page, with
  exactly the permissions \<^verbatim>\<open>perm|PTE_P\<close> in the entry, and \<^verbatim>\<open>page_lookup\<close> returns the page and
  the address of its entry. This holds whether the address was unmapped, mapped to another
  page, or mapped to the same page.
\<close>

theorem page_insert_lookup:
  assumes rd: "insert_ready s fl root va" and k: "missing (mem s) root (walk_idx va) \<le> length fl"
    and pp: "pp < npages s" and perm: "perm_ok perm"
  shows "\<exists>s' pte. page_insert (page2pa root + KERNBASE) (Some pp) va perm s = Some (0, s') \<and>
    translate (mem s') root va = Some pp \<and>
    page_lookup (page2pa root + KERNBASE) va s' = Some (Some (pp, pte), s') \<and>
    load64 s' pte = Some (page2pa pp OR scast perm OR PTE_P)"
proof -
  have ph: "phys_ok s" using rd by (auto simp: insert_ready_def walk_ready_def alloc_wf_def)
  obtain m' t fl' where g: "grow (mem s) fl root (walk_idx va) = (m', fl', Some t)"
    using insert_grow [OF rd k] by metis
  let ?m2 = "upd_cells m' root (walk_idx va) (\<lambda>e. e OR scast (perm AND NOT PTE_AVAIL))"
  let ?v = "page2pa pp OR scast perm OR PTE_P" and ?leaf = "slot t (PTX va)"
  let ?s' = "(inserted (page2pa root + KERNBASE) pp va (translate (mem s) root va) (claimed fl fl' ?m2 s))
      \<lparr>mem := ?m2(?leaf := ?v)\<rparr>"
  note it = insert_tables [OF rd g keeps_or [OF perm_avail_small [OF perm]]]
  note up = follow_leaf_upd [OF it(5), of ?v]
  have v: "present ?v" "target ?v = pp"
    using phys_ok_frame [OF ph pp] perm_or_small [OF perm]
    by (simp_all add: present_bit bit_or_iff PPN_or_flags unat_of_nat) (simp add: PTE_P_def)
  have fo: "follow (mem ?s') root (walk_idx va) = Some t" using up(1) it(1) by simp
  have tr: "translate (mem ?s') root va = Some pp" using fo v by (simp add: translate_leaf)
  have lk: "lookup_ok ?s' root va"
    using tr up(3) it(4) pp ph by (simp add: lookup_ok_def path_ok_def phys_ok_def)
  have "load64 ?s' (?leaf + KERNBASE) = Some ?v"
    using it(2) ph by (subst load64_slot) (simp_all add: phys_ok_def)
  then show ?thesis
    using page_insert_exec [OF rd g pp perm] tr page_lookup_exec [OF lk] fo
    by (simp add: leaf_addr_def)
qed

lemma small_kernel_insert_ready: "insert_ready small_kernel [2, 3, 4, 5] 1 va"
  using small_kernel_ready [of va] by (simp add: insert_ready_def walk_idx_def translate_def)

theorem page_insert_lookup_witness:
  "\<exists>s' pte. page_insert (page2pa 1 + KERNBASE) (Some 6) 0x800000 6 small_kernel = Some (0, s') \<and>
     page_lookup (page2pa 1 + KERNBASE) 0x800000 s' = Some (Some (6, pte), s')"
  using page_insert_lookup [OF small_kernel_insert_ready, of "0x800000" 6 6]
  unfolding small_kernel_missing by (auto simp: perm_ok_def)

text \<open>
  C28. Reference counts of an insertion. The new tables get count one. If the address was mapped
  to the page already, its count does not change; otherwise the page gains one reference and
  the page that was mapped there, if any, loses one. All other counts stay.
\<close>

theorem page_insert_refs:
  assumes rd: "insert_ready s fl root va" and pp: "pp < npages s" "pp \<notin> set fl" and perm: "perm_ok perm"
    and old: "\<forall>q. translate (mem s) root va = Some q \<longrightarrow> q \<notin> set fl"
  defines "k \<equiv> missing (mem s) root (walk_idx va)"
  assumes k: "k \<le> length fl"
  shows "\<exists>s'. page_insert (page2pa root + KERNBASE) (Some pp) va perm s = Some (0, s') \<and>
    (\<forall>x. pp_ref (pages s' x) =
       (if x \<in> set (take k fl) then 1
        else if translate (mem s) root va = Some pp then pp_ref (pages s x)
        else pp_ref (pages s x) + of_bool (x = pp) - of_bool (translate (mem s) root va = Some x)))"
proof -
  obtain m' t where g: "grow (mem s) fl root (walk_idx va) = (m', drop k fl, Some t)"
    using insert_grow [OF rd] k k_def by metis
  have d: "distinct fl" using rd by (auto simp: insert_ready_def walk_ready_def dest: alloc_wf_distinct)
  have sd: "set fl - set (drop k fl) = set (take k fl)"
    using d append_take_drop_id [of k fl]
    by (metis Diff_cancel Diff_triv Un_Diff Un_empty_right distinct_append set_append)
  show ?thesis
    using page_insert_exec [OF rd g pp(1) perm] pp(2) old sd
    by (auto simp: inserted_ref claimed_def dest: in_set_takeD)
qed

theorem page_insert_refs_witness:
  "\<exists>s'. page_insert (page2pa 1 + KERNBASE) (Some 6) 0x800000 6 small_kernel = Some (0, s') \<and>
     pp_ref (pages s' 6) = 1 \<and> pp_ref (pages s' 4) = 1 \<and> pp_ref (pages s' 5) = 0"
proof -
  have tr: "translate (mem small_kernel) 1 0x800000 = None" by (simp add: walk_idx_def translate_def)
  obtain s' where s': "page_insert (page2pa 1 + KERNBASE) (Some 6) 0x800000 6 small_kernel = Some (0, s')"
    "\<forall>x. pp_ref (pages s' x) = (if x \<in> {2, 3, 4} then 1
       else pp_ref (pages small_kernel x) + of_bool (x = 6))"
    using page_insert_refs [OF small_kernel_insert_ready, of 6 6 "0x800000"]
    unfolding small_kernel_missing tr by (auto simp: perm_ok_def)
  from s'(2) have "pp_ref (pages s' 6) = 1" "pp_ref (pages s' 4) = 1" "pp_ref (pages s' 5) = 0"
    by simp_all
  with s'(1) show ?thesis by blast
qed


text \<open>Sixteen pages, with page 11 mapped at address 0 through the tables 1, 8, 9 and 10.\<close>

definition mapped_kernel :: kernel where
  "mapped_kernel = small_kernel\<lparr>npages := 16,
     pages := (pages small_kernel)(11 := \<lparr>pp_link = None, pp_ref = 1\<rparr>),
     mem := (\<lambda>_. 0)(0x1000 := 0x8007, 0x8000 := 0x9007, 0x9000 := 0xA007, 0xA000 := 0xB007)\<rparr>"

lemma idx_0: "walk_idx 0 = [0, 0, 0]" "PTX 0 = 0"
  by (simp_all add: walk_idx_def PML4_def PDPE_def PDX_def PTX_def)

lemma mapped_kernel_follow:
  "path_frames (mem mapped_kernel) 1 (walk_idx 0) = [1, 8, 9, 10]"
  "follow (mem mapped_kernel) 1 (walk_idx 0) = Some 10"
  "translate (mem mapped_kernel) 1 0 = Some 11"
  by (simp_all add: mapped_kernel_def translate_def idx_0 slot_def page2pa_def PPN_def PTE_P_def)

lemma mapped_kernel_wf: "alloc_wf mapped_kernel [2, 3, 4, 5]"
  using small_kernel_wf
  by (simp add: alloc_wf_def mapped_kernel_def phys_ok_def kern_mem_max_eq) (simp add: small_kernel_def)

lemma mapped_kernel_pages [simp]:
  "npages mapped_kernel = 16" "pages mapped_kernel 11 = \<lparr>pp_link = None, pp_ref = 1\<rparr>"
  by (simp_all add: mapped_kernel_def)

lemma mapped_kernel_lookup: "lookup_ok mapped_kernel 1 0"
  using mapped_kernel_wf mapped_kernel_follow
  by (simp add: lookup_ok_def path_ok_def)


section \<open>User pointers\<close>

text \<open>A user address is accessible when its entry exists and has all the permission bits.\<close>

definition user_ok :: "(u64 \<Rightarrow> u64) \<Rightarrow> nat \<Rightarrow> u32 \<Rightarrow> u64 \<Rightarrow> bool" where
  "user_ok m root perm a \<longleftrightarrow> (case follow m root (walk_idx a) of None \<Rightarrow> False
     | Some t \<Rightarrow> m (slot t (PTX a)) AND (scast perm OR PTE_P) = scast perm OR PTE_P)"

lemma same_page_idx:
  assumes "drop_bit 12 a = drop_bit 12 b"
  shows "walk_idx a = walk_idx b" "PTX a = PTX b"
proof -
  have "drop_bit (n + 12) a = drop_bit (n + 12) b" for n
    using assms by (simp flip: drop_bit_drop_bit)
  from this [of 27] this [of 18] this [of 9] assms show "walk_idx a = walk_idx b" "PTX a = PTX b"
    by (simp_all add: walk_idx_def idx_bits)
qed

lemma next_page:
  assumes "va < ULIM"
  shows "unat (ROUNDUP (va + 1) PGSIZE) = (unat va div 4096 + 1) * 4096"
proof -
  have v: "unat va < 2 ^ 40" using assms by (simp add: const_defs word_less_nat_alt)
  have "va + 1 + PGSIZE - 1 = va + 4096" by (simp add: PGSIZE_def)
  then have e: "ROUNDUP (va + 1) PGSIZE = ROUNDDOWN (va + 4096) 4096" by (simp add: ROUNDUP_def PGSIZE_def add.commute)
  have u: "unat (va + 4096) = unat va + 4096" "unat (4096 :: u64) = 4096"
    using v by (simp_all add: unat_word_ariths)
  have "(unat va + 4096) div 4096 = unat va div 4096 + 1" by simp
  then show ?thesis
    unfolding e by (simp only: unat_ROUNDDOWN minus_mod_eq_mult_div u mult.commute)
qed

text \<open>The addresses from \<open>va\<close> to the next page boundary lie on the page of \<open>va\<close>.\<close>

lemma user_ok_page:
  assumes "va < ULIM" "va \<le> x" "x < ROUNDUP (va + 1) PGSIZE"
  shows "user_ok m root perm x = user_ok m root perm va"
proof -
  have "unat va div 4096 = unat x div 4096"
  proof (rule antisym)
    show "unat va div 4096 \<le> unat x div 4096" using assms(2) by (simp add: word_le_nat_alt div_le_mono)
    have "unat x < (unat va div 4096 + 1) * 4096"
      using assms(3) next_page [OF assms(1)] by (simp add: word_less_nat_alt)
    then show "unat x div 4096 \<le> unat va div 4096" by (simp add: less_mult_imp_div_less)
  qed
  then have "drop_bit 12 x = drop_bit 12 va"
    by (simp add: word_unat_eq_iff drop_bit_eq_div unat_div)
  from same_page_idx [OF this] show ?thesis by (simp add: user_ok_def split: option.split)
qed

definition paths_ok :: "kernel \<Rightarrow> nat \<Rightarrow> bool" where
  "paths_ok s root \<longleftrightarrow> phys_ok s \<and> (\<forall>a. path_ok s root (walk_idx a))"

lemma user_mem_check_loop_step:
  assumes "paths_ok s root" "va < endva"
  shows "user_mem_check_loop (page2pa root + KERNBASE) va endva perm s =
    (if user_ok (mem s) root perm va
     then user_mem_check_loop (page2pa root + KERNBASE) (ROUNDUP (va + 1) PGSIZE) endva perm s
     else Some (- E_FAULT, s\<lparr>user_mem_check_addr := va\<rparr>))"
proof -
  have ph: "phys_ok s" and ok: "path_ok s root (walk_idx va)" using assms by (auto simp: paths_ok_def)
  note w = pml4w.lookup [OF ph ok]
  show ?thesis
  proof (cases "follow (mem s) root (walk_idx va)")
    case None
    with w assms(2) show ?thesis
      by (subst user_mem_check_loop.simps) (simp add: leaf_ptr_def user_ok_def)
  next
    case (Some t)
    have t: "t < npages s" using follow_bound [OF ok Some] .
    then have "slot t (PTX va) + KERNBASE \<noteq> 0"
      using phys_ok_frame [OF ph] by (intro table_ptr_nonzero) auto
    with w Some t ph assms(2) show ?thesis
      by (subst user_mem_check_loop.simps) (simp add: leaf_ptr_def user_ok_def load64_slot)
  qed
qed

text \<open>The outcome of a check of \<open>[va, endva)\<close>: success, or the first address not accessible.\<close>

definition range_verdict :: "kernel \<Rightarrow> nat \<Rightarrow> u32 \<Rightarrow> u64 \<Rightarrow> u64 \<Rightarrow> int \<Rightarrow> kernel \<Rightarrow> bool" where
  "range_verdict s root perm va endva r s' \<longleftrightarrow>
     (if \<forall>a. va \<le> a \<and> a < endva \<longrightarrow> user_ok (mem s) root perm a then r = 0 \<and> s' = s
      else r = - E_FAULT \<and> (\<exists>a. va \<le> a \<and> a < endva \<and> \<not> user_ok (mem s) root perm a \<and>
             (\<forall>x. va \<le> x \<and> x < a \<longrightarrow> user_ok (mem s) root perm x) \<and>
             s' = s\<lparr>user_mem_check_addr := a\<rparr>))"

lemma user_mem_check_loop_exec:
  assumes "paths_ok s root" "endva < ULIM"
  shows "\<exists>r s'. user_mem_check_loop (page2pa root + KERNBASE) va endva perm s = Some (r, s') \<and>
    range_verdict s root perm va endva r s'"
proof (induction "unat endva - unat va" arbitrary: va rule: less_induct)
  case less
  let ?next = "ROUNDUP (va + 1) PGSIZE"
  show ?case
  proof (cases "va < endva")
    case False
    then have "\<forall>a. \<not> (va \<le> a \<and> a < endva)" by auto
    with False show ?thesis
      by (subst user_mem_check_loop.simps) (auto simp: range_verdict_def)
  next
    case True
    then have va: "va < ULIM" using assms(2) by simp
    note st = user_mem_check_loop_step [OF assms(1) True, of perm]
    show ?thesis
    proof (cases "user_ok (mem s) root perm va")
      case False
      with True have "range_verdict s root perm va endva (- E_FAULT) (s\<lparr>user_mem_check_addr := va\<rparr>)"
        unfolding range_verdict_def by (auto intro!: exI [of _ va])
      with False show ?thesis by (simp add: st)
    next
      case ok: True
      have n: "unat va < unat ?next"
        using next_page [OF va] by (simp add: dividend_less_div_times)
      with True have "unat endva - unat ?next < unat endva - unat va"
        by (simp add: word_less_nat_alt)
      from less [OF this] obtain r s' where
        r: "user_mem_check_loop (page2pa root + KERNBASE) ?next endva perm s = Some (r, s')"
        "range_verdict s root perm ?next endva r s'" by blast
      have pg: "user_ok (mem s) root perm x" if "va \<le> x" "x < ?next" for x
        using user_ok_page [OF va that] ok by simp
      have up: "va \<le> ?next" using n by (simp add: word_le_nat_alt)
      have "range_verdict s root perm va endva r s'"
      proof (cases "\<forall>a. ?next \<le> a \<and> a < endva \<longrightarrow> user_ok (mem s) root perm a")
        case True
        with r(2) have "r = 0" "s' = s" by (simp_all add: range_verdict_def)
        moreover have "\<forall>a. va \<le> a \<and> a < endva \<longrightarrow> user_ok (mem s) root perm a"
          using True pg by (metis linorder_not_le)
        ultimately show ?thesis by (simp add: range_verdict_def)
      next
        case False
        with r(2) obtain a where a: "?next \<le> a" "a < endva" "\<not> user_ok (mem s) root perm a"
          "\<forall>x. ?next \<le> x \<and> x < a \<longrightarrow> user_ok (mem s) root perm x" "r = - E_FAULT"
          "s' = s\<lparr>user_mem_check_addr := a\<rparr>"
          unfolding range_verdict_def by auto
        moreover have "\<forall>x. va \<le> x \<and> x < a \<longrightarrow> user_ok (mem s) root perm x"
          using a(4) pg by (metis linorder_not_le)
        moreover have "va \<le> a" using a(1) up by simp
        ultimately show ?thesis unfolding range_verdict_def by auto
      qed
      with ok r(1) show ?thesis by (simp add: st)
    qed
  qed
qed


lemma mapped_kernel_mem:
  "mem mapped_kernel = (\<lambda>_. 0)(slot 1 0 := page2pa 8 OR 7, slot 8 0 := page2pa 9 OR 7,
     slot 9 0 := page2pa 10 OR 7, slot 10 0 := page2pa 11 OR 7)"
  by (simp add: slot_def page2pa_def mapped_kernel_def)

lemma mapped_kernel_paths: "paths_ok mapped_kernel 1"
proof -
  have cell: "mem mapped_kernel (slot p i) =
      (if i = 0 then (if p = 1 then page2pa 8 OR 7 else if p = 8 then page2pa 9 OR 7 else page2pa 10 OR 7) else 0)"
    if "p = 1 \<or> p = 8 \<or> p = 9" "i < 512" for p i
    using that by (auto simp: mapped_kernel_mem slot_inj)
  have "path_ok mapped_kernel 1 [i, j, k]" if "i < 512" "j < 512" "k < 512" for i j k
    using that by (simp add: path_ok_def cell PPN_page2pa)
  then show ?thesis using mapped_kernel_wf by (simp add: paths_ok_def walk_idx_def)
qed

definition mapped_user :: kernel where
  "mapped_user = mapped_kernel\<lparr>envs := (\<lambda>_. zero_env\<lparr>env_pml4e := page2pa 1 + KERNBASE\<rparr>)\<rparr>"


end
