(* ===== verification/Ept.thy ===== *)
theory Ept
  imports Page_Map
begin

text \<open>
  The extended page tables of a guest, \<^verbatim>\<open>vmm/ept.c\<close>: lookup of a guest physical address,
  insertion of a page, translation to host addresses, static allocation of guest memory and
  its release. The walk is the one of \<^verbatim>\<open>kern/pmap.c\<close>; entries count as present when one of the
  three access bits is set.
\<close>

section \<open>Operations\<close>

definition epte_addr :: "u64 \<Rightarrow> u64" where
  "epte_addr epte = epte AND EPTE_ADDR"

definition epte_page_vaddr :: "kernel \<Rightarrow> u64 \<Rightarrow> u64 may_panic" where
  "epte_page_vaddr s epte = KADDR s (epte_addr epte)"

definition epte_flags :: "u64 \<Rightarrow> u64" where
  "epte_flags epte = epte AND EPTE_FLAGS"

definition epte_present :: "u64 \<Rightarrow> bool" where
  "epte_present epte \<longleftrightarrow> epte AND scast EPTE_FULL > 0"

text \<open>
  The permission update of \<^verbatim>\<open>ept_lookup_gpa\<close>: the pointer \<^verbatim>\<open>pdpe\<close> is advanced to the entry before
  it is indexed once more.
\<close>

definition ept_set_full :: "u64 \<Rightarrow> u64 \<Rightarrow> kernel \<Rightarrow> kernel may_panic" where
  "ept_set_full eptrt gpa s = do {
     let pml = entry eptrt (PML4 gpa);
     e \<leftarrow> load64 s pml;
     pdpe \<leftarrow> KADDR s (PTE_ADDR e);
     let pdpe = entry pdpe (PDPE gpa);
     e \<leftarrow> load64 s pdpe;
     pde \<leftarrow> KADDR s (PTE_ADDR e);
     e \<leftarrow> load64 s pml;
     s \<leftarrow> store64 (entry eptrt (PML4 gpa)) (PTE_ADDR e OR scast EPTE_FULL) s;
     e \<leftarrow> load64 s (entry pdpe (PDPE gpa));
     s \<leftarrow> store64 (entry pdpe (PDPE gpa)) (PTE_ADDR e OR scast EPTE_FULL) s;
     e \<leftarrow> load64 s (entry pde (PDX gpa));
     store64 (entry pde (PDX gpa)) (PTE_ADDR e OR scast EPTE_FULL) s }"

text \<open>The result code and, on success, the value for \<^verbatim>\<open>*epte_out\<close>.\<close>

definition ept_lookup_gpa :: "u64 \<Rightarrow> u64 \<Rightarrow> bool \<Rightarrow> kernel \<Rightarrow> ((int \<times> u64) \<times> kernel) may_panic" where
  "ept_lookup_gpa eptrt gpa create s =
     (if eptrt = 0 then Some ((- E_INVAL, 0), s)
      else do {
        (pte, s) \<leftarrow> pml4e_walk eptrt gpa create s;
        if pte = 0 then Some ((- E_NO_ENT, 0), s)
        else do {
          s \<leftarrow> ept_set_full eptrt gpa s;
          Some ((0, pte), s) } })"

text \<open>The host virtual address, \<open>0\<close> for \<^verbatim>\<open>NULL\<close>.\<close>

definition ept_gpa2hva :: "u64 \<Rightarrow> u64 \<Rightarrow> kernel \<Rightarrow> (u64 \<times> kernel) may_panic" where
  "ept_gpa2hva eptrt gpa s = do {
     ((ret, pte), s) \<leftarrow> ept_lookup_gpa eptrt gpa False s;
     if ret < 0 then Some (0, s)
     else do {
       e \<leftarrow> load64 s pte;
       if \<not> epte_present e then Some (0, s)
       else do {
         hva \<leftarrow> KADDR s (epte_addr e);
         Some (hva, s) } } }"

text \<open>The loop of \<^verbatim>\<open>free_ept_level\<close> over the entries that are left.\<close>

function free_ept_entries :: "nat \<Rightarrow> u64 \<Rightarrow> u64 list \<Rightarrow> kernel \<Rightarrow> kernel may_panic" where
  "free_ept_entries level dir [] s = Some s"
| "free_ept_entries level dir (i # is) s = do {
     e \<leftarrow> load64 s (entry dir i);
     s \<leftarrow> (if level \<noteq> 0
          then (if epte_present e then do {
                  let pa = epte_addr e;
                  kva \<leftarrow> KADDR s pa;
                  s \<leftarrow> free_ept_entries (level - 1) kva (map of_nat [0..<NPTENTRIES]) s;
                  pp \<leftarrow> pa2page s pa;
                  Some (page_decref pp s) }
                else Some s)
          else (if epte_present e then do {
                  let pa = epte_addr e;
                  pp \<leftarrow> pa2page s pa;
                  Some (page_decref pp s) }
                else Some s));
     free_ept_entries level dir is s }"
  by pat_completeness auto
termination
  by (relation "measures [\<lambda>(level, _, _, _). level, \<lambda>(_, _, is, _). length is]") auto

definition free_ept_level :: "u64 \<Rightarrow> nat \<Rightarrow> kernel \<Rightarrow> kernel may_panic" where
  "free_ept_level eptrt level s = free_ept_entries level eptrt (map of_nat [0..<NPTENTRIES]) s"

definition free_guest_mem :: "u64 \<Rightarrow> kernel \<Rightarrow> kernel may_panic" where
  \<comment> \<open>\<^verbatim>\<open>tlbflush\<close> changes no state of the model\<close>
  "free_guest_mem eptrt s = free_ept_level eptrt (EPT_LEVELS - 1) s"

definition ept_page_insert :: "u64 \<Rightarrow> nat \<Rightarrow> u64 \<Rightarrow> u32 \<Rightarrow> bool \<Rightarrow> kernel \<Rightarrow> (int \<times> kernel) may_panic" where
  "ept_page_insert eptrt pp gpa perm overwrite s = do {
     ((ret, epte_out), s) \<leftarrow> ept_lookup_gpa eptrt gpa True s;
     if ret = 0 then do {
       e \<leftarrow> load64 s epte_out;
       if e \<noteq> 0 then
         (if \<not> overwrite then Some (- E_INVAL, s)
          else do {
            s \<leftarrow> store64 (entry epte_out (PTX gpa))
                  (page2pa pp OR scast perm OR scast EPTE_IPAT OR scast (EPTE_TYPE EPTE_TYPE_WB)) s;
            Some (0, s) })
       else do {
         s \<leftarrow> store64 (entry epte_out (PTX gpa))
               (page2pa pp OR scast perm OR scast EPTE_IPAT OR scast (EPTE_TYPE EPTE_TYPE_WB)) s;
         Some (0, s) } }
     else Some (0, s) }"

text \<open>
  One iteration of \<^verbatim>\<open>ept_alloc_static\<close>; a null page from \<^verbatim>\<open>page_alloc\<close> is passed on to
  \<^verbatim>\<open>page2pa\<close>, which is undefined behaviour and counts as a panic here.
\<close>

definition ept_alloc_page :: "u64 \<Rightarrow> u64 \<Rightarrow> kernel \<Rightarrow> kernel may_panic" where
  "ept_alloc_page eptrt i s = do {
     (p, s) \<leftarrow> page_alloc 0 s;
     case p of
       None \<Rightarrow> None
     | Some p \<Rightarrow> do {
         (r, s) \<leftarrow> ept_page_insert eptrt p i EPTE_FULL False s;
         Some s } }"

partial_function (option) ept_alloc_loop :: "u64 \<Rightarrow> u64 \<Rightarrow> u64 \<Rightarrow> kernel \<Rightarrow> kernel may_panic" where
  "ept_alloc_loop eptrt i lim s =
     (if i < lim then do {
        s \<leftarrow> ept_alloc_page eptrt i s;
        ept_alloc_loop eptrt (i + PGSIZE) lim s }
      else Some s)"

definition ept_alloc_static :: "u64 \<Rightarrow> VmxGuestInfo \<Rightarrow> kernel \<Rightarrow> (int \<times> kernel) may_panic" where
  "ept_alloc_static eptrt ginfo s = do {
     s \<leftarrow> ept_alloc_loop eptrt 0 0xA0000 s;
     s \<leftarrow> ept_alloc_loop eptrt 0x100000 (phys_sz ginfo) s;
     Some (0, s) }"

section \<open>Lookup\<close>

definition full :: "u64 \<Rightarrow> u64" where
  "full e = PTE_ADDR e OR scast EPTE_FULL"

lemma EPTE_FULL_7: "(scast EPTE_FULL :: u64) = 7"
  by (simp add: const_defs scast_eq)

lemma PPN_PTE_ADDR [simp]: "PPN (PTE_ADDR e) = PPN e"
  by (simp add: PTE_ADDR_page2pa)

lemma full_entry [simp]: "target (full e) = target e" "present (full e)" "epte_present (full e)"
proof -
  show "target (full e) = target e" by (simp add: full_def EPTE_FULL_7)
  have b: "bit (full e) 0" by (simp add: full_def EPTE_FULL_7 bit_or_iff)
  then show "present (full e)" by (simp add: present_bit)
  have "bit (full e AND 7) 0" using b by (simp add: bit_and_iff)
  then have "full e AND 7 \<noteq> 0" by (metis bit_0_eq bot_apply bot_bool_def)
  then show "epte_present (full e)" by (simp add: epte_present_def EPTE_FULL_7 word_gt_0)
qed

lemma PDPE_low: "gpa < 0x40000000 \<Longrightarrow> PDPE gpa = 0"
proof -
  assume "gpa < 0x40000000"
  then have "take_bit 30 gpa = gpa" using small_take_bit [of gpa 30] by simp
  then have "drop_bit 30 gpa = drop_bit 30 (take_bit 30 gpa)" by simp
  also have "\<dots> = 0" by (simp add: drop_bit_take_bit)
  finally show ?thesis by (simp add: PDPE_def)
qed

lemma keeps_full: "keeps full"
  by (simp add: keeps_def)

lemma ept_set_full_exec:
  assumes ph: "phys_ok s" and ok: "path_ok s root (walk_idx gpa)"
    and fo: "follow (mem s) root (walk_idx gpa) = Some t" and lo: "PDPE gpa = 0"
  shows "ept_set_full (page2pa root + KERNBASE) gpa s =
    Some (s\<lparr>mem := upd_cells (mem s) root (walk_idx gpa) full\<rparr>)"
proof -
  let ?q = "target (mem s (slot root (PML4 gpa)))"
  let ?r = "target (mem s (slot ?q (PDPE gpa)))"
  have b: "root < npages s" "?q < npages s" "?r < npages s"
    using ok fo by (auto simp: path_ok_def walk_idx_def split: if_splits)
  have ld: "load64 (s\<lparr>mem := m\<rparr>) (slot p i + KERNBASE) = Some (m (slot p i))"
    and st: "store64 (slot p i + KERNBASE) v (s\<lparr>mem := m\<rparr>) = Some (s\<lparr>mem := m(slot p i := v)\<rparr>)"
    if "p < npages s" "i < 512" for p i m v
    using that ph by (simp_all add: load64_slot store64_slot phys_ok_def)
  have ka: "KADDR s (PTE_ADDR e) = Some (page2pa (target e) + KERNBASE)"
    if "target e < npages s" for e
    using that ph by (rule_tac KADDR_PTE_ADDR)
  let ?m1 = "upd_cell root (PML4 gpa) full (mem s)"
  have e2: "entry (slot ?q 0 + KERNBASE) 0 = slot ?q 0 + KERNBASE" by (simp add: entry_def)
  have r: "target (?m1 (slot ?q 0)) = ?r" using lo by (auto simp: upd_cell_def)
  show ?thesis
    using b ld [of root "PML4 gpa" "mem s"] ld [of ?q 0 "mem s"] r
      st [of root "PML4 gpa" "full (mem s (slot root (PML4 gpa)))" "mem s"]
    by (simp add: ept_set_full_def entry_page lo e2 ka Let_def walk_idx_def)
      (simp add: upd_cell_def full_def ld st)
qed

lemma ept_lookup_create:
  assumes rd: "insert_ready s fl root gpa" and g: "grow (mem s) fl root (walk_idx gpa) = (m', fl', Some t)"
    and lo: "PDPE gpa = 0"
  shows "ept_lookup_gpa (page2pa root + KERNBASE) gpa True s =
    Some ((0, slot t (PTX gpa) + KERNBASE), claimed fl fl' (upd_cells m' root (walk_idx gpa) full) s)"
proof -
  have wr: "walk_ready s fl root (walk_idx gpa)" and ph: "phys_ok s"
    using rd by (auto simp: insert_ready_def walk_ready_def alloc_wf_def)
  note it = insert_tables [OF rd g keeps_full]
  have nz: "page2pa root + KERNBASE \<noteq> 0" "slot t (PTX gpa) + KERNBASE \<noteq> 0"
    using it(2,4) phys_ok_frame [OF ph] table_ptr_nonzero(2) [of root 0]
      table_ptr_nonzero(1) [of t "PTX gpa"] by auto
  have "ept_set_full (page2pa root + KERNBASE) gpa (claimed fl fl' m' s) =
      Some (claimed fl fl' (upd_cells m' root (walk_idx gpa) full) s)"
    using ept_set_full_exec [of "claimed fl fl' m' s" root gpa t] it(7,8) ph lo
    by (simp add: path_ok_def)
  then show ?thesis
    using pml4w.create [OF wr g] nz by (simp add: ept_lookup_gpa_def leaf_ptr_def)
qed

definition ept_leaf :: "nat \<Rightarrow> u32 \<Rightarrow> u64" where
  "ept_leaf pp perm = page2pa pp OR scast perm OR scast EPTE_IPAT OR scast (EPTE_TYPE EPTE_TYPE_WB)"

lemma ept_page_insert_exec:
  assumes rd: "insert_ready s fl root gpa" and g: "grow (mem s) fl root (walk_idx gpa) = (m', fl', Some t)"
    and lo: "PDPE gpa = 0" and pt: "PTX gpa < 256"
  defines "m2 \<equiv> upd_cells m' root (walk_idx gpa) full"
  shows "ept_page_insert (page2pa root + KERNBASE) pp gpa perm ow s =
    (if m2 (slot t (PTX gpa)) \<noteq> 0 \<and> \<not> ow then Some (- E_INVAL, claimed fl fl' m2 s)
     else Some (0, claimed fl fl' (m2(slot t (2 * PTX gpa) := ept_leaf pp perm)) s))"
proof -
  have ph: "phys_ok s" using rd by (auto simp: insert_ready_def walk_ready_def alloc_wf_def)
  note it = insert_tables [OF rd g keeps_full]
  have i2: "2 * PTX gpa < 512"
  proof -
    have "unat (PTX gpa) < 256" using pt by (simp add: word_less_nat_alt)
    then show ?thesis by (simp add: word_less_nat_alt unat_word_ariths)
  qed
  have e: "entry (slot t (PTX gpa) + KERNBASE) (PTX gpa) = slot t (2 * PTX gpa) + KERNBASE"
    by (simp add: entry_def slot_def)
  have ld: "load64 (claimed fl fl' m2 s) (slot t (PTX gpa) + KERNBASE) = Some (m2 (slot t (PTX gpa)))"
    using it(2) ph by (subst load64_slot) simp_all
  have st: "store64 (slot t (2 * PTX gpa) + KERNBASE) v (claimed fl fl' m2 s) =
      Some (claimed fl fl' (m2(slot t (2 * PTX gpa) := v)) s)" for v
    using it(2) ph i2 by (subst store64_slot) simp_all
  show ?thesis
    by (simp add: ept_page_insert_def ept_lookup_create [OF rd g lo] ld e st ept_leaf_def
        flip: m2_def)
qed



lemma ept_inserted:
  assumes rd: "insert_ready s fl root gpa" and g: "grow (mem s) fl root (walk_idx gpa) = (m', fl', Some t)"
    and pt: "PTX gpa < 256"
  defines "m2 \<equiv> upd_cells m' root (walk_idx gpa) full"
  shows "follow (m2(slot t (2 * PTX gpa) := v)) root (walk_idx gpa) = Some t"
    "m2 (slot t (PTX gpa)) = (if missing (mem s) root (walk_idx gpa) = 0 then mem s (slot t (PTX gpa)) else 0)"
    "PTX gpa \<noteq> 0 \<Longrightarrow> slot t (PTX gpa) \<noteq> slot t (2 * PTX gpa)"
proof -
  let ?j = "2 * PTX gpa"
  have ph: "phys_ok s" using rd by (auto simp: insert_ready_def walk_ready_def alloc_wf_def)
  have wp: "walk_pre (mem s) fl root (walk_idx gpa)"
    using rd by (intro walk_ready_pre) (simp add: insert_ready_def)
  note it = insert_tables [OF rd g keeps_full, folded m2_def]
  have t27: "t < 2 ^ 27" using phys_ok_frame [OF ph it(2)] .
  have "unat (PTX gpa) < 256" using pt by (simp add: word_less_nat_alt)
  then have j: "?j < 512" "PTX gpa \<noteq> 0 \<Longrightarrow> ?j \<noteq> PTX gpa"
    by (auto simp: word_less_nat_alt unat_word_ariths word_unat_eq_iff)
  have "slot t ?j \<notin> set (path_cells m2 root (walk_idx gpa))"
  proof (rule leaf_off_path [OF it(1) _ _ _ j(1)])
    show "distinct (path_frames m2 root (walk_idx gpa))"
      using grow_follow [OF g wp] rd follow_upd_cells(3) [OF keeps_full it(7)]
      by (simp add: insert_ready_def m2_def)
  qed (use it(4) phys_ok_frame [OF ph] in \<open>auto simp: walk_idx_def\<close>)
  then show "follow (m2(slot t ?j := v)) root (walk_idx gpa) = Some t"
    using follow_leaf_upd(1) it(1) by simp
  have "m2 (slot t (PTX gpa)) = m' (slot t (PTX gpa))"
    using upd_cells_frame [OF keeps_full it(7)] it(5) follow_upd_cells(2) [OF keeps_full it(7)]
    by (simp add: m2_def)
  also have "\<dots> = (if missing (mem s) root (walk_idx gpa) = 0 then mem s (slot t (PTX gpa)) else 0)"
    using grow_fresh_leaf [OF g wp] g by (auto simp: grow_none_missing)
  finally show "m2 (slot t (PTX gpa)) = (if missing (mem s) root (walk_idx gpa) = 0 then mem s (slot t (PTX gpa)) else 0)" .
  show "slot t (PTX gpa) \<noteq> slot t ?j" if "PTX gpa \<noteq> 0"
    using j that t27 by (simp add: slot_inj)
qed

text \<open>
  What \<^verbatim>\<open>ept_page_insert\<close> writes, for an unmapped guest address below 1 GB in the lower half
  of its table. It returns 0, no reference count of an existing page changes (so \<^verbatim>\<open>pp\<close> is not
  counted), and the new entry goes to index \<^verbatim>\<open>2*PTX(gpa)\<close> of the last-level table, because
  \<^verbatim>\<open>epte_out\<close> already points at the entry and is indexed once more. So the address itself is
  mapped exactly when \<^verbatim>\<open>PTX(gpa)\<close> is 0; otherwise its entry stays empty.
\<close>

theorem ept_page_insert_index:
  assumes rd: "insert_ready s fl root gpa" and k: "missing (mem s) root (walk_idx gpa) \<le> length fl"
    and lo: "gpa < 0x40000000" and pt: "PTX gpa < 256"
    and empty: "\<forall>t. follow (mem s) root (walk_idx gpa) = Some t \<longrightarrow> mem s (slot t (PTX gpa)) = 0"
  shows "\<exists>t s'. ept_page_insert (page2pa root + KERNBASE) pp gpa perm ow s = Some (0, s') \<and>
    follow (mem s') root (walk_idx gpa) = Some t \<and>
    mem s' (slot t (2 * PTX gpa)) = ept_leaf pp perm \<and>
    (PTX gpa \<noteq> 0 \<longrightarrow> mem s' (slot t (PTX gpa)) = 0) \<and>
    (\<forall>q. q \<notin> set fl \<longrightarrow> pages s' q = pages s q)"
proof -
  have i: "PDPE gpa = 0" using PDPE_low [OF lo] .
  obtain m' t fl' where g: "grow (mem s) fl root (walk_idx gpa) = (m', fl', Some t)"
    using insert_grow [OF rd k] by metis
  note leaf = ept_inserted [OF rd g pt]
  have "follow (mem s) root (walk_idx gpa) = Some t" if "missing (mem s) root (walk_idx gpa) = 0"
    using grow_none_missing [OF that, of fl] g by simp
  then have "upd_cells m' root (walk_idx gpa) full (slot t (PTX gpa)) = 0" using leaf(2) empty by auto
  then show ?thesis
    using ept_page_insert_exec [OF rd g i pt] leaf(1,3) by (auto simp: claimed_def)
qed

theorem ept_page_insert_index_witness:
  "\<exists>t s'. ept_page_insert (page2pa 1 + KERNBASE) 6 0x3000 7 False small_kernel = Some (0, s') \<and>
     mem s' (slot t (2 * PTX 0x3000)) = ept_leaf 6 7 \<and> mem s' (slot t (PTX 0x3000)) = 0"
proof -
  have p: "PTX 0x3000 = 3" by (simp add: PTX_def)
  show ?thesis
    using ept_page_insert_index [OF small_kernel_insert_ready, of "0x3000" 6 7 False]
    unfolding small_kernel_missing p by (auto simp: walk_idx_def)
qed

section \<open>Release of guest memory\<close>

text \<open>
  The frames that the tables below table \<open>p\<close> refer to, guest pages and tables, in the order in
  which they are released: below an entry first, then the entry's own frame.
\<close>

function ept_frames :: "nat \<Rightarrow> (u64 \<Rightarrow> u64) \<Rightarrow> nat \<Rightarrow> u64 list \<Rightarrow> nat list" where
  "ept_frames level m p [] = []"
| "ept_frames level m p (i # is) =
     (if epte_present (m (slot p i))
      then (if level \<noteq> 0 then ept_frames (level - 1) m (target (m (slot p i))) (map of_nat [0..<NPTENTRIES]) else [])
           @ [target (m (slot p i))]
      else []) @ ept_frames level m p is"
  by pat_completeness auto
termination
  by (relation "measures [\<lambda>(level, _, _, _). level, \<lambda>(_, _, _, is). length is]") auto

lemma epte_addr_eq: "epte_addr e = PTE_ADDR e"
  by (simp add: epte_addr_def EPTE_ADDR_def PTE_ADDR_def PGSIZE_def)

lemma fold_decref_simps [simp]:
  "mem (fold page_decref xs s) = mem s" "npages (fold page_decref xs s) = npages s"
  by (induction xs arbitrary: s) simp_all

lemma fold_decref_ref:
  "pp_ref (pages (fold page_decref xs s) x) = pp_ref (pages s x) - of_nat (count_list xs x)"
  by (induction xs arbitrary: s) (auto simp: page_decref_ref)

lemma free_ept_entries_exec:
  assumes "phys_ok s" "p < npages s" "\<forall>i\<in>set is. i < 512"
    "\<forall>q\<in>set (ept_frames level (mem s) p is). q < npages s"
  shows "free_ept_entries level (page2pa p + KERNBASE) is s = Some (fold page_decref (ept_frames level (mem s) p is) s)"
  using assms
proof (induction level "mem s" p "is" arbitrary: s rule: ept_frames.induct)
  case (2 level p i "is")
  let ?e = "mem s (slot p i)" and ?all = "map of_nat [0..<NPTENTRIES] :: u64 list"
  let ?below = "if level \<noteq> 0 then ept_frames (level - 1) (mem s) (target ?e) ?all else []"
  have ld: "load64 s (entry (page2pa p + KERNBASE) i) = Some ?e"
    using 2 by (simp add: entry_page load64_slot)
  have all: "\<forall>i\<in>set ?all. i < 512"
    by (auto simp: NPTENTRIES_def word_less_nat_alt unat_of_nat)
  show ?case
  proof (cases "epte_present ?e")
    case True
    let ?s1 = "fold page_decref ?below s" let ?s2 = "page_decref (target ?e) ?s1"
    have t: "target ?e < npages s" using "2.prems"(4) True by simp
    have below: "level \<noteq> 0 \<Longrightarrow>
        free_ept_entries (level - 1) (page2pa (target ?e) + KERNBASE) ?all s = Some ?s1"
      using "2.hyps"(1) [OF True _ refl] "2.prems" True t all by simp
    have ka: "KADDR s (epte_addr ?e) = Some (page2pa (target ?e) + KERNBASE)"
      using t "2.prems"(1) by (simp add: epte_addr_eq KADDR_PTE_ADDR)
    have pa: "pa2page x (epte_addr ?e) = Some (target ?e)" if "npages x = npages s" for x
      using t that by (simp add: epte_addr_eq pa2page_def)
    have ms: "mem s = mem ?s2" by (cases "level = 0") simp_all
    have "free_ept_entries level (page2pa p + KERNBASE) is ?s2 =
        Some (fold page_decref (ept_frames level (mem ?s2) p is) ?s2)"
      using "2.prems" True by (intro "2.hyps"(2) [OF ms]) (auto simp: phys_ok_def)
    then show ?thesis
      using True ld ka pa below by (cases "level = 0") (simp_all add: Let_def)
  next
    case False
    then have "free_ept_entries level (page2pa p + KERNBASE) is s =
        Some (fold page_decref (ept_frames level (mem s) p is) s)"
      using "2.hyps"(2) [OF refl] "2.prems" by simp
    with False ld show ?thesis by (cases "level = 0") simp_all
  qed
qed simp


lemma ept_frames_empty:
  "\<forall>i\<in>set is. m (slot p i) = 0 \<Longrightarrow> ept_frames level m p is = []"
  by (induction "is") (simp_all add: epte_present_def)


end
