(* ===== verification/Vmcs.thy ===== *)
theory Vmcs
  imports Kernel_State
begin

text \<open>
  The virtual machine control structure (VMCS): the constants of \<^verbatim>\<open>vmm/vmx.h\<close> and the accessors
  \<^verbatim>\<open>vmcs_writel\<close>, \<^verbatim>\<open>vmcs_readl\<close> and their typed variants. The field values of the VMCS regions are
  \<^const>\<open>vmcs_data\<close>, indexed by the physical address of the region and by the field encoding; the
  instructions \<^verbatim>\<open>vmread\<close> and \<^verbatim>\<open>vmwrite\<close> act on the region that \<^const>\<open>vmcs_cur\<close> names.
\<close>

named_theorems vmcs_consts

section \<open>Constants (vmm/vmx.h)\<close>

text \<open>Capability registers.\<close>

definition IA32_VMX_BASIC :: u32 where [vmcs_consts]: "IA32_VMX_BASIC = 0x480"
definition IA32_VMX_PINBASED_CTLS :: u32 where [vmcs_consts]: "IA32_VMX_PINBASED_CTLS = 0x481"
definition IA32_VMX_PROCBASED_CTLS :: u32 where [vmcs_consts]: "IA32_VMX_PROCBASED_CTLS = 0x482"
definition IA32_VMX_PROCBASED_CTLS2 :: u32 where [vmcs_consts]: "IA32_VMX_PROCBASED_CTLS2 = 0x48B"
definition IA32_VMX_EXIT_CTLS :: u32 where [vmcs_consts]: "IA32_VMX_EXIT_CTLS = 0x483"
definition IA32_VMX_ENTRY_CTLS :: u32 where [vmcs_consts]: "IA32_VMX_ENTRY_CTLS = 0x484"
definition IA32_VMX_CR0_FIXED0 :: u32 where [vmcs_consts]: "IA32_VMX_CR0_FIXED0 = 0x486"
definition IA32_VMX_CR0_FIXED1 :: u32 where [vmcs_consts]: "IA32_VMX_CR0_FIXED1 = 0x487"
definition IA32_VMX_CR4_FIXED0 :: u32 where [vmcs_consts]: "IA32_VMX_CR4_FIXED0 = 0x488"
definition IA32_VMX_CR4_FIXED1 :: u32 where [vmcs_consts]: "IA32_VMX_CR4_FIXED1 = 0x489"
definition IA32_FEATURE_CONTROL :: u32 where [vmcs_consts]: "IA32_FEATURE_CONTROL = 0x3A"

text \<open>Encodings of the fields the code accesses.\<close>

definition VMCS_16BIT_GUEST_ES_SELECTOR :: u32 where [vmcs_consts]: "VMCS_16BIT_GUEST_ES_SELECTOR = 0x800"
definition VMCS_16BIT_GUEST_CS_SELECTOR :: u32 where [vmcs_consts]: "VMCS_16BIT_GUEST_CS_SELECTOR = 0x802"
definition VMCS_16BIT_GUEST_SS_SELECTOR :: u32 where [vmcs_consts]: "VMCS_16BIT_GUEST_SS_SELECTOR = 0x804"
definition VMCS_16BIT_GUEST_DS_SELECTOR :: u32 where [vmcs_consts]: "VMCS_16BIT_GUEST_DS_SELECTOR = 0x806"
definition VMCS_16BIT_GUEST_FS_SELECTOR :: u32 where [vmcs_consts]: "VMCS_16BIT_GUEST_FS_SELECTOR = 0x808"
definition VMCS_16BIT_GUEST_GS_SELECTOR :: u32 where [vmcs_consts]: "VMCS_16BIT_GUEST_GS_SELECTOR = 0x80A"
definition VMCS_16BIT_GUEST_LDTR_SELECTOR :: u32 where [vmcs_consts]: "VMCS_16BIT_GUEST_LDTR_SELECTOR = 0x80C"
definition VMCS_16BIT_GUEST_TR_SELECTOR :: u32 where [vmcs_consts]: "VMCS_16BIT_GUEST_TR_SELECTOR = 0x80E"
definition VMCS_16BIT_HOST_ES_SELECTOR :: u32 where [vmcs_consts]: "VMCS_16BIT_HOST_ES_SELECTOR = 0xC00"
definition VMCS_16BIT_HOST_CS_SELECTOR :: u32 where [vmcs_consts]: "VMCS_16BIT_HOST_CS_SELECTOR = 0xC02"
definition VMCS_16BIT_HOST_SS_SELECTOR :: u32 where [vmcs_consts]: "VMCS_16BIT_HOST_SS_SELECTOR = 0xC04"
definition VMCS_16BIT_HOST_DS_SELECTOR :: u32 where [vmcs_consts]: "VMCS_16BIT_HOST_DS_SELECTOR = 0xC06"
definition VMCS_16BIT_HOST_FS_SELECTOR :: u32 where [vmcs_consts]: "VMCS_16BIT_HOST_FS_SELECTOR = 0xC08"
definition VMCS_16BIT_HOST_GS_SELECTOR :: u32 where [vmcs_consts]: "VMCS_16BIT_HOST_GS_SELECTOR = 0xC0A"
definition VMCS_16BIT_HOST_TR_SELECTOR :: u32 where [vmcs_consts]: "VMCS_16BIT_HOST_TR_SELECTOR = 0xC0C"
definition VMCS_64BIT_CONTROL_IO_BITMAP_A :: u32 where [vmcs_consts]: "VMCS_64BIT_CONTROL_IO_BITMAP_A = 0x2000"
definition VMCS_64BIT_CONTROL_IO_BITMAP_B :: u32 where [vmcs_consts]: "VMCS_64BIT_CONTROL_IO_BITMAP_B = 0x2002"
definition VMCS_64BIT_CONTROL_VMEXIT_MSR_STORE_ADDR :: u32 where [vmcs_consts]: "VMCS_64BIT_CONTROL_VMEXIT_MSR_STORE_ADDR = 0x2006"
definition VMCS_64BIT_CONTROL_VMEXIT_MSR_LOAD_ADDR :: u32 where [vmcs_consts]: "VMCS_64BIT_CONTROL_VMEXIT_MSR_LOAD_ADDR = 0x2008"
definition VMCS_64BIT_CONTROL_VMENTRY_MSR_LOAD_ADDR :: u32 where [vmcs_consts]: "VMCS_64BIT_CONTROL_VMENTRY_MSR_LOAD_ADDR = 0x200A"
definition VMCS_64BIT_CONTROL_EPTPTR :: u32 where [vmcs_consts]: "VMCS_64BIT_CONTROL_EPTPTR = 0x201A"
definition VMCS_64BIT_GUEST_PHYSICAL_ADDR :: u32 where [vmcs_consts]: "VMCS_64BIT_GUEST_PHYSICAL_ADDR = 0x2400"
definition VMCS_64BIT_GUEST_LINK_POINTER :: u32 where [vmcs_consts]: "VMCS_64BIT_GUEST_LINK_POINTER = 0x2800"
definition VMCS_64BIT_GUEST_LINK_POINTER_HI :: u32 where [vmcs_consts]: "VMCS_64BIT_GUEST_LINK_POINTER_HI = 0x2801"
definition VMCS_32BIT_CONTROL_PIN_BASED_EXEC_CONTROLS :: u32 where [vmcs_consts]: "VMCS_32BIT_CONTROL_PIN_BASED_EXEC_CONTROLS = 0x4000"
definition VMCS_32BIT_CONTROL_PROCESSOR_BASED_VMEXEC_CONTROLS :: u32 where [vmcs_consts]: "VMCS_32BIT_CONTROL_PROCESSOR_BASED_VMEXEC_CONTROLS = 0x4002"
definition VMCS_32BIT_CONTROL_EXCEPTION_BITMAP :: u32 where [vmcs_consts]: "VMCS_32BIT_CONTROL_EXCEPTION_BITMAP = 0x4004"
definition VMCS_32BIT_CONTROL_VMEXIT_CONTROLS :: u32 where [vmcs_consts]: "VMCS_32BIT_CONTROL_VMEXIT_CONTROLS = 0x400C"
definition VMCS_32BIT_CONTROL_VMEXIT_MSR_STORE_COUNT :: u32 where [vmcs_consts]: "VMCS_32BIT_CONTROL_VMEXIT_MSR_STORE_COUNT = 0x400E"
definition VMCS_32BIT_CONTROL_VMEXIT_MSR_LOAD_COUNT :: u32 where [vmcs_consts]: "VMCS_32BIT_CONTROL_VMEXIT_MSR_LOAD_COUNT = 0x4010"
definition VMCS_32BIT_CONTROL_VMENTRY_CONTROLS :: u32 where [vmcs_consts]: "VMCS_32BIT_CONTROL_VMENTRY_CONTROLS = 0x4012"
definition VMCS_32BIT_CONTROL_VMENTRY_MSR_LOAD_COUNT :: u32 where [vmcs_consts]: "VMCS_32BIT_CONTROL_VMENTRY_MSR_LOAD_COUNT = 0x4014"
definition VMCS_32BIT_CONTROL_VMENTRY_INTERRUPTION_INFO :: u32 where [vmcs_consts]: "VMCS_32BIT_CONTROL_VMENTRY_INTERRUPTION_INFO = 0x4016"
definition VMCS_32BIT_CONTROL_SECONDARY_VMEXEC_CONTROLS :: u32 where [vmcs_consts]: "VMCS_32BIT_CONTROL_SECONDARY_VMEXEC_CONTROLS = 0x401E"
definition VMCS_32BIT_VMEXIT_REASON :: u32 where [vmcs_consts]: "VMCS_32BIT_VMEXIT_REASON = 0x4402"
definition VMCS_32BIT_VMEXIT_INTERRUPTION_INFO :: u32 where [vmcs_consts]: "VMCS_32BIT_VMEXIT_INTERRUPTION_INFO = 0x4404"
definition VMCS_32BIT_VMEXIT_INSTRUCTION_LENGTH :: u32 where [vmcs_consts]: "VMCS_32BIT_VMEXIT_INSTRUCTION_LENGTH = 0x440C"
definition VMCS_32BIT_GUEST_ES_LIMIT :: u32 where [vmcs_consts]: "VMCS_32BIT_GUEST_ES_LIMIT = 0x4800"
definition VMCS_32BIT_GUEST_CS_LIMIT :: u32 where [vmcs_consts]: "VMCS_32BIT_GUEST_CS_LIMIT = 0x4802"
definition VMCS_32BIT_GUEST_SS_LIMIT :: u32 where [vmcs_consts]: "VMCS_32BIT_GUEST_SS_LIMIT = 0x4804"
definition VMCS_32BIT_GUEST_DS_LIMIT :: u32 where [vmcs_consts]: "VMCS_32BIT_GUEST_DS_LIMIT = 0x4806"
definition VMCS_32BIT_GUEST_FS_LIMIT :: u32 where [vmcs_consts]: "VMCS_32BIT_GUEST_FS_LIMIT = 0x4808"
definition VMCS_32BIT_GUEST_GS_LIMIT :: u32 where [vmcs_consts]: "VMCS_32BIT_GUEST_GS_LIMIT = 0x480A"
definition VMCS_32BIT_GUEST_LDTR_LIMIT :: u32 where [vmcs_consts]: "VMCS_32BIT_GUEST_LDTR_LIMIT = 0x480C"
definition VMCS_32BIT_GUEST_TR_LIMIT :: u32 where [vmcs_consts]: "VMCS_32BIT_GUEST_TR_LIMIT = 0x480E"
definition VMCS_32BIT_GUEST_GDTR_LIMIT :: u32 where [vmcs_consts]: "VMCS_32BIT_GUEST_GDTR_LIMIT = 0x4810"
definition VMCS_32BIT_GUEST_IDTR_LIMIT :: u32 where [vmcs_consts]: "VMCS_32BIT_GUEST_IDTR_LIMIT = 0x4812"
definition VMCS_32BIT_GUEST_ES_ACCESS_RIGHTS :: u32 where [vmcs_consts]: "VMCS_32BIT_GUEST_ES_ACCESS_RIGHTS = 0x4814"
definition VMCS_32BIT_GUEST_CS_ACCESS_RIGHTS :: u32 where [vmcs_consts]: "VMCS_32BIT_GUEST_CS_ACCESS_RIGHTS = 0x4816"
definition VMCS_32BIT_GUEST_SS_ACCESS_RIGHTS :: u32 where [vmcs_consts]: "VMCS_32BIT_GUEST_SS_ACCESS_RIGHTS = 0x4818"
definition VMCS_32BIT_GUEST_DS_ACCESS_RIGHTS :: u32 where [vmcs_consts]: "VMCS_32BIT_GUEST_DS_ACCESS_RIGHTS = 0x481A"
definition VMCS_32BIT_GUEST_FS_ACCESS_RIGHTS :: u32 where [vmcs_consts]: "VMCS_32BIT_GUEST_FS_ACCESS_RIGHTS = 0x481C"
definition VMCS_32BIT_GUEST_GS_ACCESS_RIGHTS :: u32 where [vmcs_consts]: "VMCS_32BIT_GUEST_GS_ACCESS_RIGHTS = 0x481E"
definition VMCS_32BIT_GUEST_LDTR_ACCESS_RIGHTS :: u32 where [vmcs_consts]: "VMCS_32BIT_GUEST_LDTR_ACCESS_RIGHTS = 0x4820"
definition VMCS_32BIT_GUEST_TR_ACCESS_RIGHTS :: u32 where [vmcs_consts]: "VMCS_32BIT_GUEST_TR_ACCESS_RIGHTS = 0x4822"
definition VMCS_32BIT_GUEST_INTERRUPTIBILITY_STATE :: u32 where [vmcs_consts]: "VMCS_32BIT_GUEST_INTERRUPTIBILITY_STATE = 0x4824"
definition VMCS_32BIT_GUEST_ACTIVITY_STATE :: u32 where [vmcs_consts]: "VMCS_32BIT_GUEST_ACTIVITY_STATE = 0x4826"
definition VMCS_VMEXIT_QUALIFICATION :: u32 where [vmcs_consts]: "VMCS_VMEXIT_QUALIFICATION = 0x6400"
definition VMCS_GUEST_CR0 :: u32 where [vmcs_consts]: "VMCS_GUEST_CR0 = 0x6800"
definition VMCS_GUEST_CR3 :: u32 where [vmcs_consts]: "VMCS_GUEST_CR3 = 0x6802"
definition VMCS_GUEST_CR4 :: u32 where [vmcs_consts]: "VMCS_GUEST_CR4 = 0x6804"
definition VMCS_GUEST_ES_BASE :: u32 where [vmcs_consts]: "VMCS_GUEST_ES_BASE = 0x6806"
definition VMCS_GUEST_CS_BASE :: u32 where [vmcs_consts]: "VMCS_GUEST_CS_BASE = 0x6808"
definition VMCS_GUEST_SS_BASE :: u32 where [vmcs_consts]: "VMCS_GUEST_SS_BASE = 0x680A"
definition VMCS_GUEST_DS_BASE :: u32 where [vmcs_consts]: "VMCS_GUEST_DS_BASE = 0x680C"
definition VMCS_GUEST_FS_BASE :: u32 where [vmcs_consts]: "VMCS_GUEST_FS_BASE = 0x680E"
definition VMCS_GUEST_GS_BASE :: u32 where [vmcs_consts]: "VMCS_GUEST_GS_BASE = 0x6810"
definition VMCS_GUEST_LDTR_BASE :: u32 where [vmcs_consts]: "VMCS_GUEST_LDTR_BASE = 0x6812"
definition VMCS_GUEST_TR_BASE :: u32 where [vmcs_consts]: "VMCS_GUEST_TR_BASE = 0x6814"
definition VMCS_GUEST_GDTR_BASE :: u32 where [vmcs_consts]: "VMCS_GUEST_GDTR_BASE = 0x6816"
definition VMCS_GUEST_IDTR_BASE :: u32 where [vmcs_consts]: "VMCS_GUEST_IDTR_BASE = 0x6818"
definition VMCS_GUEST_DR7 :: u32 where [vmcs_consts]: "VMCS_GUEST_DR7 = 0x681A"
definition VMCS_GUEST_RSP :: u32 where [vmcs_consts]: "VMCS_GUEST_RSP = 0x681C"
definition VMCS_GUEST_RIP :: u32 where [vmcs_consts]: "VMCS_GUEST_RIP = 0x681E"
definition VMCS_GUEST_RFLAGS :: u32 where [vmcs_consts]: "VMCS_GUEST_RFLAGS = 0x6820"
definition VMCS_HOST_CR0 :: u32 where [vmcs_consts]: "VMCS_HOST_CR0 = 0x6C00"
definition VMCS_HOST_CR3 :: u32 where [vmcs_consts]: "VMCS_HOST_CR3 = 0x6C02"
definition VMCS_HOST_CR4 :: u32 where [vmcs_consts]: "VMCS_HOST_CR4 = 0x6C04"
definition VMCS_HOST_FS_BASE :: u32 where [vmcs_consts]: "VMCS_HOST_FS_BASE = 0x6C06"
definition VMCS_HOST_GS_BASE :: u32 where [vmcs_consts]: "VMCS_HOST_GS_BASE = 0x6C08"
definition VMCS_HOST_TR_BASE :: u32 where [vmcs_consts]: "VMCS_HOST_TR_BASE = 0x6C0A"
definition VMCS_HOST_GDTR_BASE :: u32 where [vmcs_consts]: "VMCS_HOST_GDTR_BASE = 0x6C0C"
definition VMCS_HOST_IDTR_BASE :: u32 where [vmcs_consts]: "VMCS_HOST_IDTR_BASE = 0x6C0E"
definition VMCS_HOST_RSP :: u32 where [vmcs_consts]: "VMCS_HOST_RSP = 0x6C14"
definition VMCS_HOST_RIP :: u32 where [vmcs_consts]: "VMCS_HOST_RIP = 0x6C16"

text \<open>Bits of the control fields.\<close>

definition VMCS_PIN_BASED_VMEXEC_CTL_EXINTEXIT :: u32 where [vmcs_consts]: "VMCS_PIN_BASED_VMEXEC_CTL_EXINTEXIT = 0x1"
definition VMCS_PROC_BASED_VMEXEC_CTL_INTRWINEXIT :: u32 where [vmcs_consts]: "VMCS_PROC_BASED_VMEXEC_CTL_INTRWINEXIT = 0x4"
definition VMCS_PROC_BASED_VMEXEC_CTL_HLTEXIT :: u32 where [vmcs_consts]: "VMCS_PROC_BASED_VMEXEC_CTL_HLTEXIT = 0x80"
definition VMCS_PROC_BASED_VMEXEC_CTL_INVLPGEXIT :: u32 where [vmcs_consts]: "VMCS_PROC_BASED_VMEXEC_CTL_INVLPGEXIT = 0x200"
definition VMCS_PROC_BASED_VMEXEC_CTL_CR3LOADEXIT :: u32 where [vmcs_consts]: "VMCS_PROC_BASED_VMEXEC_CTL_CR3LOADEXIT = 0x8000"
definition VMCS_PROC_BASED_VMEXEC_CTL_CR3STOREXIT :: u32 where [vmcs_consts]: "VMCS_PROC_BASED_VMEXEC_CTL_CR3STOREXIT = 0x10000"
definition VMCS_PROC_BASED_VMEXEC_CTL_USEIOBMP :: u32 where [vmcs_consts]: "VMCS_PROC_BASED_VMEXEC_CTL_USEIOBMP = 0x2000000"
definition VMCS_PROC_BASED_VMEXEC_CTL_ACTIVESECCTL :: u32 where [vmcs_consts]: "VMCS_PROC_BASED_VMEXEC_CTL_ACTIVESECCTL = 0x80000000"
definition VMCS_SECONDARY_VMEXEC_CTL_ENABLE_EPT :: u32 where [vmcs_consts]: "VMCS_SECONDARY_VMEXEC_CTL_ENABLE_EPT = 0x2"
definition VMCS_SECONDARY_VMEXEC_CTL_UNRESTRICTED_GUEST :: u32 where [vmcs_consts]: "VMCS_SECONDARY_VMEXEC_CTL_UNRESTRICTED_GUEST = 0x80"
definition VMCS_VMEXIT_HOST_ADDR_SIZE :: u32 where [vmcs_consts]: "VMCS_VMEXIT_HOST_ADDR_SIZE = 0x200"
definition VMCS_VMEXIT_GUEST_ACK_INTR_ON_EXIT :: u32 where [vmcs_consts]: "VMCS_VMEXIT_GUEST_ACK_INTR_ON_EXIT = 0x8000"
definition VMCS_VMENTRY_x64_GUEST :: u32 where [vmcs_consts]: "VMCS_VMENTRY_x64_GUEST = 0x200"

text \<open>Exit reasons.\<close>

definition EXIT_REASON_MASK :: u32 where [vmcs_consts]: "EXIT_REASON_MASK = 0xFFFF"
definition EXIT_REASON_EXTERNAL_INT :: u32 where [vmcs_consts]: "EXIT_REASON_EXTERNAL_INT = 0x1"
definition EXIT_REASON_INTERRUPT_WINDOW :: u32 where [vmcs_consts]: "EXIT_REASON_INTERRUPT_WINDOW = 0x7"
definition EXIT_REASON_CPUID :: u32 where [vmcs_consts]: "EXIT_REASON_CPUID = 0xA"
definition EXIT_REASON_HLT :: u32 where [vmcs_consts]: "EXIT_REASON_HLT = 0xC"
definition EXIT_REASON_VMCALL :: u32 where [vmcs_consts]: "EXIT_REASON_VMCALL = 0x12"
definition EXIT_REASON_IO_INSTRUCTION :: u32 where [vmcs_consts]: "EXIT_REASON_IO_INSTRUCTION = 0x1E"
definition EXIT_REASON_RDMSR :: u32 where [vmcs_consts]: "EXIT_REASON_RDMSR = 0x1F"
definition EXIT_REASON_WRMSR :: u32 where [vmcs_consts]: "EXIT_REASON_WRMSR = 0x20"
definition EXIT_REASON_EPT_VIOLATION :: u32 where [vmcs_consts]: "EXIT_REASON_EPT_VIOLATION = 0x30"

section \<open>Field encodings\<close>

text \<open>
  The encodings the header defines, by group. Bits 14:13 of an encoding give the width of the
  field (0: 16 bits, 1: 64 bits, 2: 32 bits, 3: natural width), bits 11:10 its type (0: control,
  1: read-only data, 2: guest state, 3: host state); bit 0 selects the upper half of a 64-bit field.
\<close>

definition vmcs_16bit_control_fields :: "u32 list" where
  "vmcs_16bit_control_fields =
    [0x0, 0x2, 0x4]"

definition vmcs_16bit_guest_fields :: "u32 list" where
  "vmcs_16bit_guest_fields =
    [0x800, 0x802, 0x804, 0x806, 0x808, 0x80A, 0x80C, 0x80E, 0x810]"

definition vmcs_16bit_host_fields :: "u32 list" where
  "vmcs_16bit_host_fields =
    [0xC00, 0xC02, 0xC04, 0xC06, 0xC08, 0xC0A, 0xC0C]"

definition vmcs_64bit_control_fields :: "u32 list" where
  "vmcs_64bit_control_fields =
    [0x2000, 0x2001, 0x2002, 0x2003, 0x2004, 0x2005, 0x2006, 0x2007, 0x2008, 0x2009,
     0x200A, 0x200B, 0x200C, 0x200D, 0x2010, 0x2011, 0x2012, 0x2013, 0x2014, 0x2015,
     0x2016, 0x2017, 0x2018, 0x2019, 0x201A, 0x201B, 0x201C, 0x201D, 0x201E, 0x201F,
     0x2020, 0x2021, 0x2022, 0x2023, 0x2024, 0x2025, 0x2026, 0x2027, 0x2028, 0x2029,
     0x202A, 0x202B]"

definition vmcs_64bit_ro_fields :: "u32 list" where
  "vmcs_64bit_ro_fields =
    [0x2400, 0x2401]"

definition vmcs_64bit_guest_fields :: "u32 list" where
  "vmcs_64bit_guest_fields =
    [0x2800, 0x2801, 0x2802, 0x2803, 0x2804, 0x2805, 0x2806, 0x2807, 0x2808, 0x2809,
     0x280A, 0x280B, 0x280C, 0x280D, 0x280E, 0x280F, 0x2810, 0x2811]"

definition vmcs_64bit_host_fields :: "u32 list" where
  "vmcs_64bit_host_fields =
    [0x2C00, 0x2C01, 0x2C02, 0x2C03, 0x2C04, 0x2C05]"

definition vmcs_32bit_control_fields :: "u32 list" where
  "vmcs_32bit_control_fields =
    [0x4000, 0x4002, 0x4004, 0x4006, 0x4008, 0x400A, 0x400C, 0x400E, 0x4010, 0x4012,
     0x4014, 0x4016, 0x4018, 0x401A, 0x401C, 0x401E, 0x4020, 0x4022]"

definition vmcs_32bit_ro_fields :: "u32 list" where
  "vmcs_32bit_ro_fields =
    [0x4400, 0x4402, 0x4404, 0x4406, 0x4408, 0x440A, 0x440C, 0x440E]"

definition vmcs_32bit_guest_fields :: "u32 list" where
  "vmcs_32bit_guest_fields =
    [0x4800, 0x4802, 0x4804, 0x4806, 0x4808, 0x480A, 0x480C, 0x480E, 0x4810, 0x4812,
     0x4814, 0x4816, 0x4818, 0x481A, 0x481C, 0x481E, 0x4820, 0x4822, 0x4824, 0x4826,
     0x4828, 0x482A, 0x482E]"

definition vmcs_32bit_host_fields :: "u32 list" where
  "vmcs_32bit_host_fields =
    [0x4C00]"

definition vmcs_natural_control_fields :: "u32 list" where
  "vmcs_natural_control_fields =
    [0x6000, 0x6002, 0x6004, 0x6006, 0x6008, 0x600A, 0x600C, 0x600E]"

definition vmcs_natural_ro_fields :: "u32 list" where
  "vmcs_natural_ro_fields =
    [0x6400, 0x6402, 0x6404, 0x6406, 0x6408, 0x640A]"

definition vmcs_natural_guest_fields :: "u32 list" where
  "vmcs_natural_guest_fields =
    [0x6800, 0x6802, 0x6804, 0x6806, 0x6808, 0x680A, 0x680C, 0x680E, 0x6810, 0x6812,
     0x6814, 0x6816, 0x6818, 0x681A, 0x681C, 0x681E, 0x6820, 0x6822, 0x6824, 0x6826]"

definition vmcs_natural_host_fields :: "u32 list" where
  "vmcs_natural_host_fields =
    [0x6C00, 0x6C02, 0x6C04, 0x6C06, 0x6C08, 0x6C0A, 0x6C0C, 0x6C0E, 0x6C10, 0x6C12,
     0x6C14, 0x6C16]"

definition vmcs_groups :: "((u32 \<times> u32) \<times> u32 list) list" where
  "vmcs_groups =
    [((0, 0), vmcs_16bit_control_fields),
     ((0, 2), vmcs_16bit_guest_fields),
     ((0, 3), vmcs_16bit_host_fields),
     ((1, 0), vmcs_64bit_control_fields),
     ((1, 1), vmcs_64bit_ro_fields),
     ((1, 2), vmcs_64bit_guest_fields),
     ((1, 3), vmcs_64bit_host_fields),
     ((2, 0), vmcs_32bit_control_fields),
     ((2, 1), vmcs_32bit_ro_fields),
     ((2, 2), vmcs_32bit_guest_fields),
     ((2, 3), vmcs_32bit_host_fields),
     ((3, 0), vmcs_natural_control_fields),
     ((3, 1), vmcs_natural_ro_fields),
     ((3, 2), vmcs_natural_guest_fields),
     ((3, 3), vmcs_natural_host_fields)]"

definition enc_width_class :: "u32 \<Rightarrow> u32" where
  "enc_width_class f = drop_bit 13 f AND 3"

definition enc_type :: "u32 \<Rightarrow> u32" where
  "enc_type f = drop_bit 10 f AND 3"

definition enc_hi :: "u32 \<Rightarrow> bool" where
  "enc_hi f = bit f 0"

definition enc_width :: "u32 \<Rightarrow> nat" where
  "enc_width f =
     (if enc_width_class f = 0 then 16 else if enc_width_class f = 2 then 32 else 64)"

section \<open>Access to the current VMCS\<close>

text \<open>
  \<^verbatim>\<open>vmwrite\<close> keeps as many bits as the field is wide; an encoding with bit 0 set stores the upper half
  of its 64-bit field. Without a current VMCS the instruction fails; no caller reads the error
  result of \<^verbatim>\<open>vmcs_writel\<close>.
\<close>

definition vmwrite :: "u32 \<Rightarrow> u64 \<Rightarrow> (u32 \<Rightarrow> u64) \<Rightarrow> u32 \<Rightarrow> u64" where
  "vmwrite f v d =
     (if enc_hi f then d(f - 1 := push_bit 32 v OR take_bit 32 (d (f - 1)))
      else d(f := take_bit (enc_width f) v))"

definition vmread :: "u32 \<Rightarrow> (u32 \<Rightarrow> u64) \<Rightarrow> u64" where
  "vmread f d = (if enc_hi f then drop_bit 32 (d (f - 1)) else d f)"

definition vmcs_writel :: "u32 \<Rightarrow> u64 \<Rightarrow> kernel \<Rightarrow> kernel" where
  "vmcs_writel f v s =
     (case vmcs_cur s of
        None \<Rightarrow> s
      | Some p \<Rightarrow> s\<lparr>vmcs_data := (vmcs_data s)(p := vmwrite f v (vmcs_data s p))\<rparr>)"

definition vmcs_write16 :: "u32 \<Rightarrow> u16 \<Rightarrow> kernel \<Rightarrow> kernel" where
  "vmcs_write16 f v = vmcs_writel f (ucast v)"

definition vmcs_write32 :: "u32 \<Rightarrow> u32 \<Rightarrow> kernel \<Rightarrow> kernel" where
  "vmcs_write32 f v = vmcs_writel f (ucast v)"

definition vmcs_write64 :: "u32 \<Rightarrow> u64 \<Rightarrow> kernel \<Rightarrow> kernel" where
  "vmcs_write64 f v = vmcs_writel f v"

text \<open>A \<^verbatim>\<open>vmread\<close> without a current VMCS leaves the result register undefined.\<close>

definition vmcs_readl :: "u32 \<Rightarrow> kernel \<Rightarrow> u64 may_panic" where
  "vmcs_readl f s = map_option (\<lambda>p. vmread f (vmcs_data s p)) (vmcs_cur s)"

definition vmcs_read32 :: "u32 \<Rightarrow> kernel \<Rightarrow> u32 may_panic" where
  "vmcs_read32 f s = map_option ucast (vmcs_readl f s)"

definition vmcs_read64 :: "u32 \<Rightarrow> kernel \<Rightarrow> u64 may_panic" where
  "vmcs_read64 f s = vmcs_readl f s"

text \<open>A sequence of field writes, as the initialisation functions perform it.\<close>

fun vmcs_writes :: "(u32 \<times> u64) list \<Rightarrow> kernel \<Rightarrow> kernel" where
  "vmcs_writes [] s = s"
| "vmcs_writes ((f, v) # ws) s = vmcs_writes ws (vmcs_writel f v s)"

section \<open>Sequences of writes\<close>

text \<open>
  A store of fields: a write is read back as truncated to the field, other fields keep their
  value, and a field not in \<open>plain\<close> is only required to leave fields outside its own group alone.
\<close>

locale field_store =
  fixes rd :: "'f \<Rightarrow> 's \<Rightarrow> 'v option" and wr :: "'f \<Rightarrow> 'v \<Rightarrow> 's \<Rightarrow> 's"
    and trunc :: "'f \<Rightarrow> 'v \<Rightarrow> 'v" and ready :: "'s \<Rightarrow> bool" and plain :: "'f \<Rightarrow> bool"
  assumes ready_wr: "ready s \<Longrightarrow> ready (wr f v s)"
    and rd_same: "ready s \<Longrightarrow> plain f \<Longrightarrow> rd f (wr f v s) = Some (trunc f v)"
    and rd_other: "ready s \<Longrightarrow> plain f \<Longrightarrow> plain g \<Longrightarrow> f \<noteq> g \<Longrightarrow> rd g (wr f v s) = rd g s"
begin

fun wrs :: "('f \<times> 'v) list \<Rightarrow> 's \<Rightarrow> 's" where
  "wrs [] s = s"
| "wrs ((f, v) # ws) s = wrs ws (wr f v s)"

lemma ready_wrs: "ready s \<Longrightarrow> ready (wrs ws s)"
  by (induction ws s rule: wrs.induct) (auto simp: ready_wr)

lemma rd_wrs:
  assumes "ready s" "plain g" "list_all (\<lambda>w. plain (fst w)) ws"
  shows "rd g (wrs ws s) = (case map_of (rev ws) g of None \<Rightarrow> rd g s | Some v \<Rightarrow> Some (trunc g v))"
  using assms
proof (induction ws s rule: wrs.induct)
  case (2 f v ws s)
  then have IH: "rd g (wrs ws (wr f v s)) =
      (case map_of (rev ws) g of None \<Rightarrow> rd g (wr f v s) | Some v \<Rightarrow> Some (trunc g v))"
    by (simp add: ready_wr)
  show ?case
    using IH 2 by (cases "f = g") (auto simp: rd_same rd_other map_add_def split: option.splits)
qed simp

end

lemma vmcs_cur_writel [simp]: "vmcs_cur (vmcs_writel f v s) = vmcs_cur s"
  by (simp add: vmcs_writel_def split: option.split)

interpretation vmfields: field_store vmcs_readl vmcs_writel "\<lambda>f. take_bit (enc_width f)"
  "\<lambda>s. vmcs_cur s \<noteq> None" "\<lambda>f. \<not> enc_hi f"
  by unfold_locales
    (auto simp: vmcs_writel_def vmcs_readl_def vmwrite_def vmread_def split: option.splits)

lemma vmcs_writes_wrs: "vmcs_writes ws s = vmfields.wrs ws s"
  by (induction ws s rule: vmcs_writes.induct) auto

lemma vmcs_cur_writes [simp]: "vmcs_cur (vmcs_writes ws s) = vmcs_cur s"
  by (induction ws s rule: vmcs_writes.induct) auto

lemma vmcs_readl_writes:
  assumes "vmcs_cur s \<noteq> None" "\<not> enc_hi g" "list_all (\<lambda>w. \<not> enc_hi (fst w)) ws"
  shows "vmcs_readl g (vmcs_writes ws s) =
    (case map_of (rev ws) g of
       None \<Rightarrow> vmcs_readl g s | Some v \<Rightarrow> Some (take_bit (enc_width g) v))"
  using vmfields.rd_wrs [of s g ws] assms by (simp add: vmcs_writes_wrs)

text \<open>Writing the upper half of a field.\<close>

lemma vmcs_readl_hi:
  assumes "enc_hi h" "\<not> enc_hi g" "vmcs_readl g s = Some w"
  shows "vmcs_readl g (vmcs_writel h v s) =
    Some (if g = h - 1 then push_bit 32 v OR take_bit 32 w else w)"
  using assms by (auto simp: vmcs_writel_def vmcs_readl_def vmwrite_def vmread_def)

lemmas vmcs_group_defs = vmcs_groups_def vmcs_16bit_control_fields_def
  vmcs_16bit_guest_fields_def vmcs_16bit_host_fields_def vmcs_64bit_control_fields_def
  vmcs_64bit_ro_fields_def vmcs_64bit_guest_fields_def vmcs_64bit_host_fields_def
  vmcs_32bit_control_fields_def vmcs_32bit_ro_fields_def vmcs_32bit_guest_fields_def
  vmcs_32bit_host_fields_def vmcs_natural_control_fields_def vmcs_natural_ro_fields_def
  vmcs_natural_guest_fields_def vmcs_natural_host_fields_def


end
