(* ===== verification/Spinlock.thy ===== *)
theory Spinlock
  imports Kernel_State
begin

text \<open>
  The spin locks of \<^verbatim>\<open>kern/spinlock.c\<close> and the kernel lock of \<^verbatim>\<open>kern/spinlock.h\<close>, built with
  \<^verbatim>\<open>DEBUG_SPINLOCK\<close>. The first part has the operations as one CPU runs them while no other CPU
  interferes; the second has them as a step relation over the interleavings of any number of CPUs.
\<close>

section \<open>Operations\<close>

definition holding :: "nat \<Rightarrow> spinlock \<Rightarrow> bool" where
  "holding c lk \<longleftrightarrow> locked lk \<noteq> 0 \<and> lk_cpu lk = Some c"

definition spin_initlock :: "spinlock \<Rightarrow> spinlock" where
  "spin_initlock lk = lk\<lparr>locked := 0, lk_cpu := None\<rparr>"

text \<open>The atomic exchange returns the old value.\<close>

definition xchg_locked :: "u32 \<Rightarrow> spinlock \<Rightarrow> u32 \<times> spinlock" where
  "xchg_locked v lk = (locked lk, lk\<lparr>locked := v\<rparr>)"

partial_function (option) spin_wait :: "spinlock \<Rightarrow> spinlock may_panic" where
  "spin_wait lk =
     (let (old, lk') = xchg_locked 1 lk in if old \<noteq> 0 then spin_wait lk' else Some lk')"

definition spin_lock :: "nat \<Rightarrow> spinlock \<Rightarrow> spinlock may_panic" where
  "spin_lock c lk =
     (if holding c lk then None
      else do { lk \<leftarrow> spin_wait lk; Some (lk\<lparr>lk_cpu := Some c\<rparr>) })"

definition spin_unlock :: "nat \<Rightarrow> spinlock \<Rightarrow> spinlock may_panic" where
  "spin_unlock c lk =
     (if \<not> holding c lk then None
      else Some (snd (xchg_locked 0 (lk\<lparr>lk_cpu := None\<rparr>))))"

definition lock_kernel :: "kernel \<Rightarrow> kernel may_panic" where
  "lock_kernel s = do {
     lk \<leftarrow> spin_lock (this_cpu s) (kernel_lock s);
     Some (s\<lparr>kernel_lock := lk\<rparr>) }"

definition unlock_kernel :: "kernel \<Rightarrow> kernel may_panic" where
  "unlock_kernel s = do {
     lk \<leftarrow> spin_unlock (this_cpu s) (kernel_lock s);
     Some (s\<lparr>kernel_lock := lk\<rparr>) }"

definition kernel_locked :: "kernel \<Rightarrow> bool" where
  "kernel_locked s \<longleftrightarrow> holding (this_cpu s) (kernel_lock s)"

lemma spin_wait_free: "locked lk = 0 \<Longrightarrow> spin_wait lk = Some (lk\<lparr>locked := 1\<rparr>)"
  by (subst spin_wait.simps) (simp add: xchg_locked_def)

lemma lock_kernel_free:
  "locked (kernel_lock s) = 0 \<Longrightarrow>
   lock_kernel s = Some (s\<lparr>kernel_lock := \<lparr>locked = 1, lk_cpu = Some (this_cpu s)\<rparr>\<rparr>)"
  by (cases "kernel_lock s") (simp add: lock_kernel_def spin_lock_def holding_def spin_wait_free)

lemma unlock_kernel_held:
  "kernel_locked s \<Longrightarrow>
   unlock_kernel s = Some (s\<lparr>kernel_lock := \<lparr>locked = 0, lk_cpu = None\<rparr>\<rparr>)"
  by (cases "kernel_lock s")
    (simp add: kernel_locked_def unlock_kernel_def spin_unlock_def xchg_locked_def)

lemma unlock_kernel_not_held: "\<not> kernel_locked s \<Longrightarrow> unlock_kernel s = None"
  by (simp add: kernel_locked_def unlock_kernel_def spin_unlock_def)

section \<open>Interleaved execution\<close>

text \<open>
  The program point of each CPU. \<open>Outside\<close>: not using the lock. \<open>Lock_Cpu\<close>: in \<^verbatim>\<open>spin_lock\<close>, having
  read a non-zero \<^verbatim>\<open>locked\<close> and about to read \<^verbatim>\<open>cpu\<close> in \<^verbatim>\<open>holding\<close>. \<open>Spin\<close>: at the exchange.
  \<open>Record\<close>: has the lock, about to store \<^verbatim>\<open>cpu\<close>. \<open>Critical\<close>: \<^verbatim>\<open>spin_lock\<close> has returned. \<open>Unlock_Cpu\<close>,
  \<open>Clear\<close>, \<open>Release\<close>: in \<^verbatim>\<open>spin_unlock\<close>, about to read \<^verbatim>\<open>cpu\<close>, to clear it, to store 0 in \<^verbatim>\<open>locked\<close>.
\<close>

datatype pc = Outside | Lock_Cpu | Spin | Record | Critical | Unlock_Cpu | Clear | Release | Panicked

type_synonym lock_state = "spinlock \<times> (nat \<Rightarrow> pc)"

inductive lock_step :: "nat \<Rightarrow> lock_state \<Rightarrow> lock_state \<Rightarrow> bool" for c where
  lock_not_locked:
    "p c = Outside \<Longrightarrow> locked lk = 0 \<Longrightarrow> lock_step c (lk, p) (lk, p(c := Spin))"
| lock_read_locked:
    "p c = Outside \<Longrightarrow> locked lk \<noteq> 0 \<Longrightarrow> lock_step c (lk, p) (lk, p(c := Lock_Cpu))"
| lock_not_mine:
    "p c = Lock_Cpu \<Longrightarrow> lk_cpu lk \<noteq> Some c \<Longrightarrow> lock_step c (lk, p) (lk, p(c := Spin))"
| lock_already_mine:
    "p c = Lock_Cpu \<Longrightarrow> lk_cpu lk = Some c \<Longrightarrow> lock_step c (lk, p) (lk, p(c := Panicked))"
| spin:
    "p c = Spin \<Longrightarrow> xchg_locked 1 lk = (old, lk') \<Longrightarrow> old \<noteq> 0 \<Longrightarrow> lock_step c (lk, p) (lk', p)"
| acquire:
    "p c = Spin \<Longrightarrow> xchg_locked 1 lk = (0, lk') \<Longrightarrow>
     lock_step c (lk, p) (lk', p(c := Record))"
| record_cpu:
    "p c = Record \<Longrightarrow> lock_step c (lk, p) (lk\<lparr>lk_cpu := Some c\<rparr>, p(c := Critical))"
| unlock_read_locked:
    "p c = Critical \<Longrightarrow> locked lk \<noteq> 0 \<Longrightarrow> lock_step c (lk, p) (lk, p(c := Unlock_Cpu))"
| unlock_not_locked:
    "p c = Critical \<Longrightarrow> locked lk = 0 \<Longrightarrow> lock_step c (lk, p) (lk, p(c := Panicked))"
| unlock_mine:
    "p c = Unlock_Cpu \<Longrightarrow> lk_cpu lk = Some c \<Longrightarrow> lock_step c (lk, p) (lk, p(c := Clear))"
| unlock_not_mine:
    "p c = Unlock_Cpu \<Longrightarrow> lk_cpu lk \<noteq> Some c \<Longrightarrow> lock_step c (lk, p) (lk, p(c := Panicked))"
| clear_cpu:
    "p c = Clear \<Longrightarrow> lock_step c (lk, p) (lk\<lparr>lk_cpu := None\<rparr>, p(c := Release))"
| release:
    "p c = Release \<Longrightarrow> lock_step c (lk, p) (snd (xchg_locked 0 lk), p(c := Outside))"

inductive_cases lock_stepE: "lock_step c (lk, p) (lk', p')"

definition initial_lock :: "lock_state \<Rightarrow> bool" where
  "initial_lock st \<longleftrightarrow> fst st = spin_initlock (fst st) \<and> snd st = (\<lambda>_. Outside)"

inductive lock_reachable :: "lock_state \<Rightarrow> bool" where
  start: "initial_lock st \<Longrightarrow> lock_reachable st"
| step: "lock_reachable st \<Longrightarrow> lock_step c st st' \<Longrightarrow> lock_reachable st'"

text \<open>The program points at which a CPU owns the lock, and those at which it is registered.\<close>

definition owns :: "pc \<Rightarrow> bool" where
  "owns q \<longleftrightarrow> q \<in> {Record, Critical, Unlock_Cpu, Clear, Release}"

definition registered :: "pc \<Rightarrow> bool" where
  "registered q \<longleftrightarrow> q \<in> {Critical, Unlock_Cpu, Clear}"

definition lock_inv :: "lock_state \<Rightarrow> bool" where
  "lock_inv st \<longleftrightarrow> (\<exists>w. (locked (fst st) \<noteq> 0 \<longleftrightarrow> w \<noteq> None) \<and>
     (\<forall>c. (owns (snd st c) \<longleftrightarrow> w = Some c) \<and>
          (registered (snd st c) \<longleftrightarrow> lk_cpu (fst st) = Some c) \<and> snd st c \<noteq> Panicked))"

lemma owns_simps [simp]:
  "\<not> owns Outside" "\<not> owns Lock_Cpu" "\<not> owns Spin" "owns Record" "owns Critical" "owns Unlock_Cpu"
  "owns Clear" "owns Release" "\<not> owns Panicked"
  by (simp_all add: owns_def)

lemma registered_simps [simp]:
  "\<not> registered Outside" "\<not> registered Lock_Cpu" "\<not> registered Spin" "\<not> registered Record"
  "registered Critical" "registered Unlock_Cpu" "registered Clear" "\<not> registered Release"
  "\<not> registered Panicked"
  by (simp_all add: registered_def)

lemma registered_owns: "registered q \<Longrightarrow> owns q"
  by (auto simp: registered_def owns_def)

lemma lock_inv_initial: "initial_lock st \<Longrightarrow> lock_inv st"
  by (cases st; cases "fst st") (auto simp: initial_lock_def lock_inv_def spin_initlock_def)

text \<open>The ways in which a CPU may move without breaking the invariant.\<close>

definition good_move :: "nat \<Rightarrow> spinlock \<Rightarrow> pc \<Rightarrow> spinlock \<Rightarrow> pc \<Rightarrow> bool" where
  "good_move c lk q lk' q' \<longleftrightarrow> q' \<noteq> Panicked \<and>
     (if owns q = owns q' then (locked lk' \<noteq> 0 \<longleftrightarrow> locked lk \<noteq> 0)
      else if owns q' then locked lk = 0 \<and> locked lk' \<noteq> 0 else locked lk' = 0) \<and>
     (if registered q = registered q' then lk_cpu lk' = lk_cpu lk
      else if registered q' then owns q \<and> lk_cpu lk' = Some c else lk_cpu lk' = None)"

lemma lock_inv_locked: "lock_inv (lk, p) \<Longrightarrow> owns (p c) \<Longrightarrow> locked lk \<noteq> 0"
  by (auto simp: lock_inv_def)

lemma lock_inv_cpu: "lock_inv (lk, p) \<Longrightarrow> registered (p c) \<longleftrightarrow> lk_cpu lk = Some c"
  by (auto simp: lock_inv_def)

lemma lock_inv_unique: "lock_inv (lk, p) \<Longrightarrow> owns (p c) \<Longrightarrow> owns (p d) \<Longrightarrow> c = d"
  by (auto simp: lock_inv_def)

lemma lock_inv_move:
  assumes inv: "lock_inv (lk, p)" and move: "good_move c lk (p c) lk' q'"
  shows "lock_inv (lk', p(c := q'))"
proof -
  from inv obtain w where w: "locked lk \<noteq> 0 \<longleftrightarrow> w \<noteq> None"
    and own: "\<forall>d. owns (p d) \<longleftrightarrow> w = Some d" and reg: "\<forall>d. registered (p d) \<longleftrightarrow> lk_cpu lk = Some d"
    and ok: "\<forall>d. p d \<noteq> Panicked"
    by (auto simp: lock_inv_def)
  let ?w = "if owns (p c) = owns q' then w else if owns q' then Some c else None"
  have "locked lk' \<noteq> 0 \<longleftrightarrow> ?w \<noteq> None"
    using move w by (auto simp: good_move_def split: if_splits)
  moreover have "owns ((p(c := q')) d) \<longleftrightarrow> ?w = Some d" for d
    using move w own by (cases "d = c") (auto simp: good_move_def split: if_splits)
  moreover have "registered ((p(c := q')) d) \<longleftrightarrow> lk_cpu lk' = Some d" for d
    using move reg own lock_inv_unique [OF inv, of c d] registered_owns [of "p d"]
    by (cases "d = c") (auto simp: good_move_def split: if_splits)
  moreover have "(p(c := q')) d \<noteq> Panicked" for d
    using ok move by (simp add: good_move_def)
  ultimately show ?thesis unfolding lock_inv_def fst_conv snd_conv by blast
qed

lemma lock_inv_step:
  assumes inv: "lock_inv (lk, p)" and step: "lock_step c (lk, p) (lk', p')"
  shows "lock_inv (lk', p')"
proof -
  note at_c = lock_inv_locked [OF inv, of c] lock_inv_cpu [OF inv, of c]
  have "p' = p(c := p' c) \<and> good_move c lk (p c) lk' (p' c)"
    by (insert at_c, rule lock_stepE [OF step])
      (simp_all add: good_move_def xchg_locked_def, (auto simp: fun_eq_iff)+)
  then show ?thesis using lock_inv_move [OF inv, of c lk' "p' c"] by simp
qed

lemma lock_reachable_inv: "lock_reachable st \<Longrightarrow> lock_inv st"
proof (induction rule: lock_reachable.induct)
  case (step st c st')
  then show ?case using lock_inv_step [of "fst st" "snd st" c "fst st'" "snd st'"] by simp
qed (rule lock_inv_initial)

text \<open>
  C7. Mutual exclusion under every interleaving of any number of CPUs: from an initialised lock, at most
  one CPU is between the exchange of \<^verbatim>\<open>spin_lock\<close> and the exchange of \<^verbatim>\<open>spin_unlock\<close>, the lock word is
  then non-zero, and the debug checks of \<^verbatim>\<open>holding\<close>, which read the lock word and the owner in two
  steps, never panic a CPU that pairs its calls.
\<close>

theorem spinlock_mutual_exclusion:
  assumes "lock_reachable (lk, p)"
  shows "(owns (p c) \<longrightarrow> owns (p d) \<longrightarrow> c = d) \<and> (owns (p c) \<longrightarrow> locked lk \<noteq> 0) \<and> p c \<noteq> Panicked"
  using lock_reachable_inv [OF assms] by (auto simp: lock_inv_def)

text \<open>A run in which CPU 0 acquires the lock while CPU 1 spins.\<close>

definition free_lock :: spinlock where
  "free_lock = \<lparr>locked = 0, lk_cpu = None\<rparr>"

definition contended :: lock_state where
  "contended = (\<lparr>locked = 1, lk_cpu = Some 0\<rparr>, (\<lambda>_. Outside)(0 := Critical, 1 := Spin))"

lemma contended_reachable: "lock_reachable contended"
proof -
  have r0: "lock_reachable (free_lock, \<lambda>_. Outside)"
    by (rule start) (simp add: initial_lock_def free_lock_def spin_initlock_def)
  have r1: "lock_reachable (free_lock, (\<lambda>_. Outside)(0 := Spin))"
    by (rule step [OF r0 lock_not_locked [of _ 0]]) (simp_all add: free_lock_def)
  have r2: "lock_reachable (free_lock, (\<lambda>_. Outside)(0 := Spin, 1 := Spin))"
    by (rule step [OF r1 lock_not_locked [of _ 1]]) (simp_all add: free_lock_def)
  have r3: "lock_reachable (free_lock\<lparr>locked := 1\<rparr>, (\<lambda>_. Outside)(0 := Spin, 1 := Spin, 0 := Record))"
    by (rule step [OF r2 acquire [of _ 0]]) (simp_all add: free_lock_def xchg_locked_def)
  have "lock_reachable (free_lock\<lparr>locked := 1\<rparr>\<lparr>lk_cpu := Some 0\<rparr>,
      (\<lambda>_. Outside)(0 := Spin, 1 := Spin, 0 := Record, 0 := Critical))"
    by (rule step [OF r3 record_cpu [of _ 0]]) simp
  moreover have "((\<lambda>_::nat. Outside)(1 := Spin))(0 := Critical) =
      ((\<lambda>_. Outside)(0 := Critical))(1 := Spin)" by (rule fun_upd_twist) simp
  ultimately show ?thesis by (simp add: contended_def free_lock_def)
qed

theorem spinlock_mutual_exclusion_witness:
  "owns (snd contended 0) \<and> \<not> owns (snd contended 1) \<and> locked (fst contended) \<noteq> 0"
  using spinlock_mutual_exclusion [of "fst contended" "snd contended" 0 1] contended_reachable
  by (simp add: contended_def)

lemma lock_step_enabled:
  assumes "p c \<noteq> Panicked"
  shows "\<exists>st'. lock_step c (lk, p) st'"
  using assms by (cases "p c") (auto simp: lock_step.simps xchg_locked_def)

text \<open>The owner's next step takes it to the next program point.\<close>

lemma lock_step_owner:
  assumes inv: "lock_inv (lk, p)" and d: "owns (p d)"
  shows "\<exists>lk' q. lock_step d (lk, p) (lk', p(d := q)) \<and> q \<noteq> p d \<and> q \<noteq> Panicked"
proof -
  note at_d = lock_inv_locked [OF inv d] lock_inv_cpu [OF inv, of d]
  consider "p d = Record" | "p d = Critical" | "p d = Unlock_Cpu" | "p d = Clear" | "p d = Release"
    using d by (cases "p d") auto
  then show ?thesis
  proof cases
    case 1 then show ?thesis using record_cpu [of p d lk] by fastforce
  next
    case 2 then show ?thesis using unlock_read_locked [of p d lk] at_d by fastforce
  next
    case 3 then show ?thesis using unlock_mine [of p d lk] at_d by fastforce
  next
    case 4 then show ?thesis using clear_cpu [of p d lk] by fastforce
  next
    case 5 then show ?thesis using release [of p d lk] by fastforce
  qed
qed



text \<open>
  The operations as one CPU runs them: locking a free lock and unlocking it again gives back the free
  lock; locking it twice and unlocking a lock that is not held do not return (both panic).
\<close>

theorem spin_lock_roundtrip:
  assumes "locked lk = 0" "lk_cpu lk = None"
  shows "\<exists>lk'. spin_lock c lk = Some lk' \<and> holding c lk' \<and> spin_unlock c lk' = Some lk \<and>
    spin_lock c lk' = None \<and> spin_unlock c lk = None \<and> (d \<noteq> c \<longrightarrow> spin_unlock d lk' = None)"
  using assms
  by (cases lk) (auto simp: spin_lock_def spin_unlock_def holding_def spin_wait_free xchg_locked_def)

theorem spin_lock_roundtrip_witness:
  "\<exists>lk'. spin_lock 0 free_lock = Some lk' \<and> spin_unlock 0 lk' = Some free_lock \<and>
     spin_unlock 1 lk' = None"
  using spin_lock_roundtrip [of free_lock 0 1] by (auto simp: free_lock_def)

end
