(* ===== verification/Vmx.thy ===== *)
theory Vmx
  imports Page_Alloc Vmcs Spinlock
begin

text \<open>
  Entering VMX operation and running a guest: \<^verbatim>\<open>vmm/vmx.c\<close> without \<^verbatim>\<open>vmexit\<close>, and \<^verbatim>\<open>vmm/vmx_asm.h\<close>. What
  the processor decides is a parameter, the record \<open>machine\<close>: what \<^verbatim>\<open>cpuid\<close> returns, what a write to a
  model-specific register leaves in it, whether the VMX instructions report an error, and the addresses
  that the code reads from registers or that the linker fixes.
\<close>

section \<open>The processor\<close>

record machine =
  cpuid_leaf :: "u32 \<Rightarrow> u32 \<times> u32 \<times> u32 \<times> u32"
  wrmsr_result :: "u32 \<Rightarrow> u64 \<Rightarrow> u64 \<Rightarrow> u64"
  vmxon_fails :: "u64 \<Rightarrow> kernel \<Rightarrow> bool"
  vmclear_fails :: "u64 \<Rightarrow> kernel \<Rightarrow> bool"
  vmptrld_fails :: "u64 \<Rightarrow> kernel \<Rightarrow> bool"
  idtr_base :: u64
  gdtr_base :: u64
  cpu_ts_addr :: "nat \<Rightarrow> u64"
  vmx_return :: u64

definition read_msr :: "u32 \<Rightarrow> kernel \<Rightarrow> u64" where
  "read_msr i s = msrs s i"

definition write_msr :: "machine \<Rightarrow> u32 \<Rightarrow> u64 \<Rightarrow> kernel \<Rightarrow> kernel" where
  "write_msr hw i v s = s\<lparr>msrs := (msrs s)(i := wrmsr_result hw i (msrs s i) v)\<rparr>"

definition vmxon :: "machine \<Rightarrow> u64 \<Rightarrow> kernel \<Rightarrow> u8" where
  "vmxon hw pa s = of_bool (vmxon_fails hw pa s)"

definition vmclear :: "machine \<Rightarrow> u64 \<Rightarrow> kernel \<Rightarrow> u8 \<times> kernel" where
  "vmclear hw pa s =
     (if vmclear_fails hw pa s then (1, s)
      else (0, if vmcs_cur s = Some pa then s\<lparr>vmcs_cur := None\<rparr> else s))"

definition vmptrld :: "machine \<Rightarrow> u64 \<Rightarrow> kernel \<Rightarrow> u8 \<times> kernel" where
  "vmptrld hw pa s = (if vmptrld_fails hw pa s then (1, s) else (0, s\<lparr>vmcs_cur := Some pa\<rparr>))"

section \<open>Listing and resuming guests\<close>

text \<open>\<^verbatim>\<open>vmx_list_vms\<close> prints the numbers and ids of the guests, here the list it prints.\<close>

fun list_vms_from :: "nat list \<Rightarrow> nat \<Rightarrow> kernel \<Rightarrow> (nat \<times> u32) list" where
  "list_vms_from [] vm_count s = []"
| "list_vms_from (i # is) vm_count s =
     (if env_type (envs s i) = ENV_TYPE_GUEST
      then (vm_count + 1, env_id (envs s i)) # list_vms_from is (vm_count + 1) s
      else list_vms_from is vm_count s)"

definition vmx_list_vms :: "kernel \<Rightarrow> (nat \<times> u32) list" where
  "vmx_list_vms s = list_vms_from [0..<NENV] 0 s"

fun sel_resume_from :: "nat list \<Rightarrow> nat \<Rightarrow> int \<Rightarrow> kernel \<Rightarrow> bool \<times> kernel" where
  "sel_resume_from [] vm_count num s = (False, s)"
| "sel_resume_from (i # is) vm_count num s =
     (if env_type (envs s i) = ENV_TYPE_GUEST
      then if int (vm_count + 1) = num
           then (True, upd_env i (env_status_update (\<lambda>_. ENV_RUNNABLE)) s)
           else sel_resume_from is (vm_count + 1) num s
      else sel_resume_from is vm_count num s)"

definition vmx_sel_resume :: "int \<Rightarrow> kernel \<Rightarrow> bool \<times> kernel" where
  "vmx_sel_resume num s = sel_resume_from [0..<NENV] 0 num s"

section \<open>Processor support\<close>

definition vmx_check_support :: "machine \<Rightarrow> bool" where
  "vmx_check_support hw =
     (let (eax, ebx, ecx, edx) = cpuid_leaf hw 1 in BIT_AT (ucast ecx) 5 = 1)"

definition vmx_check_ept :: "kernel \<Rightarrow> bool" where
  "vmx_check_ept s \<longleftrightarrow>
     BIT_AT (read_msr IA32_VMX_PROCBASED_CTLS s) 63 = 1 \<and>
     BIT_AT (read_msr IA32_VMX_PROCBASED_CTLS2 s) 33 = 1"

function check_fixed_bits_from :: "nat \<Rightarrow> u64 \<Rightarrow> u64 \<Rightarrow> u64 \<Rightarrow> bool may_panic" where
  "check_fixed_bits_from i curr_val fixed0 fixed1 =
     (if i < 64 then
        (let b = BIT_AT curr_val i in
         if b = 1 then
           if BIT_AT fixed1 i = 0 then Some False
           else check_fixed_bits_from (i + 1) curr_val fixed0 fixed1
         else if b = 0 then
           if BIT_AT fixed0 i = 1 then Some False
           else check_fixed_bits_from (i + 1) curr_val fixed0 fixed1
         else None)
      else Some True)"
  by auto
termination by (relation "measure (\<lambda>(i, _). 64 - i)") auto

declare check_fixed_bits_from.simps [simp del]

definition check_fixed_bits :: "u64 \<Rightarrow> u64 \<Rightarrow> u64 \<Rightarrow> bool may_panic" where
  "check_fixed_bits = check_fixed_bits_from 0"

section \<open>VMX operation\<close>

definition vmx_init_vmcs :: "kernel \<Rightarrow> (nat option \<times> kernel) may_panic" where
  "vmx_init_vmcs s =
     (let vmx_basic_msr = read_msr IA32_VMX_BASIC s;
          vmcs_rev_id = ucast vmx_basic_msr :: u32;
          vmcs_num_bytes = ucast (drop_bit 32 vmx_basic_msr AND 0xFFF) :: u32
      in do {
        guard_panic (vmcs_num_bytes \<le> 4096);
        (pp, s) \<leftarrow> page_alloc ALLOC_ZERO s;
        case pp of
          None \<Rightarrow> Some (None, s)
        | Some p \<Rightarrow> do {
            let s = page_incref p s;
            vmxon_region \<leftarrow> page2kva s p;
            s \<leftarrow> store32 vmxon_region vmcs_rev_id s;
            Some (Some p, s) } })"

text \<open>The part of \<^verbatim>\<open>vmx_init_vmxon\<close> that programs \<^verbatim>\<open>IA32_FEATURE_CONTROL\<close>; false if VMX stays disabled.\<close>

definition enable_feature_control :: "machine \<Rightarrow> kernel \<Rightarrow> bool \<times> kernel" where
  "enable_feature_control hw s =
     (let fc = read_msr IA32_FEATURE_CONTROL s;
          s1 = (if BIT_AT fc 2 = 0 then write_msr hw IA32_FEATURE_CONTROL (fc OR 4) s else s);
          fc1 = read_msr IA32_FEATURE_CONTROL s1
      in if BIT_AT fc1 2 = 0 then (False, s1)
         else (True, if BIT_AT fc1 0 = 0 then write_msr hw IA32_FEATURE_CONTROL (fc1 OR 1) s1 else s1))"

definition vmx_init_vmxon :: "machine \<Rightarrow> kernel \<Rightarrow> (int \<times> kernel) may_panic" where
  "vmx_init_vmxon hw s = do {
     (pp, s) \<leftarrow> vmx_init_vmcs s;
     case pp of
       None \<Rightarrow> Some (- E_NO_MEM, s)
     | Some p \<Rightarrow> do {
         let c0 = cr0 s OR CR0_NE;
         let c4 = cr4 s;
         let s = s\<lparr>cr0 := c0\<rparr>;
         ret \<leftarrow> check_fixed_bits c0 (read_msr IA32_VMX_CR0_FIXED0 s) (read_msr IA32_VMX_CR0_FIXED1 s);
         if \<not> ret then Some (- E_VMX_ON, page_decref p s)
         else do {
           let c4 = c4 OR CR4_VMXE;
           let s = s\<lparr>cr4 := c4\<rparr>;
           ret \<leftarrow> check_fixed_bits c4 (read_msr IA32_VMX_CR4_FIXED0 s)
             (read_msr IA32_VMX_CR4_FIXED1 s);
           if \<not> ret then Some (- E_VMX_ON, page_decref p s)
           else
             let (enabled, s) = enable_feature_control hw s in
             if \<not> enabled then Some (- E_NO_VMX, page_decref p s)
             else if vmxon hw (page2pa p) s \<noteq> 0 then Some (- E_VMX_ON, page_decref p s)
             else do {
               kva \<leftarrow> page2kva s p;
               Some (0, upd_thiscpu (\<lambda>c. c\<lparr>is_vmx_root := True, vmxon_region := kva\<rparr>) s) } } } }"

section \<open>Initial contents of a VMCS\<close>

definition vmcs_host_init :: "machine \<Rightarrow> kernel \<Rightarrow> kernel" where
  "vmcs_host_init hw s = vmcs_writes
     [(VMCS_HOST_CR0, cr0 s),
      (VMCS_HOST_CR3, cr3 s),
      (VMCS_HOST_CR4, cr4 s),
      (VMCS_16BIT_HOST_ES_SELECTOR, ucast GD_KD),
      (VMCS_16BIT_HOST_SS_SELECTOR, ucast GD_KD),
      (VMCS_16BIT_HOST_DS_SELECTOR, ucast GD_KD),
      (VMCS_16BIT_HOST_FS_SELECTOR, ucast GD_KD),
      (VMCS_16BIT_HOST_GS_SELECTOR, ucast GD_KD),
      (VMCS_16BIT_HOST_CS_SELECTOR, ucast GD_KT),
      (VMCS_16BIT_HOST_TR_SELECTOR,
         ucast (push_bit 3 (drop_bit 3 GD_TSS0 + ucast (cpu_id (thiscpu s)) * 2) :: u16)),
      (VMCS_HOST_IDTR_BASE, idtr_base hw),
      (VMCS_HOST_GDTR_BASE, gdtr_base hw),
      (VMCS_HOST_FS_BASE, 0),
      (VMCS_HOST_GS_BASE, 0),
      (VMCS_HOST_TR_BASE, cpu_ts_addr hw (this_cpu s)),
      (VMCS_HOST_RIP, vmx_return hw)] s"

definition vmcs_guest_init :: "kernel \<Rightarrow> kernel" where
  "vmcs_guest_init s = vmcs_writes
     [(VMCS_GUEST_DR7, 0),
      (VMCS_GUEST_RFLAGS, 2)]
    (vmcs_writel VMCS_64BIT_GUEST_LINK_POINTER_HI 0xFFFFFFFF (vmcs_writes
     [(VMCS_16BIT_GUEST_CS_SELECTOR, 0),
      (VMCS_16BIT_GUEST_ES_SELECTOR, 0),
      (VMCS_16BIT_GUEST_SS_SELECTOR, 0),
      (VMCS_16BIT_GUEST_DS_SELECTOR, 0),
      (VMCS_16BIT_GUEST_FS_SELECTOR, 0),
      (VMCS_16BIT_GUEST_GS_SELECTOR, 0),
      (VMCS_16BIT_GUEST_TR_SELECTOR, 0),
      (VMCS_16BIT_GUEST_LDTR_SELECTOR, 0),
      (VMCS_GUEST_CS_BASE, 0),
      (VMCS_GUEST_ES_BASE, 0),
      (VMCS_GUEST_SS_BASE, 0),
      (VMCS_GUEST_DS_BASE, 0),
      (VMCS_GUEST_FS_BASE, 0),
      (VMCS_GUEST_GS_BASE, 0),
      (VMCS_GUEST_LDTR_BASE, 0),
      (VMCS_GUEST_GDTR_BASE, 0),
      (VMCS_GUEST_IDTR_BASE, 0),
      (VMCS_GUEST_TR_BASE, 0),
      (VMCS_32BIT_GUEST_CS_LIMIT, 0xFFFF),
      (VMCS_32BIT_GUEST_ES_LIMIT, 0xFFFF),
      (VMCS_32BIT_GUEST_SS_LIMIT, 0xFFFF),
      (VMCS_32BIT_GUEST_DS_LIMIT, 0xFFFF),
      (VMCS_32BIT_GUEST_FS_LIMIT, 0xFFFF),
      (VMCS_32BIT_GUEST_GS_LIMIT, 0xFFFF),
      (VMCS_32BIT_GUEST_LDTR_LIMIT, 0xFFFF),
      (VMCS_32BIT_GUEST_TR_LIMIT, 0xFFFFF),
      (VMCS_32BIT_GUEST_GDTR_LIMIT, 0x30),
      (VMCS_32BIT_GUEST_IDTR_LIMIT, 0x3FF),
      (VMCS_32BIT_GUEST_CS_ACCESS_RIGHTS, 0x93),
      (VMCS_32BIT_GUEST_ES_ACCESS_RIGHTS, 0x93),
      (VMCS_32BIT_GUEST_SS_ACCESS_RIGHTS, 0x93),
      (VMCS_32BIT_GUEST_DS_ACCESS_RIGHTS, 0x93),
      (VMCS_32BIT_GUEST_FS_ACCESS_RIGHTS, 0x93),
      (VMCS_32BIT_GUEST_GS_ACCESS_RIGHTS, 0x93),
      (VMCS_32BIT_GUEST_LDTR_ACCESS_RIGHTS, 0x82),
      (VMCS_32BIT_GUEST_TR_ACCESS_RIGHTS, 0x8B),
      (VMCS_32BIT_GUEST_ACTIVITY_STATE, 0),
      (VMCS_32BIT_GUEST_INTERRUPTIBILITY_STATE, 0),
      (VMCS_GUEST_CR3, 0),
      (VMCS_GUEST_CR0, CR0_NE),
      (VMCS_GUEST_CR4, CR4_VMXE),
      (VMCS_64BIT_GUEST_LINK_POINTER, 0xFFFFFFFF)] s))"

definition vmx_read_capability_msr :: "u32 \<Rightarrow> kernel \<Rightarrow> u32 \<times> u32" where
  "vmx_read_capability_msr msr s =
     (let msr_val = read_msr msr s in (ucast (drop_bit 32 msr_val), ucast msr_val))"

text \<open>
  The five capability registers give the bits that may be 1 (high half) and those that must be 1 (low
  half); the code adds what it wants and masks with what is allowed.
\<close>

definition vmcs_ctls_init :: "nat \<Rightarrow> kernel \<Rightarrow> kernel may_panic" where
  "vmcs_ctls_init e s =
     (let vi = env_vmxinfo (envs s e);
          (pin_and, pin_or) = vmx_read_capability_msr IA32_VMX_PINBASED_CTLS s;
          pin_or = pin_or OR VMCS_PIN_BASED_VMEXEC_CTL_EXINTEXIT;
          s = vmcs_write32 VMCS_32BIT_CONTROL_PIN_BASED_EXEC_CONTROLS (pin_or AND pin_and) s;
          (proc_and, proc_or) = vmx_read_capability_msr IA32_VMX_PROCBASED_CTLS s
      in do {
        guard_panic (BIT_AT (ucast proc_and) 31 = 1);
        let proc_or = proc_or OR VMCS_PROC_BASED_VMEXEC_CTL_ACTIVESECCTL;
        let proc_or = proc_or OR VMCS_PROC_BASED_VMEXEC_CTL_HLTEXIT;
        let proc_or = proc_or OR VMCS_PROC_BASED_VMEXEC_CTL_USEIOBMP;
        let proc_or = proc_or AND NOT (VMCS_PROC_BASED_VMEXEC_CTL_CR3LOADEXIT OR
          VMCS_PROC_BASED_VMEXEC_CTL_CR3STOREXIT OR VMCS_PROC_BASED_VMEXEC_CTL_INVLPGEXIT);
        let s = vmcs_write32 VMCS_32BIT_CONTROL_PROCESSOR_BASED_VMEXEC_CONTROLS
          (proc_or AND proc_and) s;
        let (proc2_and, proc2_or) = vmx_read_capability_msr IA32_VMX_PROCBASED_CTLS2 s;
        let proc2_or = proc2_or OR VMCS_SECONDARY_VMEXEC_CTL_ENABLE_EPT;
        let proc2_or = proc2_or OR VMCS_SECONDARY_VMEXEC_CTL_UNRESTRICTED_GUEST;
        let s = vmcs_write32 VMCS_32BIT_CONTROL_SECONDARY_VMEXEC_CONTROLS
          (proc2_or AND proc2_and) s;
        let (exit_and, exit_or) = vmx_read_capability_msr IA32_VMX_EXIT_CTLS s;
        let exit_or = exit_or OR VMCS_VMEXIT_HOST_ADDR_SIZE;
        let exit_or = exit_or OR VMCS_VMEXIT_GUEST_ACK_INTR_ON_EXIT;
        let s = vmcs_write32 VMCS_32BIT_CONTROL_VMEXIT_CONTROLS (exit_or AND exit_and) s;
        guest_area \<leftarrow> PADDR (msr_guest_area vi);
        let s = vmcs_write64 VMCS_64BIT_CONTROL_VMEXIT_MSR_STORE_ADDR guest_area s;
        let s = vmcs_write32 VMCS_32BIT_CONTROL_VMEXIT_MSR_STORE_COUNT (of_nat (msr_count vi)) s;
        host_area \<leftarrow> PADDR (msr_host_area vi);
        let s = vmcs_write64 VMCS_64BIT_CONTROL_VMEXIT_MSR_LOAD_ADDR host_area s;
        let s = vmcs_write32 VMCS_32BIT_CONTROL_VMEXIT_MSR_LOAD_COUNT (of_nat (msr_count vi)) s;
        let (entry_and, entry_or) = vmx_read_capability_msr IA32_VMX_ENTRY_CTLS s;
        let s = vmcs_write64 VMCS_64BIT_CONTROL_VMENTRY_MSR_LOAD_ADDR guest_area s;
        let s = vmcs_write32 VMCS_32BIT_CONTROL_VMENTRY_MSR_LOAD_COUNT (of_nat (msr_count vi)) s;
        let s = vmcs_write32 VMCS_32BIT_CONTROL_VMENTRY_CONTROLS (entry_or AND entry_and) s;
        let ept_ptr = env_cr3 (envs s e) OR push_bit 3 (of_nat (EPT_LEVELS - 1));
        let s = vmcs_write64 VMCS_64BIT_CONTROL_EPTPTR ept_ptr s;
        let s = vmcs_write32 VMCS_32BIT_CONTROL_EXCEPTION_BITMAP (exception_bmap vi) s;
        bmap_a \<leftarrow> PADDR (io_bmap_a vi);
        let s = vmcs_write64 VMCS_64BIT_CONTROL_IO_BITMAP_A bmap_a s;
        bmap_b \<leftarrow> PADDR (io_bmap_b vi);
        Some (vmcs_write64 VMCS_64BIT_CONTROL_IO_BITMAP_B bmap_b s) })"

section \<open>The MSR areas and the I/O bitmaps\<close>

text \<open>
  An entry of an MSR area: index at offset 0, reserved word at 4, value at 8. \<^verbatim>\<open>msr_setup\<close> has a single
  entry, \<^verbatim>\<open>EFER\<close>.
\<close>

definition MAX_MSR_COUNT :: nat where "MAX_MSR_COUNT = (4096 div 2) div (128 div 8)"

definition msr_entry :: "u64 \<Rightarrow> nat \<Rightarrow> u64" where
  "msr_entry area i = area + 16 * of_nat i"

fun msr_setup_from :: "nat \<Rightarrow> u32 list \<Rightarrow> VmxGuestInfo \<Rightarrow> kernel \<Rightarrow> kernel may_panic" where
  "msr_setup_from i [] vi s = Some s"
| "msr_setup_from i (idx # idxs) vi s = do {
     s \<leftarrow> store32 (msr_entry (msr_host_area vi) i) idx s;
     s \<leftarrow> store64 (msr_entry (msr_host_area vi) i + 8) (read_msr idx s) s;
     s \<leftarrow> store32 (msr_entry (msr_guest_area vi) i) idx s;
     msr_setup_from (i + 1) idxs vi s }"

definition msr_setup :: "nat \<Rightarrow> kernel \<Rightarrow> kernel may_panic" where
  "msr_setup e s =
     (let idx = [EFER_MSR]; count = length idx in do {
        guard_panic (count \<le> MAX_MSR_COUNT);
        let s = upd_env e (\<lambda>x. x\<lparr>env_vmxinfo := (env_vmxinfo x)\<lparr>msr_count := count\<rparr>\<rparr>) s;
        msr_setup_from 0 idx (env_vmxinfo (envs s e)) s })"

definition IO_RTC :: u32 where [const_defs]: "IO_RTC = 0x70"

definition set_bit64 :: "u64 \<Rightarrow> u32 \<Rightarrow> kernel \<Rightarrow> kernel may_panic" where
  "set_bit64 bmap port s = do {
     let a = entry bmap (ucast (port div 64));
     w \<leftarrow> load64 s a;
     store64 a (w OR push_bit (unat (port AND 0x3F)) 1) s }"

fun bitmap_setup_ports :: "u32 list \<Rightarrow> VmxGuestInfo \<Rightarrow> kernel \<Rightarrow> kernel may_panic" where
  "bitmap_setup_ports [] vi s = Some s"
| "bitmap_setup_ports (port # ports) vi s = do {
     s \<leftarrow> (if port < 0x7FFF then set_bit64 (io_bmap_a vi) port s
           else if port < 0xFFFF then set_bit64 (io_bmap_b vi) port s
           else None);
     bitmap_setup_ports ports vi s }"

definition bitmap_setup :: "VmxGuestInfo \<Rightarrow> kernel \<Rightarrow> kernel may_panic" where
  "bitmap_setup vi s = bitmap_setup_ports [IO_RTC, IO_RTC + 1] vi s"

section \<open>Running a guest\<close>

text \<open>
  Where control goes when a kernel function does not simply return: into guest or user mode, into the
  halted state, or into the kernel monitor. \<open>vm_entry\<close> is what the processor finds at the entry:
  whether \<^verbatim>\<open>vmlaunch\<close> or \<^verbatim>\<open>vmresume\<close> is executed, and the guest's registers.
\<close>

record vm_entry =
  entry_launch :: bool
  entry_regs :: PushRegs
  entry_cr2 :: u64

datatype 'a exec = Returns 'a | Enter_Guest nat vm_entry | Enter_User nat | Halted | Monitor

text \<open>
  \<^verbatim>\<open>asm_vmrun\<close> up to the VM entry. The assembly loads every general register but \<^verbatim>\<open>rax\<close> from the trap
  frame; \<^verbatim>\<open>rax\<close> still holds the guest's \<^verbatim>\<open>cr2\<close>, which the frame keeps in \<^verbatim>\<open>tf_err\<close>. It executes
  \<^verbatim>\<open>vmlaunch\<close> if the 32 bits at \<^verbatim>\<open>tf_ds\<close> (whose padding is zero) are 1.
\<close>

definition vm_entry_of :: "Trapframe \<Rightarrow> vm_entry" where
  "vm_entry_of tf = \<lparr>entry_launch = (tf_ds tf = 1),
     entry_regs = (tf_regs tf)\<lparr>reg_rax := tf_err tf\<rparr>, entry_cr2 = tf_err tf\<rparr>"

definition asm_vmrun_enter :: "nat \<Rightarrow> kernel \<Rightarrow> (vm_entry \<times> kernel) may_panic" where
  "asm_vmrun_enter e s = do {
     c \<leftarrow> curenv s;
     let runs = env_runs (envs s c);
     let s = upd_env e (\<lambda>x. x\<lparr>env_tf := (env_tf x)\<lparr>tf_ds := ucast runs, tf_es := 0\<rparr>\<rparr>) s;
     s \<leftarrow> unlock_kernel s;
     Some (vm_entry_of (env_tf (envs s e)), s) }"

definition vmx_vmrun :: "machine \<Rightarrow> nat \<Rightarrow> kernel \<Rightarrow> (int exec \<times> kernel) may_panic" where
  "vmx_vmrun hw e s =
     (if env_type (envs s e) \<noteq> ENV_TYPE_GUEST then Some (Returns (- E_INVAL), s)
      else do {
        (ready, s) \<leftarrow>
          (if env_runs (envs s e) = 1 then do {
             pa \<leftarrow> PADDR (vmcs (env_vmxinfo (envs s e)));
             let (error, s) = vmclear hw pa s;
             if error \<noteq> 0 then Some (False, s)
             else let (error, s) = vmptrld hw pa s in
               if error \<noteq> 0 then Some (False, s)
               else do {
                 let s = vmcs_host_init hw s;
                 let s = vmcs_guest_init s;
                 s \<leftarrow> bitmap_setup (env_vmxinfo (envs s e)) s;
                 s \<leftarrow> msr_setup e s;
                 s \<leftarrow> vmcs_ctls_init e s;
                 Some (True, s) } }
           else do {
             pa \<leftarrow> PADDR (vmcs (env_vmxinfo (envs s e)));
             let (error, s) = vmptrld hw pa s;
             Some (error = 0, s) });
        if \<not> ready then Some (Returns (- E_VMCS_INIT), s)
        else do {
          c \<leftarrow> curenv s;
          let s = vmcs_write64 VMCS_GUEST_RSP (tf_rsp (env_tf (envs s c))) s;
          let s = vmcs_write64 VMCS_GUEST_RIP (tf_rip (env_tf (envs s c))) s;
          (en, s) \<leftarrow> asm_vmrun_enter e s;
          Some (Enter_Guest e en, s) } })"

section \<open>Fixed control register bits\<close>

lemma all_from:
  fixes i :: nat
  shows "(\<forall>j\<ge>i. P j) \<longleftrightarrow> P i \<and> (\<forall>j\<ge>i + 1. P j)"
proof safe
  show "P j" if "P i" "\<forall>j\<ge>i + 1. P j" "i \<le> j" for j
    using that by (cases "j = i") auto
qed auto

definition fixed_ok :: "u64 \<Rightarrow> u64 \<Rightarrow> u64 \<Rightarrow> nat \<Rightarrow> bool" where
  "fixed_ok v f0 f1 j \<longleftrightarrow> (j < 64 \<longrightarrow> (bit v j \<longrightarrow> bit f1 j) \<and> (bit f0 j \<longrightarrow> bit v j))"

lemma check_fixed_bits_from_eq:
  "check_fixed_bits_from i v f0 f1 = Some (\<forall>j\<ge>i. fixed_ok v f0 f1 j)"
proof (induction i v f0 f1 rule: check_fixed_bits_from.induct)
  case (1 i v f0 f1)
  show ?case
  proof (cases "i < 64")
    case True
    show ?thesis
      using 1 True
      by (subst check_fixed_bits_from.simps, subst all_from)
        (simp add: BIT_AT_eq Let_def fixed_ok_def [of v f0 f1 i])
  next
    case False
    then show ?thesis by (subst check_fixed_bits_from.simps) (simp add: fixed_ok_def)
  qed
qed

lemma check_fixed_bits_eq:
  "check_fixed_bits v fixed0 fixed1 = Some (v AND NOT fixed1 = 0 \<and> fixed0 AND NOT v = 0)"
proof -
  have "(\<forall>j. fixed_ok v fixed0 fixed1 j) \<longleftrightarrow> v AND NOT fixed1 = 0 \<and> fixed0 AND NOT v = 0"
    by (auto simp: fixed_ok_def bit_eq_iff bit_simps)
  then show ?thesis by (simp add: check_fixed_bits_def check_fixed_bits_from_eq)
qed

text \<open>
  \<^verbatim>\<open>check_fixed_bits\<close> terminates without reaching its \<^verbatim>\<open>assert(false)\<close> and computes the mask test that
  the Intel manual specifies for the fixed bits of \<^verbatim>\<open>CR0\<close> and \<^verbatim>\<open>CR4\<close>: every bit set in the value is
  allowed by \<open>fixed1\<close> and every bit required by \<open>fixed0\<close> is set.
\<close>

theorem check_fixed_bits_mask:
  "check_fixed_bits v fixed0 fixed1 = Some (v AND NOT fixed1 = 0 \<and> fixed0 AND NOT v = 0)"
  by (rule check_fixed_bits_eq)

end
