(* ===== verification/Env_Table.thy ===== *)
theory Env_Table
  imports Ept Vmx
begin

text \<open>
  Environments (\<^verbatim>\<open>kern/env.c\<close>): the table \<^verbatim>\<open>envs\<close> and its free list, environment ids, creation of user
  and guest environments, loading of ELF binaries, and release. Running an environment, which involves
  the scheduler, is in \<open>Sched\<close>. Segment registers and descriptor tables are not part of the state, so
  \<^verbatim>\<open>env_init_percpu\<close> has no counterpart.
\<close>

section \<open>Environment ids\<close>

definition ENVX :: "u32 \<Rightarrow> nat" where
  "ENVX envid = unat (envid AND 1023)"

definition ENVGENSHIFT :: nat where "ENVGENSHIFT = 12"

definition envid2env :: "u32 \<Rightarrow> bool \<Rightarrow> kernel \<Rightarrow> (int \<times> nat option) may_panic" where
  "envid2env envid checkperm s =
     (if envid = 0 then Some (0, curenv s)
      else let e = ENVX envid in
        if env_status (envs s e) = ENV_FREE \<or> env_id (envs s e) \<noteq> envid then Some (- E_BAD_ENV, None)
        else if checkperm \<and> Some e \<noteq> curenv s then do {
          c \<leftarrow> curenv s;
          if env_parent_id (envs s e) \<noteq> env_id (envs s c) then Some (- E_BAD_ENV, None)
          else Some (0, Some e) }
        else Some (0, Some e))"

text \<open>The id of the next environment in slot \<open>i\<close>, whose last id was \<open>old\<close>.\<close>

definition next_env_id :: "u32 \<Rightarrow> nat \<Rightarrow> u32" where
  "next_env_id old i =
     (let generation = (old + push_bit ENVGENSHIFT 1) AND NOT 1023;
          generation = (if sint generation \<le> 0 then push_bit ENVGENSHIFT 1 else generation)
      in generation OR of_nat i)"

section \<open>The table and its free list\<close>

definition env_init :: "kernel \<Rightarrow> kernel" where
  "env_init s = s\<lparr>
     envs := (\<lambda>i. if i < NENV then (envs s i)\<lparr>env_status := ENV_FREE,
                      env_link := if i = NENV - 1 then None else Some (i + 1)\<rparr>
                  else envs s i),
     env_free_list := Some 0\<rparr>"

text \<open>Taking the first environment off the list, and returning one to it.\<close>

definition env_commit :: "nat \<Rightarrow> kernel \<Rightarrow> kernel" where
  "env_commit e s = s\<lparr>env_free_list := env_link (envs s e)\<rparr>"

definition env_release :: "nat \<Rightarrow> kernel \<Rightarrow> kernel" where
  "env_release e s =
     (upd_env e (\<lambda>x. x\<lparr>env_status := ENV_FREE, env_link := env_free_list s\<rparr>) s)
     \<lparr>env_free_list := Some e\<rparr>"

section \<open>Creating environments\<close>

definition env_setup_vm :: "nat \<Rightarrow> kernel \<Rightarrow> (int \<times> kernel) may_panic" where
  "env_setup_vm e s = do {
     (pp, s) \<leftarrow> page_alloc ALLOC_ZERO s;
     case pp of
       None \<Rightarrow> Some (- E_NO_MEM, s)
     | Some p \<Rightarrow> do {
         let s = page_incref p s;
         kva \<leftarrow> page2kva s p;
         let s = upd_env e (\<lambda>x. x\<lparr>env_pml4e := kva, env_cr3 := page2pa p\<rparr>) s;
         s \<leftarrow> memset_zero kva (unat PGSIZE) s;
         w \<leftarrow> load64 s (entry (boot_pml4e s) 1);
         s \<leftarrow> store64 (entry kva 1) w s;
         s \<leftarrow> store64 (entry kva (PML4 UVPT)) (page2pa p OR PTE_P OR PTE_U) s;
         Some (0, s) } }"

text \<open>The status variables and the saved registers of a new user environment.\<close>

definition user_env :: "u32 \<Rightarrow> nat \<Rightarrow> Env \<Rightarrow> Env" where
  "user_env parent_id e x = x\<lparr>env_id := next_env_id (env_id x) e, env_parent_id := parent_id,
     env_type := ENV_TYPE_USER, env_status := ENV_RUNNABLE, env_runs := 0,
     env_tf := zero_tf\<lparr>tf_ds := GD_UD OR 3, tf_es := GD_UD OR 3, tf_ss := GD_UD OR 3,
       tf_rsp := USTACKTOP, tf_cs := GD_UT OR 3, tf_eflags := ucast FL_IF\<rparr>,
     env_pgfault_upcall := 0, env_ipc_recving := False\<rparr>"

definition env_alloc :: "u32 \<Rightarrow> kernel \<Rightarrow> ((int \<times> nat option) \<times> kernel) may_panic" where
  "env_alloc parent_id s =
     (case env_free_list s of
        None \<Rightarrow> Some ((- E_NO_FREE_ENV, None), s)
      | Some e \<Rightarrow> do {
          (r, s) \<leftarrow> env_setup_vm e s;
          if r < 0 then Some ((r, None), s)
          else Some ((0, Some e), env_commit e (upd_env e (user_env parent_id e) s)) })"

text \<open>
  \<^verbatim>\<open>env_guest_alloc\<close> takes five pages in turn. The pages already taken are dropped when a later one is
  missing; \<open>drop_pages\<close> is the sequence of \<^verbatim>\<open>page_decref\<close> calls of those error paths. The stages of the
  function are definitions of their own, from the last to the first.
\<close>

fun drop_pages :: "nat list \<Rightarrow> kernel \<Rightarrow> kernel" where
  "drop_pages [] s = s"
| "drop_pages (p # ps) s = drop_pages ps (page_decref p s)"

definition upd_vmxinfo :: "nat \<Rightarrow> (VmxGuestInfo \<Rightarrow> VmxGuestInfo) \<Rightarrow> kernel \<Rightarrow> kernel" where
  "upd_vmxinfo e f = upd_env e (\<lambda>x. x\<lparr>env_vmxinfo := f (env_vmxinfo x)\<rparr>)"

definition guest_env :: "u32 \<Rightarrow> nat \<Rightarrow> u32 \<Rightarrow> Env \<Rightarrow> Env" where
  "guest_env parent_id e vcpu x = x\<lparr>env_id := next_env_id (env_id x) e, env_parent_id := parent_id,
     env_type := ENV_TYPE_GUEST, env_status := ENV_RUNNABLE, env_runs := 0,
     env_vmxinfo := (env_vmxinfo x)\<lparr>vcpunum := vcpu\<rparr>,
     env_tf := zero_tf, env_pgfault_upcall := 0, env_ipc_recving := False\<rparr>"

definition guest_commit :: "u32 \<Rightarrow> nat \<Rightarrow> kernel \<Rightarrow> ((int \<times> nat option) \<times> kernel) may_panic" where
  "guest_commit parent_id e s =
     (let s = upd_env e (guest_env parent_id e (vcpu_count s)) s;
          s = s\<lparr>vcpu_count := vcpu_count s + 1\<rparr>
      in Some ((0, Some e), env_commit e s))"

definition guest_io_bmap_b where
  "guest_io_bmap_b parent_id e p q r t s = do {
     (tt, s) \<leftarrow> page_alloc ALLOC_ZERO s;
     case tt of
       None \<Rightarrow> Some ((- E_NO_MEM, None), drop_pages [p, q, r, t] s)
     | Some u \<Rightarrow> do {
         let s = page_incref u s;
         kva \<leftarrow> page2kva s u;
         guest_commit parent_id e (upd_vmxinfo e (\<lambda>v. v\<lparr>io_bmap_b := kva\<rparr>) s) } }"

definition guest_io_bmap_a where
  "guest_io_bmap_a parent_id e p q r s = do {
     (ss, s) \<leftarrow> page_alloc ALLOC_ZERO s;
     case ss of
       None \<Rightarrow> Some ((- E_NO_MEM, None), drop_pages [p, q, r] s)
     | Some t \<Rightarrow> do {
         let s = page_incref t s;
         kva \<leftarrow> page2kva s t;
         guest_io_bmap_b parent_id e p q r t (upd_vmxinfo e (\<lambda>v. v\<lparr>io_bmap_a := kva\<rparr>) s) } }"

definition guest_msr_area where
  "guest_msr_area parent_id e p q s = do {
     (rr, s) \<leftarrow> page_alloc ALLOC_ZERO s;
     case rr of
       None \<Rightarrow> Some ((- E_NO_MEM, None), drop_pages [p, q] s)
     | Some r \<Rightarrow> do {
         let s = page_incref r s;
         kva \<leftarrow> page2kva s r;
         guest_io_bmap_a parent_id e p q r
           (upd_vmxinfo e (\<lambda>v. v\<lparr>msr_host_area := kva, msr_guest_area := kva + PGSIZE div 2\<rparr>) s) } }"

definition guest_vmcs where
  "guest_vmcs parent_id e p s = do {
     (qq, s) \<leftarrow> vmx_init_vmcs s;
     case qq of
       None \<Rightarrow> Some ((- E_NO_MEM, None), drop_pages [p] s)
     | Some q \<Rightarrow> do {
         let s = page_incref q s;
         kva \<leftarrow> page2kva s q;
         guest_msr_area parent_id e p q (upd_vmxinfo e (\<lambda>v. v\<lparr>vmcs := kva\<rparr>) s) } }"

definition env_guest_alloc :: "u32 \<Rightarrow> kernel \<Rightarrow> ((int \<times> nat option) \<times> kernel) may_panic" where
  "env_guest_alloc parent_id s =
     (case env_free_list s of
        None \<Rightarrow> Some ((- E_NO_FREE_ENV, None), s)
      | Some e \<Rightarrow> do {
          let s = upd_vmxinfo e (\<lambda>_. zero_vmxinfo) s;
          (pp, s) \<leftarrow> page_alloc ALLOC_ZERO s;
          case pp of
            None \<Rightarrow> Some ((- E_NO_MEM, None), s)
          | Some p \<Rightarrow> do {
              let s = upd_page p (\<lambda>_. \<lparr>pp_link = None, pp_ref = 0\<rparr>) s;
              let s = page_incref p s;
              kva \<leftarrow> page2kva s p;
              guest_vmcs parent_id e p
                (upd_env e (\<lambda>x. x\<lparr>env_pml4e := kva, env_cr3 := page2pa p\<rparr>) s) } })"

lemmas env_guest_alloc_defs = env_guest_alloc_def guest_vmcs_def guest_msr_area_def guest_io_bmap_a_def
  guest_io_bmap_b_def guest_commit_def

definition decref_pa :: "u64 \<Rightarrow> kernel \<Rightarrow> kernel may_panic" where
  "decref_pa pa s = do { p \<leftarrow> pa2page s pa; Some (page_decref p s) }"

definition decref_kva :: "u64 \<Rightarrow> kernel \<Rightarrow> kernel may_panic" where
  "decref_kva kva s = do { pa \<leftarrow> PADDR kva; decref_pa pa s }"

definition env_guest_free :: "nat \<Rightarrow> kernel \<Rightarrow> kernel may_panic" where
  "env_guest_free e s = do {
     s \<leftarrow> decref_kva (vmcs (env_vmxinfo (envs s e))) s;
     s \<leftarrow> decref_kva (msr_host_area (env_vmxinfo (envs s e))) s;
     s \<leftarrow> decref_kva (io_bmap_a (env_vmxinfo (envs s e))) s;
     s \<leftarrow> decref_kva (io_bmap_b (env_vmxinfo (envs s e))) s;
     s \<leftarrow> free_guest_mem (env_pml4e (envs s e)) s;
     s \<leftarrow> decref_pa (env_cr3 (envs s e)) s;
     let s = upd_env e (\<lambda>x. x\<lparr>env_pml4e := 0, env_cr3 := 0\<rparr>) s;
     Some (env_release e s) }"

section \<open>Releasing a user environment\<close>

text \<open>
  \<^verbatim>\<open>env_free\<close> walks the page tables below the first entry of the top-level table. The loops over page
  table entries, page directory entries and page directory pointers are recursions over the list of
  the indices they visit.
\<close>

fun free_ptes :: "nat \<Rightarrow> u64 \<Rightarrow> u64 \<Rightarrow> u64 \<Rightarrow> u64 list \<Rightarrow> kernel \<Rightarrow> kernel may_panic" where
  "free_ptes e pt pdpe_index pdeno [] s = Some s"
| "free_ptes e pt pdpe_index pdeno (pteno # ptenos) s = do {
     w \<leftarrow> load64 s (entry pt pteno);
     s \<leftarrow> (if w AND PTE_P \<noteq> 0
           then page_remove (env_pml4e (envs s e)) (PGADDR 0 pdpe_index pdeno pteno 0) s
           else Some s);
     free_ptes e pt pdpe_index pdeno ptenos s }"

definition index_list :: "u64 \<Rightarrow> u64 list" where
  "index_list n = map of_nat [0..<unat n]"

fun free_pdes :: "nat \<Rightarrow> u64 \<Rightarrow> u64 \<Rightarrow> u64 list \<Rightarrow> kernel \<Rightarrow> kernel may_panic" where
  "free_pdes e env_pgdir pdpe_index [] s = Some s"
| "free_pdes e env_pgdir pdpe_index (pdeno # pdenos) s = do {
     w \<leftarrow> load64 s (entry env_pgdir pdeno);
     s \<leftarrow> (if w AND PTE_P \<noteq> 0
           then do {
             pt \<leftarrow> KADDR s (PTE_ADDR w);
             s \<leftarrow> free_ptes e pt pdpe_index pdeno (index_list (PTX (NOT 0))) s;
             s \<leftarrow> store64 (entry env_pgdir pdeno) 0 s;
             decref_pa (PTE_ADDR w) s }
           else Some s);
     free_pdes e env_pgdir pdpe_index pdenos s }"

fun free_pdpes :: "nat \<Rightarrow> u64 \<Rightarrow> u64 list \<Rightarrow> kernel \<Rightarrow> kernel may_panic" where
  "free_pdpes e env_pdpe [] s = Some s"
| "free_pdpes e env_pdpe (pdpe_index # is) s = do {
     w \<leftarrow> load64 s (entry env_pdpe pdpe_index);
     s \<leftarrow> (if w AND PTE_P \<noteq> 0
           then do {
             env_pgdir \<leftarrow> KADDR s (PTE_ADDR w);
             let pdeno_limit = (if pdpe_index = 3 then PDX UTOP else PDX 0xFFFFFFFF);
             s \<leftarrow> free_pdes e env_pgdir pdpe_index (index_list pdeno_limit) s;
             w \<leftarrow> load64 s (entry env_pdpe pdpe_index);
             s \<leftarrow> store64 (entry env_pdpe pdpe_index) 0 s;
             decref_pa (PTE_ADDR w) s }
           else Some s);
     free_pdpes e env_pdpe is s }"

definition env_free :: "nat \<Rightarrow> kernel \<Rightarrow> kernel may_panic" where
  "env_free e s =
     (if env_type (envs s e) = ENV_TYPE_GUEST then env_guest_free e s
      else do {
        let s = (if curenv s = Some e then s\<lparr>cr3 := boot_cr3 s\<rparr> else s);
        w \<leftarrow> load64 s (entry (env_pml4e (envs s e)) 0);
        s \<leftarrow> (if w AND PTE_P \<noteq> 0
              then do {
                env_pdpe \<leftarrow> KADDR s (PTE_ADDR w);
                s \<leftarrow> free_pdpes e env_pdpe [0, 1, 2, 3] s;
                w \<leftarrow> load64 s (entry (env_pml4e (envs s e)) 0);
                decref_pa (PTE_ADDR w) s }
              else Some s);
        s \<leftarrow> store64 (entry (env_pml4e (envs s e)) 0) 0 s;
        let pa = env_cr3 (envs s e);
        let s = upd_env e (\<lambda>x. x\<lparr>env_pml4e := 0, env_cr3 := 0\<rparr>) s;
        s \<leftarrow> decref_pa pa s;
        Some (env_release e s) })"

section \<open>Loading a program\<close>

text \<open>
  An ELF binary is the kernel address it is linked at and its bytes by offset, little endian. The
  accessors are the fields of \<^verbatim>\<open>struct Elf\<close>, \<^verbatim>\<open>struct Proghdr\<close> and \<^verbatim>\<open>struct Secthdr\<close> (\<^verbatim>\<open>inc/elf.h\<close>)
  that \<^verbatim>\<open>load_icode\<close> reads.
\<close>

type_synonym bytes = "u64 \<Rightarrow> u8"

definition le16 :: "bytes \<Rightarrow> u64 \<Rightarrow> u16" where
  "le16 b o' = ucast (b o') OR push_bit 8 (ucast (b (o' + 1)))"

definition le32 :: "bytes \<Rightarrow> u64 \<Rightarrow> u32" where
  "le32 b o' = ucast (le16 b o') OR push_bit 16 (ucast (le16 b (o' + 2)))"

definition le64 :: "bytes \<Rightarrow> u64 \<Rightarrow> u64" where
  "le64 b o' = ucast (le32 b o') OR push_bit 32 (ucast (le32 b (o' + 4)))"

record Elf =
  e_magic :: u32
  e_entry :: u64
  e_phoff :: u64
  e_shoff :: u64
  e_phnum :: u16
  e_shnum :: u16
  e_shstrndx :: u16

definition read_Elf :: "bytes \<Rightarrow> Elf" where
  "read_Elf b = \<lparr>e_magic = le32 b 0, e_entry = le64 b 24, e_phoff = le64 b 32, e_shoff = le64 b 40,
     e_phnum = le16 b 56, e_shnum = le16 b 60, e_shstrndx = le16 b 62\<rparr>"

record Proghdr =
  p_type :: u32
  p_offset :: u64
  p_va :: u64
  p_filesz :: u64
  p_memsz :: u64

definition read_Proghdr :: "bytes \<Rightarrow> u64 \<Rightarrow> Proghdr" where
  "read_Proghdr b o' = \<lparr>p_type = le32 b o', p_offset = le64 b (o' + 8), p_va = le64 b (o' + 16),
     p_filesz = le64 b (o' + 32), p_memsz = le64 b (o' + 40)\<rparr>"

record Secthdr =
  sh_name :: u32
  sh_offset :: u64
  sh_size :: u64

definition read_Secthdr :: "bytes \<Rightarrow> u64 \<Rightarrow> Secthdr" where
  "read_Secthdr b o' = \<lparr>sh_name = le32 b o', sh_offset = le64 b (o' + 24), sh_size = le64 b (o' + 32)\<rparr>"

definition ELF_MAGIC :: u32 where "ELF_MAGIC = 0x464C457F"
definition ELF_PROG_LOAD :: u32 where "ELF_PROG_LOAD = 1"

text \<open>
  While a program is loaded, the page table of the new environment is in force. A store of the kernel
  to a user address goes to the frame the table maps it to, or faults.
\<close>

definition put_byte :: "nat \<Rightarrow> u8 \<Rightarrow> u64 \<Rightarrow> u64" where
  "put_byte i b w = (w AND NOT (push_bit (8 * i) 0xFF)) OR push_bit (8 * i) (ucast b)"

definition store8_user :: "u64 \<Rightarrow> u8 \<Rightarrow> kernel \<Rightarrow> kernel may_panic" where
  "store8_user va b s = do {
     p \<leftarrow> translate (mem s) (unat (PPN (cr3 s))) va;
     guard_panic (p < npages s);
     let pa = page2pa p OR PGOFF va;
     let cell = pa AND NOT 7;
     Some (s\<lparr>mem := (mem s)(cell := put_byte (unat (pa AND 7)) b (mem s cell))\<rparr>) }"

fun store_user :: "u64 \<Rightarrow> u8 list \<Rightarrow> kernel \<Rightarrow> kernel may_panic" where
  "store_user va [] s = Some s"
| "store_user va (b # bs) s = do { s \<leftarrow> store8_user va b s; store_user (va + 1) bs s }"

definition file_bytes :: "bytes \<Rightarrow> u64 \<Rightarrow> u64 \<Rightarrow> u8 list" where
  "file_bytes b o' n = map (\<lambda>i. b (o' + of_nat i)) [0..<unat n]"

text \<open>
  The loop of \<^verbatim>\<open>region_alloc\<close> visits the pages from \<open>va\<close> up to \<open>endva\<close>; the first address need not be
  page aligned.
\<close>

partial_function (option) region_alloc_loop :: "u64 \<Rightarrow> u64 \<Rightarrow> u64 \<Rightarrow> kernel \<Rightarrow> kernel may_panic" where
  "region_alloc_loop pml4e va endva s =
     (if va < endva then do {
        (pp, s) \<leftarrow> page_alloc 0 s;
        p \<leftarrow> pp;
        (r, s) \<leftarrow> page_insert pml4e (Some p) va (ucast (PTE_P OR PTE_W OR PTE_U)) s;
        if r < 0 then None
        else region_alloc_loop pml4e (ROUNDDOWN (va + PGSIZE) PGSIZE) endva s }
      else Some s)"

definition region_alloc :: "nat \<Rightarrow> u64 \<Rightarrow> u64 \<Rightarrow> kernel \<Rightarrow> kernel may_panic" where
  "region_alloc e va len s = region_alloc_loop (env_pml4e (envs s e)) va (va + len) s"

fun load_segments :: "nat \<Rightarrow> bytes \<Rightarrow> Proghdr list \<Rightarrow> kernel \<Rightarrow> kernel may_panic" where
  "load_segments e b [] s = Some s"
| "load_segments e b (ph # phs) s = do {
     s \<leftarrow> (if p_type ph = ELF_PROG_LOAD then do {
             s \<leftarrow> region_alloc e (p_va ph) (p_memsz ph) s;
             s \<leftarrow> store_user (p_va ph) (file_bytes b (p_offset ph) (p_filesz ph)) s;
             if p_filesz ph < p_memsz ph
             then store_user (p_va ph + p_filesz ph)
               (replicate (unat (p_memsz ph - p_filesz ph)) 0) s
             else Some s }
           else Some s);
     load_segments e b phs s }"

text \<open>\<^verbatim>\<open>strcmp\<close> of the bytes at an offset with a literal.\<close>

fun strcmp_eq :: "bytes \<Rightarrow> u64 \<Rightarrow> string \<Rightarrow> bool" where
  "strcmp_eq b o' [] \<longleftrightarrow> b o' = 0"
| "strcmp_eq b o' (c # cs) \<longleftrightarrow> b o' = of_char c \<and> strcmp_eq b (o' + 1) cs"

definition debug_section :: "bytes \<Rightarrow> u64 \<Rightarrow> bool" where
  "debug_section b name \<longleftrightarrow>
     strcmp_eq b name ''.debug_info'' \<or> strcmp_eq b name ''.debug_abbrev'' \<or>
     strcmp_eq b name ''.debug_line'' \<or> strcmp_eq b name ''.eh_frame'' \<or>
     strcmp_eq b name ''.debug_str''"

fun load_debug :: "nat \<Rightarrow> bytes \<Rightarrow> u64 \<Rightarrow> u64 \<Rightarrow> Secthdr list \<Rightarrow> kernel \<Rightarrow> kernel may_panic" where
  "load_debug e b strtab debug_address [] s = Some s"
| "load_debug e b strtab debug_address (sh # shs) s =
     (if debug_section b (strtab + ucast (sh_name sh)) then do {
        s \<leftarrow> region_alloc e debug_address (sh_size sh) s;
        s \<leftarrow> store_user debug_address (file_bytes b (sh_offset sh) (sh_size sh)) s;
        load_debug e b strtab (debug_address + sh_size sh) shs s }
      else load_debug e b strtab debug_address shs s)"

definition load_icode :: "nat \<Rightarrow> u64 \<Rightarrow> bytes \<Rightarrow> kernel \<Rightarrow> kernel may_panic" where
  "load_icode e binary b s =
     (let elf = read_Elf b in
      if binary \<noteq> 0 \<and> e_magic elf = ELF_MAGIC then do {
        pa \<leftarrow> PADDR (env_pml4e (envs s e));
        let s = s\<lparr>cr3 := pa\<rparr>;
        let phs = map (\<lambda>i. read_Proghdr b (e_phoff elf + 56 * of_nat i)) [0..<unat (e_phnum elf)];
        s \<leftarrow> load_segments e b phs s;
        s \<leftarrow> region_alloc e (USTACKTOP - PGSIZE) PGSIZE s;
        let s = upd_env e (\<lambda>x. x\<lparr>env_tf := (env_tf x)\<lparr>tf_rip := e_entry elf, tf_rsp := USTACKTOP\<rparr>\<rparr>) s;
        let shstr_tab = read_Secthdr b (e_shoff elf + 64 * ucast (e_shstrndx elf));
        let shs = map (\<lambda>i. read_Secthdr b (e_shoff elf + 64 * of_nat i)) [0..<unat (e_shnum elf)];
        s \<leftarrow> load_debug e b (sh_offset shstr_tab) USTABDATA shs s;
        let s = s\<lparr>cr3 := boot_cr3 s\<rparr>;
        Some (upd_env e (env_elf_update (\<lambda>_. binary)) s) }
      else None)"

definition env_create :: "u64 \<Rightarrow> bytes \<Rightarrow> EnvType \<Rightarrow> kernel \<Rightarrow> kernel may_panic" where
  "env_create binary b type s = do {
     ((r, e), s) \<leftarrow> env_alloc 0 s;
     if r < 0 then None
     else do {
       e \<leftarrow> e;
       s \<leftarrow> load_icode e binary b s;
       let s = upd_env e (env_type_update (\<lambda>_. type)) s;
       Some (if type = ENV_TYPE_FS
             then upd_env e (\<lambda>x. x\<lparr>env_tf := (env_tf x)\<lparr>tf_eflags := tf_eflags (env_tf x) OR FL_IOPL_3\<rparr>\<rparr>) s
             else s) } }"

end
