(* ===== verification/Sched.thy ===== *)
theory Sched
  imports Env_Table
begin

text \<open>
  Running environments: \<^verbatim>\<open>env_run\<close>, \<^verbatim>\<open>env_pop_tf\<close> and \<^verbatim>\<open>env_destroy\<close> of \<^verbatim>\<open>kern/env.c\<close> and the scheduler
  \<^verbatim>\<open>kern/sched.c\<close>. These functions end by leaving the kernel; the result says where control goes. If the
  processor refuses a VM entry, \<^verbatim>\<open>asm_vmrun\<close> returns and the caller goes on; that continuation is not
  modelled, an entry is taken to succeed.
\<close>

section \<open>Running an environment\<close>

definition set_status :: "nat \<Rightarrow> EnvStatus \<Rightarrow> kernel \<Rightarrow> kernel" where
  "set_status e st = upd_env e (env_status_update (\<lambda>_. st))"

text \<open>The running environment of this CPU, if any, becomes runnable.\<close>

definition suspend_current :: "kernel \<Rightarrow> kernel" where
  "suspend_current s =
     (case curenv s of
        None \<Rightarrow> s
      | Some c \<Rightarrow> if env_status (envs s c) = ENV_RUNNING then set_status c ENV_RUNNABLE s else s)"

definition env_pop_tf :: "kernel \<Rightarrow> kernel may_panic" where
  "env_pop_tf s = do {
     c \<leftarrow> curenv s;
     Some (upd_env c (env_cpunum_update (\<lambda>_. this_cpu s)) s) }"

definition env_switch :: "nat \<Rightarrow> kernel \<Rightarrow> kernel" where
  "env_switch e s =
     (if curenv s \<noteq> Some e then
        (let s = suspend_current s;
             s = set_curenv (Some e) s;
             s = upd_env e (\<lambda>x. x\<lparr>env_status := ENV_RUNNING, env_runs := env_runs x + 1\<rparr>) s
         in if env_type (envs s e) \<noteq> ENV_TYPE_GUEST then s\<lparr>cr3 := env_cr3 (envs s e)\<rparr> else s)
      else s)"

definition env_run :: "machine \<Rightarrow> nat \<Rightarrow> kernel \<Rightarrow> (unit exec \<times> kernel) may_panic" where
  "env_run hw e s = do {
     let s = env_switch e s;
     guard_panic (env_status (envs s e) = ENV_RUNNING);
     if env_type (envs s e) = ENV_TYPE_GUEST then do {
       (r, s) \<leftarrow> vmx_vmrun hw e s;
       case r of Enter_Guest g en \<Rightarrow> Some (Enter_Guest g en, s) | _ \<Rightarrow> None }
     else do {
       s \<leftarrow> unlock_kernel s;
       s \<leftarrow> env_pop_tf s;
       Some (Enter_User e, s) } }"

section \<open>The scheduler\<close>

text \<open>\<^verbatim>\<open>vmxon\<close> of \<^verbatim>\<open>kern/sched.c\<close>.\<close>

definition sched_vmxon :: "machine \<Rightarrow> kernel \<Rightarrow> (int \<times> kernel) may_panic" where
  "sched_vmxon hw s =
     (if \<not> is_vmx_root (thiscpu s) then do {
        (r, s) \<leftarrow> vmx_init_vmxon hw s;
        if r < 0 then Some (r, s) else Some (0, s) }
      else Some (0, s))"

text \<open>Whether some environment keeps the system alive.\<close>

definition alive :: "Env \<Rightarrow> bool" where
  "alive x \<longleftrightarrow>
     env_status x = ENV_RUNNABLE \<or> env_status x = ENV_RUNNING \<or> env_status x = ENV_DYING"

definition sched_halt :: "kernel \<Rightarrow> (unit exec \<times> kernel) may_panic" where
  "sched_halt s =
     (if \<not> list_ex (\<lambda>i. alive (envs s i)) [0..<NENV] then Some (Monitor, s)
      else do {
        let s = set_curenv None s;
        pa \<leftarrow> PADDR (boot_pml4e s);
        let s = s\<lparr>cr3 := pa\<rparr>;
        let s = upd_thiscpu (cpu_status_update (\<lambda>_. CPU_HALTED)) s;
        s \<leftarrow> unlock_kernel s;
        Some (Halted, s) })"

text \<open>The search loop of \<^verbatim>\<open>sched_yield\<close>: \<open>k\<close> is the number of environments still to be looked at.\<close>

fun sched_search :: "nat \<Rightarrow> nat \<Rightarrow> kernel \<Rightarrow> nat option" where
  "sched_search 0 i s = None"
| "sched_search (Suc k) i s =
     (let i = (i + 1) mod NENV in
      if env_status (envs s i) = ENV_RUNNABLE then Some i else sched_search k i s)"

definition drop_result :: "int exec \<Rightarrow> unit exec" where
  "drop_result r = (case r of Returns _ \<Rightarrow> Returns () | Enter_Guest e en \<Rightarrow> Enter_Guest e en
     | Enter_User e \<Rightarrow> Enter_User e | Halted \<Rightarrow> Halted | Monitor \<Rightarrow> Monitor)"

definition sched_yield :: "machine \<Rightarrow> kernel \<Rightarrow> (unit exec \<times> kernel) may_panic" where
  "sched_yield hw s =
     (let idle = curenv s;
          i = (case idle of None \<Rightarrow> 0 | Some c \<Rightarrow> ENVX (env_id (envs s c)))
      in case sched_search NENV i s of
        Some i \<Rightarrow>
          if env_type (envs s i) = ENV_TYPE_GUEST then do {
            (r, s) \<leftarrow> sched_vmxon hw s;
            if r = 0 then do {
              let s = suspend_current s;
              let s = set_curenv (Some i) s;
              let s = upd_env i (\<lambda>x. x\<lparr>env_status := ENV_RUNNING, env_runs := env_runs x + 1\<rparr>) s;
              (r, s) \<leftarrow> vmx_vmrun hw i s;
              Some (drop_result r, s) }
            else Some (Returns (), s) }
          else env_run hw i s
      | None \<Rightarrow>
          (case idle of
             None \<Rightarrow> sched_halt s
           | Some c \<Rightarrow>
               if env_status (envs s c) \<noteq> ENV_RUNNING then sched_halt s
               else if env_type (envs s c) = ENV_TYPE_GUEST then do {
                 (r, s) \<leftarrow> sched_vmxon hw s;
                 if r = 0 then do {
                   let s = upd_env c (\<lambda>x. x\<lparr>env_runs := env_runs x + 1\<rparr>) s;
                   (r, s) \<leftarrow> vmx_vmrun hw c s;
                   case r of Returns _ \<Rightarrow> sched_halt s | _ \<Rightarrow> Some (drop_result r, s) }
                 else sched_halt s }
               else env_run hw c s))"

section \<open>Destroying an environment\<close>

definition env_destroy :: "machine \<Rightarrow> nat \<Rightarrow> kernel \<Rightarrow> (unit exec \<times> kernel) may_panic" where
  "env_destroy hw e s =
     (if env_status (envs s e) = ENV_RUNNING \<and> curenv s \<noteq> Some e
      then Some (Returns (), set_status e ENV_DYING s)
      else do {
        s \<leftarrow> env_free e s;
        if curenv s = Some e then sched_yield hw (set_curenv None s)
        else Some (Returns (), s) })"

definition user_mem_assert :: "machine \<Rightarrow> nat \<Rightarrow> u64 \<Rightarrow> u64 \<Rightarrow> u32 \<Rightarrow> kernel \<Rightarrow> (unit exec \<times> kernel) may_panic" where
  "user_mem_assert hw env va len perm s = do {
     (r, s) \<leftarrow> user_mem_check env va len (perm OR ucast PTE_U) s;
     if r < 0 then env_destroy hw env s else Some (Returns (), s) }"

end
