(* ===== verification/Vmexits.thy ===== *)
theory Vmexits
  imports Sched "HOL-Library.Signed_Division"
begin

text \<open>
  VM exits: the handlers of \<^verbatim>\<open>vmm/vmexits.c\<close>, the dispatcher \<^verbatim>\<open>vmexit\<close> and the part of \<^verbatim>\<open>asm_vmrun\<close>
  after the exit (\<^verbatim>\<open>vmm/vmx.c\<close>). A handler works on the trap frame and the guest information of the
  current environment, here the environment number \<open>e\<close>; it returns whether the exit was handled.

  The record \<open>image\<close> has what the handlers take from the build: the linked binary of the host shell,
  and the stale stack contents of the local \<^verbatim>\<open>mbinfo\<close>, of which \<^verbatim>\<open>handle_vmcall\<close> sets only three fields.
\<close>

record image =
  user_sh_addr :: u64
  user_sh_bytes :: bytes
  mbinfo_junk :: "u32 list"

definition upd_tf :: "nat \<Rightarrow> (Trapframe \<Rightarrow> Trapframe) \<Rightarrow> kernel \<Rightarrow> kernel" where
  "upd_tf e f = upd_env e (\<lambda>x. x\<lparr>env_tf := f (env_tf x)\<rparr>)"

definition upd_regs :: "nat \<Rightarrow> (PushRegs \<Rightarrow> PushRegs) \<Rightarrow> kernel \<Rightarrow> kernel" where
  "upd_regs e f = upd_tf e (\<lambda>tf. tf\<lparr>tf_regs := f (tf_regs tf)\<rparr>)"

definition regs_of :: "nat \<Rightarrow> kernel \<Rightarrow> PushRegs" where
  "regs_of e s = tf_regs (env_tf (envs s e))"

text \<open>\<^verbatim>\<open>tf->tf_rip += vmcs_read32(VMCS_32BIT_VMEXIT_INSTRUCTION_LENGTH)\<close>\<close>

definition advance_rip :: "nat \<Rightarrow> kernel \<Rightarrow> kernel may_panic" where
  "advance_rip e s = do {
     len \<leftarrow> vmcs_read32 VMCS_32BIT_VMEXIT_INSTRUCTION_LENGTH s;
     Some (upd_tf e (\<lambda>tf. tf\<lparr>tf_rip := tf_rip tf + ucast len\<rparr>) s) }"

section \<open>The disk number\<close>

definition vmx_get_vmdisk_number :: "kernel \<Rightarrow> u32" where
  "vmx_get_vmdisk_number s = vmdisk_number s"

definition vmx_incr_vmdisk_number :: "kernel \<Rightarrow> kernel" where
  "vmx_incr_vmdisk_number s = s\<lparr>vmdisk_number := vmdisk_number s + 1\<rparr>"

section \<open>Model-specific registers\<close>

text \<open>The loop never advances \<^verbatim>\<open>entry\<close>: it compares the first entry \<^verbatim>\<open>area_sz\<close> times.\<close>

fun find_msr_in_region :: "u32 \<Rightarrow> u64 \<Rightarrow> nat \<Rightarrow> kernel \<Rightarrow> u64 option may_panic" where
  "find_msr_in_region msr_idx area 0 s = Some None"
| "find_msr_in_region msr_idx area (Suc n) s = do {
     idx \<leftarrow> load32 s area;
     if idx = msr_idx then Some (Some area) else find_msr_in_region msr_idx area n s }"

definition handle_rdmsr :: "nat \<Rightarrow> kernel \<Rightarrow> (bool \<times> kernel) may_panic" where
  "handle_rdmsr e s =
     (let msr = reg_rcx (regs_of e s); ginfo = env_vmxinfo (envs s e) in
      if msr = ucast EFER_MSR then do {
        r \<leftarrow> find_msr_in_region (ucast msr) (msr_guest_area ginfo) (msr_count ginfo) s;
        ent \<leftarrow> r;
        val \<leftarrow> load64 s (ent + 8);
        let s = upd_regs e (\<lambda>g. g\<lparr>reg_rdx := push_bit 32 val, reg_rax := val AND 0xFFFFFFFF\<rparr>) s;
        s \<leftarrow> advance_rip e s;
        Some (True, s) }
      else Some (False, s))"

definition handle_wrmsr :: "nat \<Rightarrow> kernel \<Rightarrow> (bool \<times> kernel) may_panic" where
  "handle_wrmsr e s =
     (let msr = reg_rcx (regs_of e s); ginfo = env_vmxinfo (envs s e) in
      if msr = ucast EFER_MSR then do {
        r \<leftarrow> find_msr_in_region (ucast msr) (msr_guest_area ginfo) (msr_count ginfo) s;
        ent \<leftarrow> r;
        cur_val \<leftarrow> load64 s (ent + 8);
        let new_val = push_bit 32 (reg_rdx (regs_of e s)) OR reg_rax (regs_of e s);
        s \<leftarrow> (if BIT_AT cur_val EFER_LME = 0 \<and> BIT_AT new_val EFER_LME = 1 then do {
                entry_ctls \<leftarrow> vmcs_read32 VMCS_32BIT_CONTROL_VMENTRY_CONTROLS s;
                Some (vmcs_write32 VMCS_32BIT_CONTROL_VMENTRY_CONTROLS
                  (entry_ctls OR VMCS_VMENTRY_x64_GUEST) s) }
              else Some s);
        s \<leftarrow> store64 (ent + 8) new_val s;
        s \<leftarrow> advance_rip e s;
        Some (True, s) }
      else Some (False, s))"

section \<open>Interrupts\<close>

definition handle_interrupt_window :: "u32 \<Rightarrow> kernel \<Rightarrow> (bool \<times> kernel) may_panic" where
  "handle_interrupt_window vec s = do {
     ctls \<leftarrow> vmcs_read32 VMCS_32BIT_CONTROL_PROCESSOR_BASED_VMEXEC_CONTROLS s;
     let s = vmcs_write32 VMCS_32BIT_CONTROL_PROCESSOR_BASED_VMEXEC_CONTROLS
       (ctls AND NOT VMCS_PROC_BASED_VMEXEC_CTL_INTRWINEXIT) s;
     Some (True, vmcs_write32 VMCS_32BIT_CONTROL_VMENTRY_INTERRUPTION_INFO vec s) }"

definition handle_interrupts :: "u32 \<Rightarrow> kernel \<Rightarrow> (bool \<times> kernel) may_panic" where
  "handle_interrupts vec s = do {
     rflags \<leftarrow> vmcs_read64 VMCS_GUEST_RFLAGS s;
     if rflags AND push_bit 9 1 = 0 then do {
       ctls \<leftarrow> vmcs_read32 VMCS_32BIT_CONTROL_PROCESSOR_BASED_VMEXEC_CONTROLS s;
       Some (True, vmcs_write32 VMCS_32BIT_CONTROL_PROCESSOR_BASED_VMEXEC_CONTROLS
         (ctls OR VMCS_PROC_BASED_VMEXEC_CTL_INTRWINEXIT) s) }
     else Some (True, vmcs_write32 VMCS_32BIT_CONTROL_VMENTRY_INTERRUPTION_INFO vec s) }"

section \<open>EPT violations\<close>

definition CGA_BUF :: u64 where [const_defs]: "CGA_BUF = 0xB8000"

definition handle_eptviolation :: "nat \<Rightarrow> kernel \<Rightarrow> (bool \<times> kernel) may_panic" where
  "handle_eptviolation e s = do {
     let eptrt = env_pml4e (envs s e);
     let ginfo = env_vmxinfo (envs s e);
     gpa \<leftarrow> vmcs_read64 VMCS_64BIT_GUEST_PHYSICAL_ADDR s;
     if gpa < 0xA0000 \<or> (gpa \<ge> 0x100000 \<and> gpa < phys_sz ginfo) then do {
       (pp, s) \<leftarrow> page_alloc 0 s;
       case pp of
         None \<Rightarrow> Some (False, s)
       | Some p \<Rightarrow> do {
           (r, s) \<leftarrow> ept_page_insert eptrt p (ROUNDDOWN gpa PGSIZE) (ucast EPTE_FULL) False s;
           guard_panic (r \<ge> 0);
           Some (True, s) } }
     else if gpa \<ge> CGA_BUF \<and> gpa < CGA_BUF + PGSIZE then do {
       pa \<leftarrow> PADDR (KERNBASE + CGA_BUF);
       p \<leftarrow> pa2page s pa;
       (r, s) \<leftarrow> ept_page_insert eptrt p CGA_BUF (ucast EPTE_FULL) False s;
       guard_panic (r \<ge> 0);
       Some (True, s) }
     else Some (False, s) }"

section \<open>I/O instructions\<close>

definition MC_NVRAM_START :: u32 where [const_defs]: "MC_NVRAM_START = 0xE"
definition NVRAM_BASELO :: u32 where [const_defs]: "NVRAM_BASELO = MC_NVRAM_START + 7"
definition NVRAM_BASEHI :: u32 where [const_defs]: "NVRAM_BASEHI = MC_NVRAM_START + 8"
definition NVRAM_EXTLO :: u32 where [const_defs]: "NVRAM_EXTLO = MC_NVRAM_START + 9"
definition NVRAM_EXTHI :: u32 where [const_defs]: "NVRAM_EXTHI = MC_NVRAM_START + 10"

text \<open>Memory above 1 MB in KB; \<^verbatim>\<open>phys_sz\<close> is a signed 64-bit integer.\<close>

definition ext_kb :: "VmxGuestInfo \<Rightarrow> int" where
  "ext_kb ginfo = sint (phys_sz ginfo) sdiv 1024 - 1024"

definition nvram_value :: "u32 \<Rightarrow> VmxGuestInfo \<Rightarrow> u64 option" where
  "nvram_value reg ginfo =
     (if reg = NVRAM_BASELO then Some (640 AND 0xFF)
      else if reg = NVRAM_BASEHI then Some (drop_bit 8 640 AND 0xFF)
      else if reg = NVRAM_EXTLO then Some (word_of_int (ext_kb ginfo) AND 0xFF)
      else if reg = NVRAM_EXTHI then Some (word_of_int (drop_bit 8 (ext_kb ginfo)) AND 0xFF)
      else None)"

definition handle_ioinstr :: "nat \<Rightarrow> kernel \<Rightarrow> (bool \<times> kernel) may_panic" where
  "handle_ioinstr e s = do {
     qualification \<leftarrow> vmcs_read64 VMCS_VMEXIT_QUALIFICATION s;
     let port_number = (ucast (drop_bit 16 qualification AND 0xFFFF) :: u32);
     let is_in = (BIT_AT qualification 3 = 1);
     let (handled, s) =
       (if port_number = IO_RTC then
          if \<not> is_in then (True, s\<lparr>port_iortc := ucast (reg_rax (regs_of e s))\<rparr>) else (False, s)
        else if port_number = IO_RTC + 1 then
          if is_in then
            (case nvram_value (port_iortc s) (env_vmxinfo (envs s e)) of
               Some v \<Rightarrow> (True, upd_regs e (reg_rax_update (\<lambda>_. v)) s)
             | None \<Rightarrow> (False, s))
          else (False, s)
        else (False, s));
     if handled then do { s \<leftarrow> advance_rip e s; Some (True, s) } else Some (False, s) }"

section \<open>CPUID\<close>

definition handle_cpuid :: "machine \<Rightarrow> nat \<Rightarrow> kernel \<Rightarrow> (bool \<times> kernel) may_panic" where
  "handle_cpuid hw e s = do {
     let i = (ucast (reg_rax (regs_of e s)) :: u32);
     let (eax, ebx, ecx, edx) = cpuid_leaf hw i;
     let ecx = (if i = 1 then ecx AND NOT 32 else ecx);
     let s = upd_regs e (\<lambda>g. g\<lparr>reg_rax := ucast eax, reg_rbx := ucast ebx, reg_rcx := ucast ecx,
       reg_rdx := ucast edx\<rparr>) s;
     s \<leftarrow> advance_rip e s;
     Some (True, s) }"

section \<open>Hypercalls\<close>

definition VMX_VMCALL_MBMAP :: u64 where "VMX_VMCALL_MBMAP = 1"
definition VMX_VMCALL_IPCSEND :: u64 where "VMX_VMCALL_IPCSEND = 2"
definition VMX_VMCALL_IPCRECV :: u64 where "VMX_VMCALL_IPCRECV = 3"
definition VMX_VMCALL_LAPICEOI :: u64 where "VMX_VMCALL_LAPICEOI = 4"
definition VMX_VMCALL_BACKTOHOST :: u64 where "VMX_VMCALL_BACKTOHOST = 5"
definition VMX_VMCALL_GETDISKIMGNUM :: u64 where "VMX_VMCALL_GETDISKIMGNUM = 6"

definition MB_TYPE_USABLE :: u32 where [const_defs]: "MB_TYPE_USABLE = 1"
definition MB_TYPE_RESERVED :: u32 where [const_defs]: "MB_TYPE_RESERVED = 2"
definition MB_FLAG_MMAP :: u32 where [const_defs]: "MB_FLAG_MMAP = 0x40"

record memory_map =
  mm_size :: u32
  base_addr_low :: u32
  base_addr_high :: u32
  length_low :: u32
  length_high :: u32
  mm_type :: u32

definition mmap_words :: "memory_map \<Rightarrow> u32 list" where
  "mmap_words m = [mm_size m, base_addr_low m, base_addr_high m, length_low m, length_high m, mm_type m]"

definition boot_map :: "VmxGuestInfo \<Rightarrow> memory_map list" where
  "boot_map gInfo =
    [\<lparr>mm_size = 20, base_addr_low = 0, base_addr_high = 0, length_low = ucast IOPHYSMEM,
      length_high = 0, mm_type = MB_TYPE_USABLE\<rparr>,
     \<lparr>mm_size = 20, base_addr_low = ucast IOPHYSMEM, base_addr_high = 0,
      length_low = ucast (EXTPHYSMEM - IOPHYSMEM), length_high = 0, mm_type = MB_TYPE_RESERVED\<rparr>,
     \<lparr>mm_size = 20, base_addr_low = ucast EXTPHYSMEM, base_addr_high = 0,
      length_low = ucast ((phys_sz gInfo - EXTPHYSMEM) AND 0xFFFFFFFF),
      length_high = ucast (signed_drop_bit 32 (phys_sz gInfo - EXTPHYSMEM) AND 0xFFFFFFFF),
      mm_type = MB_TYPE_USABLE\<rparr>]"

definition multiboot_map_addr :: u64 where "multiboot_map_addr = 0x6000"

text \<open>The 13 words of the \<^verbatim>\<open>multiboot_info_t\<close>: flags, ten words never set, length and address of the map.\<close>

definition mbinfo_words :: "u32 list \<Rightarrow> u32 list" where
  "mbinfo_words junk = MB_FLAG_MMAP # map (\<lambda>i. if i < length junk then junk ! i else 0) [0..<10] @
     [3 * 24, ucast (multiboot_map_addr + 52)]"

definition vmcall_mbmap :: "image \<Rightarrow> nat \<Rightarrow> kernel \<Rightarrow> (bool \<times> kernel) may_panic" where
  "vmcall_mbmap im e s = do {
     let bm = boot_map (env_vmxinfo (envs s e));
     (pp, s) \<leftarrow> page_alloc 0 s;
     case pp of
       None \<Rightarrow> Some (False, s)
     | Some p \<Rightarrow> do {
         let s = page_incref p s;
         host_va \<leftarrow> page2kva s p;
         s \<leftarrow> store32s host_va (mbinfo_words (mbinfo_junk im)) s;
         s \<leftarrow> store32s (host_va + 52) (concat (map mmap_words bm)) s;
         (r, s) \<leftarrow> ept_page_insert (env_pml4e (envs s e)) p multiboot_map_addr (ucast EPTE_FULL) True s;
         Some (True, upd_regs e (reg_rbx_update (\<lambda>_. multiboot_map_addr)) s) } }"

text \<open>
  The IPC hypercalls call \<^verbatim>\<open>syscall\<close>, whose first statement panics. The increment of the instruction
  pointer that the comment at the end asks for is missing.
\<close>

definition handle_vmcall :: "image \<Rightarrow> nat \<Rightarrow> kernel \<Rightarrow> (bool \<times> kernel) may_panic" where
  "handle_vmcall im e s =
     (let nr = reg_rax (regs_of e s) in
      if nr = VMX_VMCALL_MBMAP then vmcall_mbmap im e s
      else if nr = VMX_VMCALL_IPCSEND then None
      else if nr = VMX_VMCALL_IPCRECV then do { s \<leftarrow> advance_rip e s; None }
      else if nr = VMX_VMCALL_LAPICEOI then Some (True, s)
      else if nr = VMX_VMCALL_BACKTOHOST then do {
        c \<leftarrow> curenv s;
        let s = set_status c ENV_NOT_RUNNABLE s;
        s \<leftarrow> env_create (user_sh_addr im) (user_sh_bytes im) ENV_TYPE_USER s;
        Some (True, s) }
      else if nr = VMX_VMCALL_GETDISKIMGNUM then
        Some (True, upd_regs e (reg_rax_update (\<lambda>_. scast (vmdisk_number s))) s)
      else Some (False, s))"

section \<open>The dispatcher\<close>

definition vmexit :: "machine \<Rightarrow> image \<Rightarrow> kernel \<Rightarrow> (unit exec \<times> kernel) may_panic" where
  "vmexit hw im s = do {
     reason \<leftarrow> vmcs_read32 VMCS_32BIT_VMEXIT_REASON s;
     let reason = reason AND EXIT_REASON_MASK;
     e \<leftarrow> curenv s;
     if reason = EXIT_REASON_HLT then do {
       (r, s) \<leftarrow> env_destroy hw e s;
       case r of Returns _ \<Rightarrow> sched_yield hw s | _ \<Rightarrow> Some (r, s) }
     else do {
       (exit_handled, s) \<leftarrow>
         (if reason = EXIT_REASON_EXTERNAL_INT then do {
            vec \<leftarrow> vmcs_read32 VMCS_32BIT_VMEXIT_INTERRUPTION_INFO s;
            handle_interrupts vec (s\<lparr>host_vector := vec\<rparr>) }
          else if reason = EXIT_REASON_INTERRUPT_WINDOW then handle_interrupt_window (host_vector s) s
          else if reason = EXIT_REASON_RDMSR then handle_rdmsr e s
          else if reason = EXIT_REASON_WRMSR then handle_wrmsr e s
          else if reason = EXIT_REASON_EPT_VIOLATION then handle_eptviolation e s
          else if reason = EXIT_REASON_IO_INSTRUCTION then handle_ioinstr e s
          else if reason = EXIT_REASON_CPUID then handle_cpuid hw e s
          else if reason = EXIT_REASON_VMCALL then handle_vmcall im e s
          else Some (False, s));
       if exit_handled then sched_yield hw s
       else do {
         (r, s) \<leftarrow> env_destroy hw e s;
         case r of Returns _ \<Rightarrow> sched_yield hw s | _ \<Rightarrow> Some (r, s) } } }"

section \<open>Return from guest mode\<close>

text \<open>
  What the processor delivers at a VM exit: the guest's registers, its \<^verbatim>\<open>cr2\<close>, and the values it stores in
  the current VMCS (exit information and guest state). The assembly after the exit saves the registers and
  \<^verbatim>\<open>cr2\<close> in the frame, through the stack pointer that the processor took from \<^verbatim>\<open>VMCS_HOST_RSP\<close>: \<open>frame_rsp\<close> is
  the value that leads to the frame \<^verbatim>\<open>asm_vmrun\<close> had pushed; with any other value the code loads its
  pointer to the trap frame from unrelated memory.
\<close>

record vm_exit =
  exit_regs :: PushRegs
  exit_cr2 :: u64
  exit_fields :: "u32 \<Rightarrow> u64 \<Rightarrow> u64"
  frame_rsp :: u64

definition exit_vmcs :: "vm_exit \<Rightarrow> kernel \<Rightarrow> kernel" where
  "exit_vmcs x s =
     (case vmcs_cur s of None \<Rightarrow> s
      | Some p \<Rightarrow> s\<lparr>vmcs_data := (vmcs_data s)(p := \<lambda>f. exit_fields x f (vmcs_data s p f))\<rparr>)"

definition asm_vmrun_exit :: "machine \<Rightarrow> image \<Rightarrow> nat \<Rightarrow> vm_exit \<Rightarrow> kernel \<Rightarrow> (unit exec \<times> kernel) may_panic" where
  "asm_vmrun_exit hw im e x s = do {
     let s = exit_vmcs x s;
     rsp \<leftarrow> vmcs_readl VMCS_HOST_RSP s;
     guard_panic (rsp = frame_rsp x);
     let s = upd_tf e (\<lambda>tf. tf\<lparr>tf_regs := exit_regs x, tf_err := exit_cr2 x, tf_es := 0\<rparr>) s;
     s \<leftarrow> lock_kernel s;
     c \<leftarrow> curenv s;
     rsp \<leftarrow> vmcs_read64 VMCS_GUEST_RSP s;
     rip \<leftarrow> vmcs_read64 VMCS_GUEST_RIP s;
     let s = upd_tf c (\<lambda>tf. tf\<lparr>tf_rsp := rsp, tf_rip := rip\<rparr>) s;
     vmexit hw im s }"

end
