(* ===== verification/Syscall.thy ===== *)
theory Syscall
  imports Vmexits
begin

text \<open>
  System calls (\<^verbatim>\<open>kern/syscall.c\<close>). Most of the calls are not implemented and panic. \<^verbatim>\<open>syscall\<close> itself
  panics before it dispatches; the calls that are implemented, in particular those that create a guest and
  map memory into it, are reached through \<^verbatim>\<open>_export_sys_ept_map\<close> and direct calls only.
\<close>

section \<open>Implemented calls\<close>

definition sys_getenvid :: "kernel \<Rightarrow> u32 may_panic" where
  "sys_getenvid s = do { c \<leftarrow> curenv s; Some (env_id (envs s c)) }"

definition sys_env_destroy :: "machine \<Rightarrow> u32 \<Rightarrow> kernel \<Rightarrow> (int exec \<times> kernel) may_panic" where
  "sys_env_destroy hw envid s = do {
     (r, eo) \<leftarrow> envid2env envid True s;
     if r < 0 then Some (Returns r, s)
     else do {
       e \<leftarrow> eo;
       (r, s) \<leftarrow> env_destroy hw e s;
       Some (case r of Returns _ \<Rightarrow> Returns 0 | Enter_Guest g en \<Rightarrow> Enter_Guest g en
         | Enter_User u \<Rightarrow> Enter_User u | Halted \<Rightarrow> Halted | Monitor \<Rightarrow> Monitor, s) } }"

definition sys_yield :: "machine \<Rightarrow> kernel \<Rightarrow> (unit exec \<times> kernel) may_panic" where
  "sys_yield hw s = sched_yield hw s"

definition sys_vmx_list_vms :: "kernel \<Rightarrow> (nat \<times> u32) list" where
  "sys_vmx_list_vms s = vmx_list_vms s"

definition sys_vmx_sel_resume :: "int \<Rightarrow> kernel \<Rightarrow> bool \<times> kernel" where
  "sys_vmx_sel_resume i s = vmx_sel_resume i s"

definition sys_vmx_get_vmdisk_number :: "kernel \<Rightarrow> u32" where
  "sys_vmx_get_vmdisk_number s = vmx_get_vmdisk_number s"

definition sys_vmx_incr_vmdisk_number :: "kernel \<Rightarrow> kernel" where
  "sys_vmx_incr_vmdisk_number s = vmx_incr_vmdisk_number s"

text \<open>
  A null environment pointer, which \<^verbatim>\<open>envid2env\<close> delivers for id 0 when no environment is current, is
  dereferenced.
\<close>

definition sys_ept_map :: "u32 \<Rightarrow> u64 \<Rightarrow> u32 \<Rightarrow> u64 \<Rightarrow> u32 \<Rightarrow> kernel \<Rightarrow> (int \<times> kernel) may_panic" where
  "sys_ept_map srcenvid srcva guest guest_pa perm s = do {
     (r, src) \<leftarrow> envid2env srcenvid True s;
     if r < 0 then Some (r, s) else do {
     (r, gst) \<leftarrow> envid2env guest True s;
     if r < 0 then Some (r, s) else do {
     srcenv \<leftarrow> src;
     guestenv \<leftarrow> gst;
     if srcva \<ge> UTOP \<or> PGOFF srcva \<noteq> 0 \<or> PGOFF guest_pa \<noteq> 0 \<or>
        guest_pa \<ge> phys_sz (env_vmxinfo (envs s guestenv))
     then Some (- E_INVAL, s) else do {
     (lk, s) \<leftarrow> page_lookup (env_pml4e (envs s srcenv)) srcva s;
     case lk of None \<Rightarrow> Some (- E_INVAL, s) | Some (p, pte) \<Rightarrow> do {
     bad \<leftarrow> (if perm = 0 then Some True
            else if perm AND ucast EPTE_WRITE \<noteq> 0 then do { w \<leftarrow> load64 s pte; Some (w AND PTE_W = 0) }
            else Some False);
     if bad then Some (- E_INVAL, s) else do {
     (r, s) \<leftarrow> ept_page_insert (env_pml4e (envs s guestenv)) p guest_pa perm False s;
     if r < 0 then Some (r, s)
     else Some (0, page_incref p s) } } } } } }"

definition sys_env_mkguest :: "machine \<Rightarrow> u64 \<Rightarrow> u64 \<Rightarrow> kernel \<Rightarrow> (int \<times> kernel) may_panic" where
  "sys_env_mkguest hw gphysz gRIP s =
     (if \<not> vmx_check_support hw then Some (- E_NO_VMX, s)
      else if \<not> vmx_check_ept s then Some (- E_NO_EPT, s)
      else do {
        c \<leftarrow> curenv s;
        ((r, eo), s) \<leftarrow> env_guest_alloc (env_id (envs s c)) s;
        if r < 0 then Some (r, s)
        else do {
          e \<leftarrow> eo;
          let s = upd_env e (\<lambda>x. x\<lparr>env_status := ENV_NOT_RUNNABLE,
            env_vmxinfo := (env_vmxinfo x)\<lparr>phys_sz := gphysz\<rparr>,
            env_tf := (env_tf x)\<lparr>tf_rip := gRIP\<rparr>\<rparr>) s;
          Some (sint (env_id (envs s e)), s) } })"

section \<open>Calls that are not implemented\<close>

definition sys_exofork :: "kernel \<Rightarrow> (int \<times> kernel) may_panic" where
  "sys_exofork s = None"

definition sys_env_set_status :: "u32 \<Rightarrow> int \<Rightarrow> kernel \<Rightarrow> (int \<times> kernel) may_panic" where
  "sys_env_set_status envid status s = None"

definition sys_env_set_trapframe :: "u32 \<Rightarrow> u64 \<Rightarrow> kernel \<Rightarrow> (int \<times> kernel) may_panic" where
  "sys_env_set_trapframe envid tf s = None"

definition sys_env_set_pgfault_upcall :: "u32 \<Rightarrow> u64 \<Rightarrow> kernel \<Rightarrow> (int \<times> kernel) may_panic" where
  "sys_env_set_pgfault_upcall envid func s = None"

definition sys_page_alloc :: "u32 \<Rightarrow> u64 \<Rightarrow> u32 \<Rightarrow> kernel \<Rightarrow> (int \<times> kernel) may_panic" where
  "sys_page_alloc envid va perm s = None"

definition sys_page_map :: "u32 \<Rightarrow> u64 \<Rightarrow> u32 \<Rightarrow> u64 \<Rightarrow> u32 \<Rightarrow> kernel \<Rightarrow> (int \<times> kernel) may_panic" where
  "sys_page_map srcenvid srcva dstenvid dstva perm s = None"

definition sys_page_unmap :: "u32 \<Rightarrow> u64 \<Rightarrow> kernel \<Rightarrow> (int \<times> kernel) may_panic" where
  "sys_page_unmap envid va s = None"

definition sys_ipc_try_send :: "u32 \<Rightarrow> u32 \<Rightarrow> u64 \<Rightarrow> u32 \<Rightarrow> kernel \<Rightarrow> (int \<times> kernel) may_panic" where
  "sys_ipc_try_send envid value srcva perm s = None"

definition sys_ipc_recv :: "u64 \<Rightarrow> kernel \<Rightarrow> (int \<times> kernel) may_panic" where
  "sys_ipc_recv dstva s = None"

definition sys_time_msec :: "kernel \<Rightarrow> (int \<times> kernel) may_panic" where
  "sys_time_msec s = None"

definition syscall :: "u64 \<Rightarrow> u64 \<Rightarrow> u64 \<Rightarrow> u64 \<Rightarrow> u64 \<Rightarrow> u64 \<Rightarrow> kernel \<Rightarrow> (int \<times> kernel) may_panic" where
  "syscall syscallno a1 a2 a3 a4 a5 s = None"

definition export_sys_ept_map :: "u32 \<Rightarrow> u64 \<Rightarrow> u32 \<Rightarrow> u64 \<Rightarrow> u32 \<Rightarrow> kernel \<Rightarrow> (int \<times> kernel) may_panic" where
  "export_sys_ept_map srcenvid srcva guest guest_pa perm s = sys_ept_map srcenvid srcva guest guest_pa perm s"

end
