(* ===== verification/Vmx_Correct.thy ===== *)
theory Vmx_Correct
  imports Vmx
begin

text \<open>
  Correctness of entering VMX operation and of the VM entry path of \<^verbatim>\<open>vmm/vmx.c\<close>.
\<close>

section \<open>32-bit accesses to an aligned cell\<close>

lemma mask_3: "(7::u64) = mask 3"
  by (simp add: mask_eq_exp_minus_1)

lemma aligned_8:
  fixes x :: u64
  shows "8 * x AND NOT 7 = 8 * x" "\<not> bit (8 * x) 2"
proof -
  have "8 * x = push_bit 3 x" by (simp add: push_bit_eq_mult)
  then show "8 * x AND NOT 7 = 8 * x" "\<not> bit (8 * x) 2"
    unfolding mask_3 by (auto intro!: bit_word_eqI simp: bit_simps)
qed

lemma slot_8: "slot p i + KERNBASE = 8 * (512 * of_nat p + i + KERNBASE div 8)"
  by (simp add: slot_def page2pa_def push_bit_eq_mult const_defs)

lemma slot_align [simp]:
  "slot p i + KERNBASE AND NOT 7 = slot p i + KERNBASE" "\<not> bit (slot p i + KERNBASE) 2"
  unfolding slot_8 by (rule aligned_8)+

lemmas slot_align_8 [simp] = slot_align(1) [simplified]

lemma store32_slot:
  assumes "phys_ok s" "p < npages s" "i < 512"
  shows "store32 (slot p i + KERNBASE) v s =
    Some (s\<lparr>mem := (mem s)(slot p i := put_half False v (mem s (slot p i)))\<rparr>)"
  using assms by (simp add: store32_def load64_slot store64_slot)

lemma load32_slot:
  assumes "phys_ok s" "p < npages s" "i < 512"
  shows "load32 s (slot p i + KERNBASE) = Some (ucast (mem s (slot p i)))"
  using assms by (simp add: load32_def load64_slot)

lemma put_half_low: "(ucast (put_half False v w) :: u32) = v"
  by (rule bit_word_eqI) (auto simp: put_half_def bit_simps)

lemma page_slot: "page2pa p + KERNBASE = slot p 0 + KERNBASE"
  by (simp add: slot_def)

section \<open>The VMCS region\<close>

lemma small_size: "(ucast (x AND 0xFFF :: u64) :: u32) \<le> 4096"
proof -
  have "unat (x AND 0xFFF) < 4096"
    using take_bit_less_u64 [of 12 x] unfolding mask_12 take_bit_eq_mask [symmetric]
    by (simp add: word_less_nat_alt)
  then show ?thesis by (simp add: word_le_nat_alt unsigned_ucast_eq take_bit_nat_eq_self)
qed

text \<open>The state after a page has been allocated, referenced once and tagged with the revision id.\<close>

definition vmcs_page :: "nat \<Rightarrow> kernel \<Rightarrow> kernel" where
  "vmcs_page p s = (page_incref p (taken p s))\<lparr>mem := (zero_page p (mem s))
     (slot p 0 := put_half False (ucast (read_msr IA32_VMX_BASIC s)) 0)\<rparr>"

lemma vmx_init_vmcs_exec:
  assumes "alloc_wf s (p # fl)"
  shows "vmx_init_vmcs s = Some (Some p, vmcs_page p s)"
proof -
  have p: "p < npages s" "phys_ok s" "p < 2 ^ 27" using assms alloc_wf_Cons by auto
  then have "phys_ok (page_incref p (taken p s))" by (simp add: phys_ok_def)
  with p show ?thesis
    using page_alloc_zero [OF assms] small_size [of "drop_bit 32 (read_msr IA32_VMX_BASIC s)"]
    by (simp add: vmx_init_vmcs_def page_incref_mem page2kva_page page_slot store32_slot
        zero_page_slot vmcs_page_def phys_ok_def)
qed

lemma vmx_init_vmcs_empty: "alloc_wf s [] \<Longrightarrow> vmx_init_vmcs s = Some (None, s)"
  using small_size [of "drop_bit 32 (read_msr IA32_VMX_BASIC s)"]
  by (simp add: vmx_init_vmcs_def page_alloc_empty)

lemma vmcs_page_wf:
  assumes "alloc_wf s (p # fl)"
  shows "alloc_wf (vmcs_page p s) fl" "pp_ref (pages (vmcs_page p s) p) = 1"
    "pp_link (pages (vmcs_page p s) p) = None" "npages (vmcs_page p s) = npages s"
    "\<forall>q. q \<noteq> p \<longrightarrow> pages (vmcs_page p s) q = pages s q" "mem (vmcs_page p s) (slot p 0) =
      put_half False (ucast (read_msr IA32_VMX_BASIC s)) 0"
proof -
  show "alloc_wf (vmcs_page p s) fl"
    unfolding vmcs_page_def alloc_wf_mem
    by (rule alloc_wf_incref [OF taken_wf [OF assms]]) (use alloc_wf_Cons [OF assms] in simp)
  have "pp_ref (pages s p) = 0" using assms by (simp add: alloc_wf_def)
  then show "pp_ref (pages (vmcs_page p s) p) = 1"
    by (simp add: vmcs_page_def page_incref_def upd_page_def)
qed (simp_all add: vmcs_page_def page_incref_def upd_page_def taken_def)

lemma vmcs_page_fields [simp]:
  "cr0 (vmcs_page p s) = cr0 s" "cr4 (vmcs_page p s) = cr4 s" "cpus (vmcs_page p s) = cpus s"
  "this_cpu (vmcs_page p s) = this_cpu s" "msrs (vmcs_page p s) = msrs s"
  by (simp_all add: vmcs_page_def)

section \<open>Entering VMX operation\<close>

text \<open>The state a failing \<^verbatim>\<open>vmx_init_vmxon\<close> leaves gives the page back.\<close>

lemma vmcs_page_decref:
  assumes wf: "alloc_wf s (p # fl)"
    and same: "npages t = npages (vmcs_page p s)" "pages t = pages (vmcs_page p s)"
      "page_free_list t = page_free_list (vmcs_page p s)"
  shows "alloc_wf (page_decref p t) (p # fl)"
proof -
  have "alloc_wf t fl" using vmcs_page_wf(1) [OF wf] same by (simp cong: alloc_wf_cong)
  then show ?thesis
    using page_decref_wf [of t fl p] vmcs_page_wf [OF wf] same alloc_wf_Cons [OF wf] by simp
qed

lemma alloc_wf_cpus [simp]: "alloc_wf (s\<lparr>cpus := c\<rparr>) fl = alloc_wf s fl"
  by (rule alloc_wf_cong) simp_all

lemma load32_cpus [simp]: "load32 (s\<lparr>cpus := c\<rparr>) a = load32 s a"
  by (simp add: load32_def load64_def kva_mapped_def)

lemma write_msr_fields [simp]:
  "npages (write_msr hw i v s) = npages s" "pages (write_msr hw i v s) = pages s"
  "page_free_list (write_msr hw i v s) = page_free_list s" "mem (write_msr hw i v s) = mem s"
  "cpus (write_msr hw i v s) = cpus s" "this_cpu (write_msr hw i v s) = this_cpu s"
  by (simp_all add: write_msr_def)

lemma enable_feature_control_fields [simp]:
  "npages (snd (enable_feature_control hw s)) = npages s"
  "pages (snd (enable_feature_control hw s)) = pages s"
  "page_free_list (snd (enable_feature_control hw s)) = page_free_list s"
  "mem (snd (enable_feature_control hw s)) = mem s"
  "this_cpu (snd (enable_feature_control hw s)) = this_cpu s"
  "cpus (snd (enable_feature_control hw s)) = cpus s"
  by (simp_all add: enable_feature_control_def Let_def)


definition quiet_machine :: machine where
  "quiet_machine = \<lparr>cpuid_leaf = (\<lambda>_. (0, 0, 0x20, 0)), wrmsr_result = (\<lambda>_ _ v. v),
     vmxon_fails = (\<lambda>_ _. False), vmclear_fails = (\<lambda>_ _. False), vmptrld_fails = (\<lambda>_ _. False),
     idtr_base = 0, gdtr_base = 0, cpu_ts_addr = (\<lambda>_. 0), vmx_return = 0\<rparr>"


section \<open>The initial guest and host state\<close>

lemma hi_link: "enc_hi VMCS_64BIT_GUEST_LINK_POINTER_HI"
  "VMCS_64BIT_GUEST_LINK_POINTER_HI - 1 = VMCS_64BIT_GUEST_LINK_POINTER"
  by (simp_all add: enc_hi_def vmcs_consts)

lemma vmcs_readl_ready: "vmcs_cur s \<noteq> None \<Longrightarrow> \<exists>w. vmcs_readl f s = Some w"
  by (auto simp: vmcs_readl_def)

text \<open>
  The field values after \<^verbatim>\<open>vmcs_guest_init\<close>: a lookup in the list of writes, where the two writes of
  the link pointer combine.
\<close>

definition guest_writes :: "(u32 \<times> u64) list" where
  "guest_writes =
     map (\<lambda>f. (f, 0)) [VMCS_16BIT_GUEST_CS_SELECTOR, VMCS_16BIT_GUEST_ES_SELECTOR,
       VMCS_16BIT_GUEST_SS_SELECTOR, VMCS_16BIT_GUEST_DS_SELECTOR, VMCS_16BIT_GUEST_FS_SELECTOR,
       VMCS_16BIT_GUEST_GS_SELECTOR, VMCS_16BIT_GUEST_TR_SELECTOR, VMCS_16BIT_GUEST_LDTR_SELECTOR,
       VMCS_GUEST_CS_BASE, VMCS_GUEST_ES_BASE, VMCS_GUEST_SS_BASE, VMCS_GUEST_DS_BASE,
       VMCS_GUEST_FS_BASE, VMCS_GUEST_GS_BASE, VMCS_GUEST_LDTR_BASE, VMCS_GUEST_GDTR_BASE,
       VMCS_GUEST_IDTR_BASE, VMCS_GUEST_TR_BASE, VMCS_32BIT_GUEST_ACTIVITY_STATE,
       VMCS_32BIT_GUEST_INTERRUPTIBILITY_STATE, VMCS_GUEST_CR3, VMCS_GUEST_DR7] @
     map (\<lambda>f. (f, 0xFFFF)) [VMCS_32BIT_GUEST_CS_LIMIT, VMCS_32BIT_GUEST_ES_LIMIT,
       VMCS_32BIT_GUEST_SS_LIMIT, VMCS_32BIT_GUEST_DS_LIMIT, VMCS_32BIT_GUEST_FS_LIMIT,
       VMCS_32BIT_GUEST_GS_LIMIT, VMCS_32BIT_GUEST_LDTR_LIMIT] @
     map (\<lambda>f. (f, 0x93)) [VMCS_32BIT_GUEST_CS_ACCESS_RIGHTS, VMCS_32BIT_GUEST_ES_ACCESS_RIGHTS,
       VMCS_32BIT_GUEST_SS_ACCESS_RIGHTS, VMCS_32BIT_GUEST_DS_ACCESS_RIGHTS,
       VMCS_32BIT_GUEST_FS_ACCESS_RIGHTS, VMCS_32BIT_GUEST_GS_ACCESS_RIGHTS] @
     [(VMCS_32BIT_GUEST_TR_LIMIT, 0xFFFFF), (VMCS_32BIT_GUEST_GDTR_LIMIT, 0x30),
      (VMCS_32BIT_GUEST_IDTR_LIMIT, 0x3FF), (VMCS_32BIT_GUEST_LDTR_ACCESS_RIGHTS, 0x82),
      (VMCS_32BIT_GUEST_TR_ACCESS_RIGHTS, 0x8B), (VMCS_GUEST_CR0, CR0_NE),
      (VMCS_GUEST_CR4, CR4_VMXE), (VMCS_GUEST_RFLAGS, 2),
      (VMCS_64BIT_GUEST_LINK_POINTER, 0xFFFFFFFFFFFFFFFF)]"

lemma vmcs_guest_init_fields:
  assumes "vmcs_cur s \<noteq> None"
  shows "list_all (\<lambda>(f, v). vmcs_readl f (vmcs_guest_init s) = Some v) guest_writes"
  using assms
  by (simp add: guest_writes_def vmcs_guest_init_def vmcs_readl_writes vmcs_readl_hi hi_link
      vmcs_consts enc_hi_def enc_width_def enc_width_class_def const_defs del: vmcs_writes.simps)

lemma vmcs_guest_init_other:
  assumes "vmcs_cur s \<noteq> None" "\<not> enc_hi f" "f \<notin> set (map fst guest_writes)"
  shows "vmcs_readl f (vmcs_guest_init s) = vmcs_readl f s"
proof -
  obtain w where "vmcs_readl f s = Some w" using vmcs_readl_ready [OF assms(1)] by auto
  then show ?thesis
    using assms
    by (simp add: guest_writes_def vmcs_guest_init_def vmcs_readl_writes vmcs_readl_hi [of _ f] hi_link
        vmcs_consts enc_hi_def del: vmcs_writes.simps)
qed



section \<open>The control fields\<close>

lemma vmcs_writel_frame [simp]:
  "msrs (vmcs_writel f v s) = msrs s" "envs (vmcs_writel f v s) = envs s"
  "npages (vmcs_writel f v s) = npages s" "mem (vmcs_writel f v s) = mem s"
  "pages (vmcs_writel f v s) = pages s" "page_free_list (vmcs_writel f v s) = page_free_list s"
  "cpus (vmcs_writel f v s) = cpus s" "this_cpu (vmcs_writel f v s) = this_cpu s"
  "kernel_lock (vmcs_writel f v s) = kernel_lock s" "curenv (vmcs_writel f v s) = curenv s"
  by (simp_all add: vmcs_writel_def curenv_def thiscpu_def split: option.split)

text \<open>The bits a capability register allows, those it requires, and the controls the code writes.\<close>

definition allowed1 :: "u32 \<Rightarrow> kernel \<Rightarrow> u32" where
  "allowed1 msr s = fst (vmx_read_capability_msr msr s)"

definition required1 :: "u32 \<Rightarrow> kernel \<Rightarrow> u32" where
  "required1 msr s = snd (vmx_read_capability_msr msr s)"

definition ctl_value :: "u32 \<Rightarrow> u32 \<Rightarrow> kernel \<Rightarrow> u32" where
  "ctl_value msr wanted s = (required1 msr s OR wanted) AND allowed1 msr s"

definition proc_value :: "kernel \<Rightarrow> u32" where
  "proc_value s = (required1 IA32_VMX_PROCBASED_CTLS s OR 0x82000080) AND NOT 0x18200 AND
     allowed1 IA32_VMX_PROCBASED_CTLS s"

definition control_writes :: "nat \<Rightarrow> kernel \<Rightarrow> (u32 \<times> u64) list" where
  "control_writes e s = (let vi = env_vmxinfo (envs s e); n = ucast (of_nat (msr_count vi) :: u32) in
    [(VMCS_32BIT_CONTROL_PIN_BASED_EXEC_CONTROLS, ucast (ctl_value IA32_VMX_PINBASED_CTLS 1 s)),
     (VMCS_32BIT_CONTROL_PROCESSOR_BASED_VMEXEC_CONTROLS, ucast (proc_value s)),
     (VMCS_32BIT_CONTROL_SECONDARY_VMEXEC_CONTROLS,
        ucast (ctl_value IA32_VMX_PROCBASED_CTLS2 0x82 s)),
     (VMCS_32BIT_CONTROL_VMEXIT_CONTROLS, ucast (ctl_value IA32_VMX_EXIT_CTLS 0x8200 s)),
     (VMCS_64BIT_CONTROL_VMEXIT_MSR_STORE_ADDR, msr_guest_area vi - KERNBASE),
     (VMCS_32BIT_CONTROL_VMEXIT_MSR_STORE_COUNT, n),
     (VMCS_64BIT_CONTROL_VMEXIT_MSR_LOAD_ADDR, msr_host_area vi - KERNBASE),
     (VMCS_32BIT_CONTROL_VMEXIT_MSR_LOAD_COUNT, n),
     (VMCS_64BIT_CONTROL_VMENTRY_MSR_LOAD_ADDR, msr_guest_area vi - KERNBASE),
     (VMCS_32BIT_CONTROL_VMENTRY_MSR_LOAD_COUNT, n),
     (VMCS_32BIT_CONTROL_VMENTRY_CONTROLS, ucast (ctl_value IA32_VMX_ENTRY_CTLS 0 s)),
     (VMCS_64BIT_CONTROL_EPTPTR, env_cr3 (envs s e) OR 0x18),
     (VMCS_32BIT_CONTROL_EXCEPTION_BITMAP, ucast (exception_bmap vi)),
     (VMCS_64BIT_CONTROL_IO_BITMAP_A, io_bmap_a vi - KERNBASE),
     (VMCS_64BIT_CONTROL_IO_BITMAP_B, io_bmap_b vi - KERNBASE)])"

definition areas_ok :: "VmxGuestInfo \<Rightarrow> bool" where
  "areas_ok vi \<longleftrightarrow> KERNBASE \<le> msr_guest_area vi \<and> KERNBASE \<le> msr_host_area vi \<and>
     KERNBASE \<le> io_bmap_a vi \<and> KERNBASE \<le> io_bmap_b vi"

lemma PADDR_ok: "KERNBASE \<le> kva \<Longrightarrow> PADDR kva = Some (kva - KERNBASE)"
  by (simp add: PADDR_def not_less)

lemma vmcs_readl_writes_other:
  assumes "vmcs_cur s \<noteq> None" "\<not> enc_hi g" "list_all (\<lambda>w. \<not> enc_hi (fst w)) ws" "g \<notin> set (map fst ws)"
  shows "vmcs_readl g (vmcs_writes ws s) = vmcs_readl g s"
proof -
  have "map_of (rev ws) g = None" using assms(4) by (simp add: map_of_eq_None_iff)
  then show ?thesis using assms by (simp add: vmcs_readl_writes)
qed

lemma vmcs_ctls_init_writes:
  assumes "areas_ok (env_vmxinfo (envs s e))" "bit (allowed1 IA32_VMX_PROCBASED_CTLS s) 31"
  shows "vmcs_ctls_init e s = Some (vmcs_writes (control_writes e s) s)"
  using assms
  by (simp add: vmcs_ctls_init_def control_writes_def areas_ok_def PADDR_ok allowed1_def required1_def
      ctl_value_def proc_value_def vmx_read_capability_msr_def read_msr_def vmcs_write32_def
      vmcs_write64_def BIT_AT_eq Let_def vmcs_consts EPT_LEVELS_def bit_ucast_iff or.assoc and.assoc)

lemma vmcs_ctls_init_panics:
  "\<not> bit (allowed1 IA32_VMX_PROCBASED_CTLS s) 31 \<Longrightarrow> vmcs_ctls_init e s = None"
  by (simp add: vmcs_ctls_init_def allowed1_def vmx_read_capability_msr_def read_msr_def
      vmcs_write32_def BIT_AT_eq Let_def bit_ucast_iff)

text \<open>
  A control value suits a capability register when it sets no bit that must be 0 and every wanted bit
  that may be 1; if the register is consistent it also sets every bit that must be 1, apart from
  those in \<open>off\<close>, which are cleared.
\<close>

definition suits :: "u32 \<Rightarrow> u32 \<Rightarrow> u32 \<Rightarrow> u32 \<Rightarrow> u32 \<Rightarrow> bool" where
  "suits must may wanted off c \<longleftrightarrow> c AND NOT may = 0 \<and> (wanted AND may) AND NOT c = 0 \<and> c AND off = 0 \<and>
     (must AND NOT may = 0 \<longrightarrow> must AND NOT off AND NOT c = 0)"

lemma suits_masked:
  "wanted AND off = 0 \<Longrightarrow> suits must may wanted off ((must OR wanted) AND NOT off AND may)"
  by (auto simp: suits_def bit_eq_iff bit_simps)

lemma suits_ctl: "suits (required1 m s) (allowed1 m s) wanted 0 (ctl_value m wanted s)"
  using suits_masked [of wanted 0 "required1 m s" "allowed1 m s"] by (simp add: ctl_value_def)

lemma suits_proc:
  "suits (required1 IA32_VMX_PROCBASED_CTLS s) (allowed1 IA32_VMX_PROCBASED_CTLS s) 0x82000080 0x18200
     (proc_value s)"
  unfolding proc_value_def by (rule suits_masked) simp

lemma take_bit_64 [simp]: "take_bit 64 (x :: u64) = x"
  by (rule take_bit_word_eq_self) simp

lemma take_bit_ucast_32: "take_bit 32 (ucast (c :: u32) :: u64) = ucast c"
  by (rule bit_word_eqI) (auto simp: bit_simps dest: bit_imp_le_length)

lemma control_writes_plain: "list_all (\<lambda>w. \<not> enc_hi (fst w)) (control_writes e s)"
  by (simp add: control_writes_def Let_def enc_hi_def vmcs_consts)

lemma control_fields:
  fixes e :: nat
  assumes "vmcs_cur s \<noteq> None"
  defines "s' \<equiv> vmcs_writes (control_writes e s) s"
  shows "vmcs_readl VMCS_32BIT_CONTROL_PIN_BASED_EXEC_CONTROLS s' =
      Some (ucast (ctl_value IA32_VMX_PINBASED_CTLS 1 s))"
    "vmcs_readl VMCS_32BIT_CONTROL_PROCESSOR_BASED_VMEXEC_CONTROLS s' = Some (ucast (proc_value s))"
    "vmcs_readl VMCS_32BIT_CONTROL_SECONDARY_VMEXEC_CONTROLS s' =
      Some (ucast (ctl_value IA32_VMX_PROCBASED_CTLS2 0x82 s))"
    "vmcs_readl VMCS_32BIT_CONTROL_VMEXIT_CONTROLS s' =
      Some (ucast (ctl_value IA32_VMX_EXIT_CTLS 0x8200 s))"
    "vmcs_readl VMCS_32BIT_CONTROL_VMENTRY_CONTROLS s' =
      Some (ucast (ctl_value IA32_VMX_ENTRY_CTLS 0 s))"
    "vmcs_readl VMCS_64BIT_CONTROL_EPTPTR s' = Some (env_cr3 (envs s e) OR 0x18)"
    "vmcs_readl VMCS_64BIT_CONTROL_VMENTRY_MSR_LOAD_ADDR s' =
      Some (msr_guest_area (env_vmxinfo (envs s e)) - KERNBASE)"
    "vmcs_readl VMCS_64BIT_CONTROL_IO_BITMAP_A s' =
      Some (io_bmap_a (env_vmxinfo (envs s e)) - KERNBASE)"
  using assms(1) unfolding s'_def
  by (simp_all add: vmcs_readl_writes control_writes_def Let_def vmcs_consts enc_hi_def enc_width_def
      enc_width_class_def take_bit_ucast_32 del: vmcs_writes.simps)


definition vmx_ready_env :: kernel where
  "vmx_ready_env = bss_state\<lparr>vmcs_cur := Some 0, msrs := (\<lambda>_. 0xFFFFFFFF00000000),
     envs := (\<lambda>_. zero_env\<lparr>env_vmxinfo := zero_vmxinfo\<lparr>io_bmap_a := KERNBASE, io_bmap_b := KERNBASE,
       msr_host_area := KERNBASE, msr_guest_area := KERNBASE\<rparr>\<rparr>)\<rparr>"


end
