(* ===== verification/Env_Correct.thy ===== *)
theory Env_Correct
  imports Env_Table Vmx_Correct
begin

text \<open>
  Correctness of the environment table: ids, the free list of environments, creation of user and guest
  environments.
\<close>

section \<open>Environment ids\<close>

lemma sint_eq: "sint (w :: u32) = uint w - 2 ^ 32 * of_bool (bit w 31)"
proof -
  have "bit (uint w) 31 \<longleftrightarrow> bit w 31" by (simp add: bit_uint_iff)
  moreover have "take_bit 32 (uint w) = uint w" using uint_lt2p [of w] by (simp add: take_bit_int_eq_self)
  ultimately show ?thesis
    by (simp add: sint_uint signed_take_bit_eq_take_bit_minus)
qed

lemma sint_pos: "0 < sint (w :: u32) \<longleftrightarrow> w \<noteq> 0 \<and> \<not> bit w 31"
proof -
  have "0 \<le> uint w" by simp
  then have "uint w \<noteq> 0 \<longleftrightarrow> 0 < uint w" by linarith
  moreover have "w \<noteq> 0 \<longleftrightarrow> uint w \<noteq> 0" by (simp add: word_uint_eq_iff)
  ultimately show ?thesis using uint_lt2p [of w] by (cases "bit w 31") (simp_all add: sint_eq)
qed

lemma mask_10: "(1023::u32) = mask 10"
  by (simp add: mask_eq_exp_minus_1)

lemma of_nat_index: "i < 1024 \<Longrightarrow> (of_nat i :: u32) AND 1023 = of_nat i"
  unfolding mask_10 take_bit_eq_mask [symmetric]
  by (simp add: take_bit_of_nat take_bit_nat_eq_self)

definition env_gen :: "u32 \<Rightarrow> u32" where
  "env_gen old = (let g = (old + 0x1000) AND NOT 1023 in if sint g \<le> 0 then 0x1000 else g)"

lemma next_env_id_eq: "next_env_id old i = env_gen old OR of_nat i"
  by (simp add: next_env_id_def env_gen_def ENVGENSHIFT_def Let_def)

lemma env_gen_index: "env_gen old AND 1023 = 0"
  by (simp add: env_gen_def Let_def and.assoc)

lemma env_gen_pos: "0 < sint (env_gen old)"
  by (simp add: env_gen_def Let_def)

text \<open>Adding a multiple of 1024 commutes with clearing the index.\<close>

lemma clear_index: "(x :: u32) AND NOT 1023 = x - take_bit 10 x"
proof -
  have "x AND NOT 1023 = push_bit 10 (drop_bit 10 x)"
    unfolding mask_10 by (rule bit_word_eqI) (auto simp: bit_simps)
  then show ?thesis using bits_ident [of 10 x] by (simp add: algebra_simps)
qed

lemma env_gen_step: "((x :: u32) + 0x1000) AND NOT 1023 = (x AND NOT 1023) + 0x1000"
proof -
  have "(k + 4096) mod 1024 = k mod 1024" for k :: int
    using mod_mult_self2 [of k 1024 4] by simp
  then have "take_bit 10 (x + 0x1000) = take_bit 10 x" by transfer (simp add: take_bit_eq_mod mod_mod_cancel)
  then show ?thesis unfolding clear_index by simp
qed

lemma env_gen_fresh: "env_gen old \<noteq> old AND NOT 1023"
proof
  assume eq: "env_gen old = old AND NOT 1023"
  let ?h = "old AND NOT 1023"
  have g: "(old + 0x1000) AND NOT 1023 = ?h + 0x1000" by (rule env_gen_step)
  have "sint ((old + 0x1000) AND NOT 1023) \<le> 0 \<Longrightarrow> ?h = 0x1000"
    using eq by (simp add: env_gen_def Let_def)
  moreover have "\<not> sint ((old + 0x1000) AND NOT 1023) \<le> 0 \<Longrightarrow> ?h + 0x1000 = ?h"
    using eq g by (simp add: env_gen_def Let_def)
  ultimately show False using g by (cases "sint ((old + 0x1000) AND NOT 1023) \<le> 0") simp_all
qed

lemma next_env_id_low:
  assumes "i < NENV"
  shows "next_env_id old i AND 1023 = of_nat i" "next_env_id old i AND NOT 1023 = env_gen old"
proof -
  have i: "i < 1024" using assms by (simp add: NENV_def)
  show "next_env_id old i AND 1023 = of_nat i"
    using of_nat_index [OF i] env_gen_index [of old]
    by (simp add: next_env_id_eq bit.conj_disj_distrib2)
  have "env_gen old AND NOT 1023 = env_gen old" using env_gen_index [of old]
    unfolding clear_index by (simp add: mask_10 take_bit_eq_mask)
  moreover have "(of_nat i :: u32) AND NOT 1023 = 0"
    using of_nat_index [OF i] unfolding clear_index by (simp add: mask_10 take_bit_eq_mask)
  ultimately show "next_env_id old i AND NOT 1023 = env_gen old"
    by (simp add: next_env_id_eq bit.conj_disj_distrib2)
qed

lemma ENVX_next_env_id: "i < NENV \<Longrightarrow> ENVX (next_env_id old i) = i"
  by (simp add: ENVX_def next_env_id_low unat_of_nat NENV_def)

lemma next_env_id_pos:
  assumes "i < NENV"
  shows "0 < sint (next_env_id old i)"
proof -
  have "(of_nat i :: u32) AND 1023 = of_nat i" using assms of_nat_index by (simp add: NENV_def)
  then have "\<not> bit (of_nat i :: u32) 31"
    using bit_and_iff [of "of_nat i :: u32" 1023 31] by (simp add: mask_10 bit_mask_iff)
  then show ?thesis
    using env_gen_pos [of old] by (auto simp: sint_pos next_env_id_eq bit_or_iff or_eq_0_iff)
qed

lemma next_env_id_nonzero: "i < NENV \<Longrightarrow> next_env_id old i \<noteq> 0"
  using next_env_id_pos [of i old] by auto

text \<open>
  C39. Environment ids. Whatever id slot \<open>i\<close> of the table had before, the id of its next environment is
  positive, so it is neither 0, which stands for the caller, nor an error code, also when the generation
  counter overflows; its index part is \<open>i\<close>; and its generation differs from that of the previous id, which
  therefore does not refer to the new environment.
\<close>

theorem env_id_next:
  assumes "i < NENV"
  shows "0 < sint (next_env_id old i) \<and> ENVX (next_env_id old i) = i \<and> next_env_id old i \<noteq> old"
  using next_env_id_pos [OF assms] ENVX_next_env_id [OF assms] next_env_id_low(2) [OF assms, of old] env_gen_fresh
  by metis

theorem env_id_next_witness:
  "0 < sint (next_env_id 0x7ffff005 5) \<and> ENVX (next_env_id 0x7ffff005 5) = 5 \<and> next_env_id 0x7ffff005 5 \<noteq> 0x7ffff005"
  by (rule env_id_next) (simp add: NENV_def)

section \<open>Operations that leave the table alone\<close>

text \<open>
  \<open>same_table s t\<close>: the step from \<open>s\<close> to \<open>t\<close> changes neither the environments nor their free list. Every
  operation on pages and page tables is such a step.
\<close>

named_theorems table_frame \<open>operations that keep the environment table\<close>

definition same_table :: "kernel \<Rightarrow> kernel \<Rightarrow> bool" where
  "same_table s t \<longleftrightarrow> envs t = envs s \<and> env_free_list t = env_free_list s"

lemma same_table_refl [simp, intro]: "same_table s s"
  by (simp add: same_table_def)

lemma same_table_trans [trans]: "same_table s t \<Longrightarrow> same_table t u \<Longrightarrow> same_table s u"
  by (simp add: same_table_def)

lemma store64_table [table_frame]: "store64 a v s = Some t \<Longrightarrow> same_table s t"
  by (auto simp: store64_def same_table_def split: if_splits)

lemma memset_zero_table [table_frame]: "memset_zero a n s = Some t \<Longrightarrow> same_table s t"
  by (auto simp: memset_zero_def same_table_def split: if_splits)

lemma page_alloc_table [table_frame]: "page_alloc f s = Some (r, t) \<Longrightarrow> same_table s t"
  by (auto simp: page_alloc_def same_table_def memset_zero_def Let_def upd_page_def bind_Some_iff
      split: option.splits if_splits)

lemma tlb_invalidate_table [table_frame]: "tlb_invalidate a va s = Some t \<Longrightarrow> same_table s t"
  by (auto simp: tlb_invalidate_def same_table_def bind_Some_iff split: if_splits)

lemma decref_pa_table [table_frame]: "decref_pa pa s = Some t \<Longrightarrow> same_table s t"
  by (auto simp: decref_pa_def same_table_def bind_Some_iff)

lemma decref_kva_table [table_frame]: "decref_kva pa s = Some t \<Longrightarrow> same_table s t"
  by (auto simp: decref_kva_def bind_Some_iff decref_pa_table)

lemma pgdir_walk_lookup_state: "pgdir_walk a va False s = Some (r, t) \<Longrightarrow> t = s"
  by (auto simp: pgdir_walk_def bind_Some_iff split: if_splits)

lemma pdpe_walk_lookup_state: "pdpe_walk a va False s = Some (r, t) \<Longrightarrow> t = s"
  by (auto simp: pdpe_walk_def bind_Some_iff dest: pgdir_walk_lookup_state split: if_splits)

lemma pml4e_walk_lookup_state: "pml4e_walk a va False s = Some (r, t) \<Longrightarrow> t = s"
  by (auto simp: pml4e_walk_def bind_Some_iff dest: pdpe_walk_lookup_state split: if_splits)

lemma page_lookup_state: "page_lookup a va s = Some (r, t) \<Longrightarrow> t = s"
  by (auto simp: page_lookup_def bind_Some_iff dest: pml4e_walk_lookup_state split: if_splits)

lemma page_remove_table [table_frame]: "page_remove a va s = Some t \<Longrightarrow> same_table s t"
  by (auto simp: page_remove_def bind_Some_iff same_table_def
      dest!: page_lookup_state tlb_invalidate_table store64_table split: option.splits)

lemma vmx_init_vmcs_table [table_frame]: "vmx_init_vmcs s = Some (r, t) \<Longrightarrow> same_table s t"
  by (auto simp: vmx_init_vmcs_def bind_Some_iff same_table_def Let_def store32_def
      dest!: page_alloc_table store64_table split: option.splits)

lemma drop_pages_table [table_frame, simp]: "same_table s (drop_pages ps s)"
  by (induction ps s rule: drop_pages.induct) (auto simp: same_table_def)

end
