(* ===== verification/Env_Invariant.thy ===== *)
theory Env_Invariant
  imports Env_Correct
begin

text \<open>
  The environment table as a state machine: \<^verbatim>\<open>env_alloc\<close>, \<^verbatim>\<open>env_guest_alloc\<close> and \<^verbatim>\<open>env_free\<close> in any order, with
  status changes of live environments between them, keep the free list equal to the set of free slots.
\<close>

section \<open>Release of page tables keeps the table\<close>

lemma free_ept_entries_table [table_frame]:
  "free_ept_entries level dir is s = Some t \<Longrightarrow> same_table s t"
proof (induction level dir "is" s arbitrary: t rule: free_ept_entries.induct)
  case (2 level dir i "is" s)
  show ?case
    using "2.prems" unfolding free_ept_entries.simps bind_Some_iff
  proof (elim exE conjE, goal_cases)
    case (1 e u)
    have "same_table s u"
      using 1(2) "2.IH"(1) [OF 1(1)]
      by (fastforce simp: same_table_def bind_Some_iff Let_def split: if_splits)
    then show ?case using "2.IH"(2) [OF 1] by (rule same_table_trans)
  qed
qed simp

lemma free_ptes_table [table_frame]:
  "free_ptes e pt i j ks s = Some t \<Longrightarrow> same_table s t"
proof (induction ks arbitrary: s)
  case (Cons k ks)
  then obtain u where "free_ptes e pt i j ks u = Some t" "same_table s u"
    by (auto simp: bind_Some_iff dest: page_remove_table split: if_splits)
  with Cons.IH show ?case by (blast intro: same_table_trans)
qed simp

lemma free_pdes_table [table_frame]:
  "free_pdes e pd i js s = Some t \<Longrightarrow> same_table s t"
proof (induction js arbitrary: s)
  case (Cons j js)
  then obtain u where "free_pdes e pd i js u = Some t" "same_table s u"
    by (auto simp: bind_Some_iff same_table_def dest!: free_ptes_table store64_table decref_pa_table
        split: if_splits)
  with Cons.IH show ?case by (blast intro: same_table_trans)
qed simp

lemma free_pdpes_table [table_frame]:
  "free_pdpes e pd is s = Some t \<Longrightarrow> same_table s t"
proof (induction "is" arbitrary: s)
  case (Cons i "is")
  then obtain u where "free_pdpes e pd is u = Some t" "same_table s u"
    by (auto simp: bind_Some_iff same_table_def Let_def dest!: free_pdes_table store64_table decref_pa_table
        split: if_splits)
  with Cons.IH show ?case by (blast intro: same_table_trans)
qed simp

section \<open>The free list of environments\<close>

text \<open>
  The locale \<open>free_list\<close> of the page allocator describes this list too: taking its head is the end of
  \<^verbatim>\<open>env_alloc\<close> (\<open>env_commit\<close>), and \<open>env_release\<close> the end of \<^verbatim>\<open>env_free\<close>.
\<close>

interpretation envlist: free_list
  env_free_list "\<lambda>s e. env_link (envs s e)"
  "\<lambda>s. case env_free_list s of None \<Rightarrow> s | Some e \<Rightarrow> env_commit e s" env_release "\<lambda>_ _. True"
  by unfold_locales (auto simp: env_commit_def env_release_def upd_env_def)

definition free_slots :: "kernel \<Rightarrow> nat set" where
  "free_slots s = {e. e < NENV \<and> env_status (envs s e) = ENV_FREE}"

definition id_ok :: "nat \<Rightarrow> Env \<Rightarrow> bool" where
  "id_ok e x \<longleftrightarrow> env_status x = ENV_FREE \<or> (\<exists>old. env_id x = next_env_id old e)"

text \<open>
  The invariant of the table: the free list is exactly the list of free slots, and the id of every other
  slot was made for it.
\<close>

definition table_wf :: "kernel \<Rightarrow> nat list \<Rightarrow> bool" where
  "table_wf s fl \<longleftrightarrow> linked (\<lambda>e. env_link (envs s e)) (env_free_list s) fl \<and> set fl = free_slots s \<and>
     (\<forall>e < NENV. id_ok e (envs s e))"

text \<open>Steps that change neither link nor status nor id of an environment keep the invariant.\<close>

definition same_links :: "kernel \<Rightarrow> kernel \<Rightarrow> bool" where
  "same_links s t \<longleftrightarrow> env_free_list t = env_free_list s \<and>
     (\<forall>e. env_link (envs t e) = env_link (envs s e) \<and> env_status (envs t e) = env_status (envs s e) \<and>
       env_id (envs t e) = env_id (envs s e))"

lemma same_links_table: "same_table s t \<Longrightarrow> same_links s t"
  by (simp add: same_table_def same_links_def)

lemma same_links_wf: "same_links s t \<Longrightarrow> table_wf t fl = table_wf s fl"
  by (simp add: same_links_def table_wf_def free_slots_def id_ok_def)

lemma same_links_upd:
  "(\<And>x. env_link (f x) = env_link x \<and> env_status (f x) = env_status x \<and> env_id (f x) = env_id x) \<Longrightarrow> same_links s t \<Longrightarrow>
    same_links s (upd_env e f t)"
  by (simp add: same_links_def upd_env_def)

lemma same_links_trans: "same_links s t \<Longrightarrow> same_links t u \<Longrightarrow> same_links s u"
  by (simp add: same_links_def)

lemma table_wf_head:
  assumes "table_wf s fl" "env_free_list s = Some e"
  shows "\<exists>fl'. fl = e # fl' \<and> e < NENV \<and> e \<notin> set fl'"
proof -
  have l: "linked (\<lambda>e. env_link (envs s e)) (Some e) fl" and f: "set fl = free_slots s"
    using assms by (simp_all add: table_wf_def)
  from l obtain fl' where fl: "fl = e # fl'" by (cases fl) (simp_all add: linked_Cons)
  have "e \<in> free_slots s" using f fl by auto
  then show ?thesis using fl linked_distinct [OF l] by (simp add: free_slots_def)
qed

lemma table_wf_status:
  assumes "table_wf s fl" "env_status (f (envs s e)) = ENV_FREE \<longleftrightarrow> env_status (envs s e) = ENV_FREE"
    "env_link (f (envs s e)) = env_link (envs s e)" "env_id (f (envs s e)) = env_id (envs s e)"
  shows "table_wf (upd_env e f s) fl"
proof -
  have "linked (\<lambda>x. env_link (envs (upd_env e f s) x)) (env_free_list s) fl"
    using assms(1,3) by (auto simp: table_wf_def upd_env_def elim!: linked_cong)
  then show ?thesis using assms(1,2,4) by (auto simp: table_wf_def upd_env_def free_slots_def id_ok_def)
qed

lemma table_wf_alloc:
  assumes wf: "table_wf s (e # fl)" and f: "env_status (f (envs s e)) \<noteq> ENV_FREE" "env_link (f (envs s e)) = env_link (envs s e)"
    "env_id (f (envs s e)) = next_env_id old e"
  shows "table_wf (env_commit e (upd_env e f s)) fl"
proof -
  have l: "linked (\<lambda>x. env_link (envs s x)) (Some e) (e # fl)" "env_free_list s = Some e"
    using wf by (auto simp: table_wf_def linked_Cons)
  have e: "e \<notin> set fl" using linked_distinct [OF l(1)] by simp
  have "linked (\<lambda>x. env_link (envs (upd_env e f s) x)) (env_link (envs s e)) fl"
    using l(1) e by (auto simp: upd_env_def linked_Cons elim!: linked_cong)
  moreover have "set fl = free_slots (upd_env e f s)"
    using wf f(1) e by (auto simp: table_wf_def free_slots_def upd_env_def)
  moreover have "id_ok e (f (envs s e))" using f(3) by (auto simp: id_ok_def)
  ultimately show ?thesis
    using f(2) wf by (simp add: table_wf_def env_commit_def free_slots_def upd_env_def)
qed

lemma table_wf_release:
  assumes "table_wf s fl" "e < NENV" "env_status (envs s e) \<noteq> ENV_FREE"
  shows "table_wf (env_release e s) (e # fl)"
proof -
  have "e \<notin> set fl" using assms by (simp add: table_wf_def free_slots_def)
  then have "linked (\<lambda>x. env_link (envs (env_release e s) x)) (env_free_list (env_release e s)) (e # fl)"
    using assms(1) by (intro envlist.push_linked) (simp_all add: table_wf_def)
  then show ?thesis
    using assms by (auto simp: table_wf_def free_slots_def env_release_def upd_env_def id_ok_def)
qed

section \<open>Operations on the table\<close>

lemma env_setup_vm_links:
  "env_setup_vm e s = Some (r, t) \<Longrightarrow> same_links s t"
  by (auto simp: env_setup_vm_def bind_Some_iff same_table_def same_links_def upd_env_def Let_def
      dest!: page_alloc_table memset_zero_table store64_table split: option.splits)

lemma new_env_simps [simp]:
  "env_status (user_env pid e x) = ENV_RUNNABLE" "env_link (user_env pid e x) = env_link x"
  "env_status (guest_env pid e n x) = ENV_RUNNABLE" "env_link (guest_env pid e n x) = env_link x"
  "env_id (user_env pid e x) = next_env_id (env_id x) e" "env_id (guest_env pid e n x) = next_env_id (env_id x) e"
  by (simp_all add: user_env_def guest_env_def)

lemma env_alloc_wf:
  assumes "table_wf s fl" "env_alloc pid s = Some (r, t)"
  shows "\<exists>fl'. table_wf t fl'"
proof (cases "env_free_list s")
  case None
  then show ?thesis using assms by (auto simp: env_alloc_def)
next
  case (Some e)
  then obtain fl' where fl: "fl = e # fl'" using table_wf_head assms(1) by blast
  from assms(2) Some obtain r' u where u: "env_setup_vm e s = Some (r', u)"
    and t: "t = u \<or> t = env_commit e (upd_env e (user_env pid e) u)"
    by (auto simp: env_alloc_def bind_Some_iff split: if_splits)
  have "table_wf u (e # fl')" using env_setup_vm_links [OF u] assms(1) fl by (simp add: same_links_wf)
  with t show ?thesis using table_wf_alloc [of u e fl' "user_env pid e"] by auto
qed

text \<open>
  \<^verbatim>\<open>env_guest_alloc\<close> is a sequence of allocations with a check after each; \<open>yields m P\<close> holds if \<open>P\<close> holds of
  the state wherever \<open>m\<close> returns, and its rules follow that sequence.
\<close>

definition yields :: "('a \<times> kernel) may_panic \<Rightarrow> (kernel \<Rightarrow> bool) \<Rightarrow> bool" where
  "yields m P \<longleftrightarrow> (\<forall>r t. m = Some (r, t) \<longrightarrow> P t)"

lemma yields_Some: "P t \<Longrightarrow> yields (Some (r, t)) P"
  by (simp add: yields_def)

lemma yields_kva: "(\<And>x. yields (g x) P) \<Longrightarrow> yields (page2kva u p \<bind> g) P"
  by (auto simp: yields_def bind_Some_iff)

lemma yields_case:
  "yields a P \<Longrightarrow> (\<And>p. yields (b p) P) \<Longrightarrow> yields (case x of None \<Rightarrow> a | Some p \<Rightarrow> b p) P"
  by (simp split: option.split)

lemma yields_alloc:
  assumes "same_links s u" "\<And>r t. same_links s t \<Longrightarrow> yields (g r t) P"
  shows "yields (page_alloc f u \<bind> (\<lambda>(r, t). g r t)) P"
  using assms same_links_trans [OF assms(1) same_links_table [OF page_alloc_table]]
  by (fastforce simp: yields_def bind_Some_iff)

lemma yields_vmcs:
  assumes "same_links s u" "\<And>r t. same_links s t \<Longrightarrow> yields (g r t) P"
  shows "yields (vmx_init_vmcs u \<bind> (\<lambda>(r, t). g r t)) P"
  using assms same_links_trans [OF assms(1) same_links_table [OF vmx_init_vmcs_table]]
  by (fastforce simp: yields_def bind_Some_iff)

lemma same_links_vmxinfo: "same_links s t \<Longrightarrow> same_links s (upd_vmxinfo e f t)"
  by (auto simp: upd_vmxinfo_def intro!: same_links_upd)

lemma same_links_pml4e: "same_links s t \<Longrightarrow> same_links s (upd_env e (\<lambda>x. x\<lparr>env_pml4e := a, env_cr3 := b\<rparr>) t)"
  by (auto intro!: same_links_upd)

lemma same_links_incref: "same_links s t \<Longrightarrow> same_links s (page_incref p t)"
  by (simp add: same_links_def)

lemma same_links_upd_page: "same_links s t \<Longrightarrow> same_links s (upd_page p f t)"
  by (simp add: same_links_def upd_page_def)

lemma same_links_drop: "same_links s t \<Longrightarrow> same_links s (drop_pages ps t)"
  using drop_pages_table [of t ps] by (simp add: same_links_def same_table_def)

lemmas links_intros = same_links_vmxinfo same_links_pml4e same_links_incref same_links_upd_page same_links_drop

lemmas yields_intros = yields_Some yields_kva yields_case yields_alloc yields_vmcs

lemma same_links_refl: "same_links s s"
  by (simp add: same_links_def)

lemma env_guest_alloc_wf:
  assumes wf: "table_wf s fl" and run: "env_guest_alloc pid s = Some (r, t)"
  shows "\<exists>fl'. table_wf t fl'"
proof (cases "env_free_list s")
  case None
  then show ?thesis using assms by (auto simp: env_guest_alloc_def)
next
  case (Some e)
  then obtain fl' where fl: "fl = e # fl'" using table_wf_head wf by blast
  let ?P = "\<lambda>t. \<exists>fl'. table_wf t fl'"
  have keep: "?P t" if "same_links s t" for t using that wf same_links_wf by blast
  have new: "?P (env_commit e ((upd_env e (guest_env pid e n) u)\<lparr>vcpu_count := m\<rparr>))" if "same_links s u" for u n m
  proof -
    have "table_wf (env_commit e (upd_env e (guest_env pid e n) u)) fl'"
      using that wf fl by (intro table_wf_alloc) (simp_all add: same_links_wf)
    then show ?thesis by (auto simp: table_wf_def free_slots_def env_commit_def)
  qed
  have "yields (env_guest_alloc pid s) ?P"
    unfolding env_guest_alloc_defs Some option.case Let_def
    by (intro yields_intros; (assumption | rule keep new links_intros same_links_refl)+)
  then show ?thesis using run by (simp add: yields_def)
qed

text \<open>The same for operations that return only the state.\<close>

definition gives :: "kernel may_panic \<Rightarrow> (kernel \<Rightarrow> bool) \<Rightarrow> bool" where
  "gives m P \<longleftrightarrow> (\<forall>t. m = Some t \<longrightarrow> P t)"

lemma gives_Some: "P t \<Longrightarrow> gives (Some t) P"
  by (simp add: gives_def)

lemma gives_read: "(\<And>x. gives (g x) P) \<Longrightarrow> gives (m \<bind> g) P" for m :: "u64 may_panic"
  by (auto simp: gives_def bind_Some_iff)

lemma gives_bind: "gives m Q \<Longrightarrow> (\<And>t. Q t \<Longrightarrow> gives (g t) P) \<Longrightarrow> gives (m \<bind> g) P"
  by (auto simp: gives_def bind_Some_iff)

lemma gives_if: "gives a P \<Longrightarrow> gives b P \<Longrightarrow> gives (if c then a else b) P"
  by simp

lemma gives_links:
  assumes "same_links s u" "\<And>t. m = Some t \<Longrightarrow> same_table u t"
  shows "gives m (same_links s)"
  using assms same_links_trans [OF _ same_links_table] by (auto simp: gives_def)

lemma gives_ops:
  assumes "same_links s u"
  shows "gives (decref_pa pa u) (same_links s)" "gives (decref_kva kva u) (same_links s)"
    "gives (store64 kva v u) (same_links s)" "gives (free_guest_mem kva u) (same_links s)"
    "gives (free_pdpes e kva is u) (same_links s)"
  by (rule gives_links [OF assms], auto simp: free_guest_mem_def free_ept_level_def intro: table_frame)+

lemma gives_release:
  "same_links s u \<Longrightarrow> gives (Some (env_release e u)) (\<lambda>t. \<exists>u. t = env_release e u \<and> same_links s u)"
  by (auto simp: gives_def)

lemma same_links_cr3: "same_links s t \<Longrightarrow> same_links s (if c then t\<lparr>cr3 := x\<rparr> else t)"
  by (simp add: same_links_def)

lemma gives_if_bind:
  "gives a (same_links s) \<Longrightarrow> gives b (same_links s) \<Longrightarrow> (\<And>t. same_links s t \<Longrightarrow> gives (g t) P) \<Longrightarrow>
    gives ((if c then a else b) \<bind> g) P"
  by (auto simp: gives_def bind_Some_iff)

lemmas gives_intros = gives_release gives_bind [OF gives_ops(1)] gives_bind [OF gives_ops(2)]
  gives_bind [OF gives_ops(3)] gives_bind [OF gives_ops(4)] gives_bind [OF gives_ops(5)]
  gives_read gives_ops

lemma env_guest_free_cases: "gives (env_guest_free e s) (\<lambda>t. \<exists>u. t = env_release e u \<and> same_links s u)"
  unfolding env_guest_free_def Let_def
  by (rule gives_intros | assumption | rule links_intros same_links_refl)+

lemma env_free_cases: "gives (env_free e s) (\<lambda>t. \<exists>u. t = env_release e u \<and> same_links s u)"
proof (cases "env_type (envs s e) = ENV_TYPE_GUEST")
  case True
  then show ?thesis using env_guest_free_cases by (simp add: env_free_def)
next
  case False
  show ?thesis
    unfolding env_free_def if_not_P [OF False] Let_def
    by (rule gives_intros gives_if_bind gives_Some | assumption | rule links_intros same_links_cr3 same_links_refl)+
qed

lemma env_free_wf:
  assumes wf: "table_wf s fl" and e: "e < NENV" "env_status (envs s e) \<noteq> ENV_FREE" and run: "env_free e s = Some t"
  shows "table_wf t (e # fl)"
proof -
  obtain u where t: "t = env_release e u" and u: "same_links s u"
    using env_free_cases [of e s] run by (auto simp: gives_def)
  have "table_wf u fl" using same_links_wf [OF u] wf by blast
  moreover have "env_status (envs u e) \<noteq> ENV_FREE" using e(2) u unfolding same_links_def by metis
  ultimately show ?thesis unfolding t by (rule table_wf_release [OF _ e(1)])
qed

section \<open>The table as a state machine\<close>

lemma env_init_linked:
  "i < NENV \<Longrightarrow> linked (\<lambda>e. env_link (envs (env_init s) e)) (Some i) [i..<NENV]"
proof (induction "NENV - i" arbitrary: i)
  case (Suc d)
  then show ?case
    by (cases "i = NENV - 1") (auto simp: env_init_def linked_Cons upt_conv_Cons)
qed simp

lemma env_init_wf: "table_wf (env_init s) [0..<NENV]"
  using env_init_linked [of 0 s]
  by (auto simp: table_wf_def free_slots_def id_ok_def env_init_def NENV_def)

text \<open>
  Steps on the table: the two allocators, release of a live environment, a status change of a live
  environment (scheduling, \<^verbatim>\<open>env_destroy\<close>), and anything that does not touch the table.
\<close>

inductive env_step :: "kernel \<Rightarrow> kernel \<Rightarrow> bool" where
  step_alloc: "env_alloc pid s = Some (r, t) \<Longrightarrow> env_step s t"
| step_guest: "env_guest_alloc pid s = Some (r, t) \<Longrightarrow> env_step s t"
| step_free: "e < NENV \<Longrightarrow> env_status (envs s e) \<noteq> ENV_FREE \<Longrightarrow> env_free e s = Some t \<Longrightarrow> env_step s t"
| step_status: "env_status (envs s e) \<noteq> ENV_FREE \<Longrightarrow> st \<noteq> ENV_FREE \<Longrightarrow>
    env_step s (upd_env e (env_status_update (\<lambda>_. st)) s)"
| step_other: "same_table s t \<Longrightarrow> env_step s t"

inductive env_reachable :: "kernel \<Rightarrow> bool" where
  reach_init: "env_reachable (env_init s)"
| reach_step: "env_reachable s \<Longrightarrow> env_step s t \<Longrightarrow> env_reachable t"

lemma env_step_wf: "env_step s t \<Longrightarrow> table_wf s fl \<Longrightarrow> \<exists>fl'. table_wf t fl'"
proof (induction rule: env_step.cases)
  case (step_status s e st)
  then have "table_wf (upd_env e (env_status_update (\<lambda>_. st)) s) fl" by (intro table_wf_status) simp_all
  then show ?case using step_status by blast
next
  case (step_other s t)
  then show ?case using same_links_wf [OF same_links_table] by blast
qed (blast intro: env_alloc_wf env_guest_alloc_wf env_free_wf)+

lemma env_reachable_wf: "env_reachable s \<Longrightarrow> \<exists>fl. table_wf s fl"
  by (induction rule: env_reachable.induct) (blast intro: env_init_wf env_step_wf)+

lemma envid2env_live:
  assumes "table_wf s fl" "e < NENV" "env_status (envs s e) \<noteq> ENV_FREE"
  shows "envid2env (env_id (envs s e)) False s = Some (0, Some e)"
proof -
  obtain old where "env_id (envs s e) = next_env_id old e" using assms by (auto simp: table_wf_def id_ok_def)
  then have "env_id (envs s e) \<noteq> 0" "ENVX (env_id (envs s e)) = e"
    using assms(2) next_env_id_nonzero ENVX_next_env_id by simp_all
  then show ?thesis using assms(3) by (simp add: envid2env_def Let_def)
qed

end
