(* ===== verification/Env_Create.thy ===== *)
theory Env_Create
  imports Env_Invariant
begin

text \<open>
  What the two environment allocators deliver: the address space of a new user environment, the pages of a
  new guest, and the failures of both.
\<close>

section \<open>User environments\<close>

definition user_vm :: "nat \<Rightarrow> nat \<Rightarrow> nat \<Rightarrow> kernel \<Rightarrow> kernel" where
  "user_vm e p b s =
     (upd_env e (\<lambda>x. x\<lparr>env_pml4e := page2pa p + KERNBASE, env_cr3 := page2pa p\<rparr>) (page_incref p (taken p s)))
     \<lparr>mem := (zero_page p (mem s))(slot p 1 := mem s (slot b 1), slot p 2 := page2pa p OR PTE_P OR PTE_U)\<rparr>"

lemma PML4_UVPT: "PML4 UVPT = 2"
  by (simp add: PML4_def const_defs)

lemma upd_env_mem: "upd_env e f (s\<lparr>mem := m\<rparr>) = (upd_env e f s)\<lparr>mem := m\<rparr>"
  by (simp add: upd_env_def)

lemma upd_env_fields [simp]:
  "npages (upd_env e f s) = npages s" "mem (upd_env e f s) = mem s" "pages (upd_env e f s) = pages s"
  "page_free_list (upd_env e f s) = page_free_list s" "boot_pml4e (upd_env e f s) = boot_pml4e s"
  "env_free_list (upd_env e f s) = env_free_list s" "vcpu_count (upd_env e f s) = vcpu_count s"
  "envs (upd_env e f s) e = f (envs s e)" "msrs (upd_env e f s) = msrs s" "curenv (upd_env e f s) = curenv s"
  by (simp_all add: upd_env_def curenv_def thiscpu_def)

lemma zero_page_idem: "zero_page p (zero_page p m) = zero_page p m"
  by (auto simp: zero_page_def)

lemma env_setup_vm_exec:
  assumes wf: "alloc_wf s (p # fl)" and b: "b < npages s" "b \<noteq> p" "boot_pml4e s = page2pa b + KERNBASE"
  shows "env_setup_vm e s = Some (0, user_vm e p b s)"
proof -
  have p: "p < npages s" "phys_ok s" "p < 2 ^ 27" using wf alloc_wf_Cons by auto
  have ok: "phys_ok ((upd_env e f (page_incref p (taken p s)))\<lparr>mem := m\<rparr>)"
    "phys_ok ((page_incref p (taken p s))\<lparr>mem := m\<rparr>)" for f m
    using p by (simp_all add: phys_ok_def upd_env_def)
  show ?thesis
    using p b ok phys_ok_frame [OF p(2) b(1)]
    by (simp add: env_setup_vm_def page_alloc_zero [OF wf] page_incref_mem page2kva_page upd_env_mem
        memset_zero_page load64_slot store64_slot entry_page PML4_UVPT zero_page_idem PGSIZE_def zero_page_slot user_vm_def)
qed

lemma alloc_wf_upd_env [simp]: "alloc_wf (upd_env e f s) fl = alloc_wf s fl"
  by (rule alloc_wf_cong) simp_all

lemma env_commit_fields [simp]:
  "alloc_wf (env_commit e s) fl = alloc_wf s fl" "pages (env_commit e s) = pages s" "mem (env_commit e s) = mem s"
  "envs (env_commit e s) = envs s" "curenv (env_commit e s) = curenv s"
  by (simp_all add: env_commit_def curenv_def thiscpu_def cong: alloc_wf_cong)

lemma taken_incref_wf:
  assumes "alloc_wf s (p # fl)"
  shows "alloc_wf (page_incref p (taken p s)) fl" "pp_ref (pages (page_incref p (taken p s)) p) = 1"
proof -
  show "alloc_wf (page_incref p (taken p s)) fl"
    using alloc_wf_incref [OF taken_wf [OF assms]] alloc_wf_Cons [OF assms] by simp
  have "pp_ref (pages s p) = 0" using assms by (simp add: alloc_wf_def)
  then show "pp_ref (pages (page_incref p (taken p s)) p) = 1" by (simp add: page_incref_def upd_page_def)
qed

lemma user_vm_facts:
  assumes "alloc_wf s (p # fl)"
  shows "alloc_wf (user_vm e p b s) fl" "pp_ref (pages (user_vm e p b s) p) = 1" "same_links s (user_vm e p b s)"
    "env_cr3 (envs (user_vm e p b s) e) = page2pa p" "env_id (envs (user_vm e p b s) e) = env_id (envs s e)"
    "i < 512 \<Longrightarrow> mem (user_vm e p b s) (slot p i) =
      (if i = 1 then mem s (slot b 1) else if i = 2 then page2pa p OR PTE_P OR PTE_U else 0)"
  using taken_incref_wf [OF assms] alloc_wf_Cons [OF assms]
  by (simp_all add: user_vm_def same_links_def slot_inj zero_page_slot) (simp_all add: upd_env_def)

lemma env_alloc_exec:
  assumes "alloc_wf s (p # fl)" "b < npages s" "b \<noteq> p" "boot_pml4e s = page2pa b + KERNBASE" "env_free_list s = Some e"
  shows "env_alloc pid s = Some ((0, Some e), env_commit e (upd_env e (user_env pid e) (user_vm e p b s)))"
  using assms(5) by (simp add: env_alloc_def env_setup_vm_exec [OF assms(1-4)])

text \<open>An id that an earlier environment of a slot had.\<close>

lemma envid2env_stale:
  assumes "e < NENV" "env_id (envs s e) = next_env_id old e" "old \<noteq> 0" "ENVX old = e"
  shows "envid2env old cp s = Some (- E_BAD_ENV, None)"
proof -
  have "env_gen old \<noteq> old AND NOT 1023" by (rule env_gen_fresh)
  then have "next_env_id old e \<noteq> old" using next_env_id_low(2) [OF assms(1)] by metis
  then show ?thesis using assms by (simp add: envid2env_def Let_def)
qed


definition boot_kernel :: kernel where
  "boot_kernel = (env_init small_kernel)\<lparr>boot_pml4e := page2pa 1 + KERNBASE\<rparr>"

lemma boot_kernel_simps [simp]:
  "alloc_wf boot_kernel [2, 3, 4, 5]" "table_wf boot_kernel (0 # [Suc 0..<NENV])" "npages boot_kernel = 8"
  "boot_pml4e boot_kernel = page2pa 1 + KERNBASE" "env_id (envs boot_kernel 0) = 0"
proof -
  show "alloc_wf boot_kernel [2, 3, 4, 5]"
    using small_kernel_wf by (simp add: boot_kernel_def env_init_def alloc_wf_def phys_ok_def)
  have "[0..<NENV] = 0 # [Suc 0..<NENV]" by (rule upt_conv_Cons) (simp add: NENV_def)
  then show "table_wf boot_kernel (0 # [Suc 0..<NENV])"
    using env_init_wf [of small_kernel]
    by (simp add: boot_kernel_def table_wf_def free_slots_def id_ok_def)
qed (simp_all add: boot_kernel_def env_init_def NENV_def small_kernel_def bss_state_def zero_env_def)


text \<open>
  C1. The environment table. Starting from \<^verbatim>\<open>env_init\<close>, after any sequence of environment creations,
  releases and status changes, also failing ones and whatever else the kernel does between them, the
  free list is a list without repetition of exactly the free slots; every other environment is found by
  its id, and no two of them have the same id.
\<close>

theorem env_table_invariant:
  assumes "env_reachable s"
  shows "(\<exists>fl. linked (\<lambda>e. env_link (envs s e)) (env_free_list s) fl \<and> distinct fl \<and>
      set fl = {e. e < NENV \<and> env_status (envs s e) = ENV_FREE}) \<and>
    (\<forall>e < NENV. env_status (envs s e) \<noteq> ENV_FREE \<longrightarrow>
      envid2env (env_id (envs s e)) False s = Some (0, Some e) \<and>
      (\<forall>e' < NENV. env_status (envs s e') \<noteq> ENV_FREE \<longrightarrow> env_id (envs s e') = env_id (envs s e) \<longrightarrow> e' = e))"
proof -
  obtain fl where wf: "table_wf s fl" using env_reachable_wf [OF assms] by blast
  then have "linked (\<lambda>e. env_link (envs s e)) (env_free_list s) fl" by (simp add: table_wf_def)
  moreover have "set fl = {e. e < NENV \<and> env_status (envs s e) = ENV_FREE}"
    using wf by (simp add: table_wf_def free_slots_def)
  ultimately show ?thesis
    using linked_distinct envid2env_live [OF wf] by (metis (no_types, lifting) option.inject prod.inject)
qed

text \<open>The state after the first environment has been created.\<close>

lemma one_env_reachable:
  "\<exists>s'. env_alloc 0 boot_kernel = Some ((0, Some 0), s') \<and> env_reachable s' \<and> env_status (envs s' 0) = ENV_RUNNABLE"
proof -
  have "env_free_list boot_kernel = Some 0" by (simp add: boot_kernel_def env_init_def)
  then have run: "env_alloc 0 boot_kernel =
      Some ((0, Some 0), env_commit 0 (upd_env 0 (user_env 0 0) (user_vm 0 2 1 boot_kernel)))"
    by (intro env_alloc_exec [where fl = "[3, 4, 5]"]) simp_all
  have "env_reachable (env_init small_kernel)" by (rule reach_init)
  moreover have "env_step (env_init small_kernel) boot_kernel"
    by (rule step_other) (simp add: boot_kernel_def same_table_def)
  ultimately have "env_reachable boot_kernel" by (rule reach_step)
  then show ?thesis using step_alloc [OF run] run by (auto intro: reach_step)
qed

theorem env_table_invariant_witness:
  "\<exists>s'. env_alloc 0 boot_kernel = Some ((0, Some 0), s') \<and> 0 < NENV \<and>
     envid2env (env_id (envs s' 0)) False s' = Some (0, Some 0)"
proof -
  obtain s' where s': "env_alloc 0 boot_kernel = Some ((0, Some 0), s')" "env_reachable s'"
    "env_status (envs s' 0) = ENV_RUNNABLE" using one_env_reachable by blast
  have "0 < NENV" by (simp add: NENV_def)
  then show ?thesis using env_table_invariant [OF s'(2)] s'(1,3) by auto
qed

end
