(* ===== verification/Guest_Create.thy ===== *)
theory Guest_Create
  imports Env_Create
begin

text \<open>
  The pages of a new guest: \<^verbatim>\<open>env_guest_alloc\<close> of \<^verbatim>\<open>kern/env.c\<close> on success and on every failure.
\<close>

section \<open>Taking several pages\<close>

text \<open>
  \<open>grabbed e s x ps fl u\<close>: between \<open>s\<close> and \<open>u\<close> the pages \<open>ps\<close>, each with its reference count, have been taken from
  the free list, which is now \<open>fl\<close>, and environment \<open>e\<close> has become \<open>x\<close>.
\<close>

definition held :: "kernel \<Rightarrow> nat list \<Rightarrow> nat \<times> u16 \<Rightarrow> bool" where
  "held u fl x = (case x of (p, n) \<Rightarrow>
     pp_ref (pages u p) = n \<and> pp_link (pages u p) = None \<and> p < npages u \<and> p \<notin> set fl)"

definition grabbed :: "nat \<Rightarrow> kernel \<Rightarrow> Env \<Rightarrow> (nat \<times> u16) list \<Rightarrow> nat list \<Rightarrow> kernel \<Rightarrow> bool" where
  "grabbed e s x ps fl u \<longleftrightarrow> alloc_wf u fl \<and> npages u = npages s \<and>
     distinct (map fst ps) \<and> list_all (held u fl) ps \<and>
     envs u = (envs s)(e := x) \<and> env_free_list u = env_free_list s \<and> vcpu_count u = vcpu_count s"

lemma held_keep:
  assumes "list_all (held u fl) ps" "npages t = npages u"
    "\<And>q. q \<in> fst ` set ps \<Longrightarrow> pages t q = pages u q \<and> (q \<in> set fl' \<longrightarrow> q \<in> set fl)"
  shows "list_all (held t fl') ps"
  using assms by (induction ps) (auto simp: held_def)

lemma held_upd_env [simp]: "held (upd_env e f u) = held u"
  by (simp add: held_def fun_eq_iff)

lemma grabbed_start: "alloc_wf s fl \<Longrightarrow> grabbed e s (f (envs s e)) [] fl (upd_env e f s)"
  by (simp add: grabbed_def) (simp add: upd_env_def)

lemma grabbed_env: "grabbed e s x ps fl u \<Longrightarrow> grabbed e s (f x) ps fl (upd_env e f u)"
  by (simp add: grabbed_def) (simp add: upd_env_def)

lemma grabbed_vmx:
  "grabbed e s x ps fl u \<Longrightarrow> grabbed e s (x\<lparr>env_vmxinfo := f (env_vmxinfo x)\<rparr>) ps fl (upd_vmxinfo e f u)"
  unfolding upd_vmxinfo_def by (rule grabbed_env)

lemma grabbed_kva:
  "grabbed e s x ((p, n) # ps) fl u \<Longrightarrow> page2kva u p = Some (page2pa p + KERNBASE)"
  using page2kva_page [of u p] alloc_wf_phys [of u fl] by (simp add: grabbed_def held_def)

lemma grabbed_empty:
  "grabbed e s x ps [] u \<Longrightarrow> page_alloc ALLOC_ZERO u = Some (None, u)"
  "grabbed e s x ps [] u \<Longrightarrow> vmx_init_vmcs u = Some (None, u)"
  by (simp_all add: grabbed_def page_alloc_empty vmx_init_vmcs_empty)

lemma grabbed_grow:
  assumes g: "grabbed e s x ps (p # fl) u"
    and t: "alloc_wf t fl" "npages t = npages u" "pp_ref (pages t p) = n" "pp_link (pages t p) = None"
      "\<forall>q. q \<noteq> p \<longrightarrow> pages t q = pages u q" "envs t = envs u" "env_free_list t = env_free_list u" "vcpu_count t = vcpu_count u"
  shows "grabbed e s x ((p, n) # ps) fl t"
proof -
  have p: "p < npages u" "p \<notin> set fl" using g alloc_wf_Cons [of u p fl] by (simp_all add: grabbed_def)
  have h: "list_all (held u (p # fl)) ps" using g by (simp add: grabbed_def)
  then have "p \<notin> fst ` set ps" by (auto simp: held_def list_all_iff)
  moreover from this have "list_all (held t fl) ps" using h t by (elim held_keep) auto
  ultimately show ?thesis using g t p by (simp add: grabbed_def held_def)
qed

lemma grabbed_alloc:
  assumes "grabbed e s x ps (p # fl) u"
  shows "\<exists>t. page_alloc ALLOC_ZERO u = Some (Some p, t) \<and> grabbed e s x ((p, 1) # ps) fl (page_incref p t) \<and>
    upd_page p (\<lambda>_. \<lparr>pp_link = None, pp_ref = 0\<rparr>) t = t"
proof -
  have wf: "alloc_wf u (p # fl)" using assms by (simp add: grabbed_def)
  have zero: "pp_ref (pages u p) = 0" using wf by (simp add: alloc_wf_def)
  let ?t = "(taken p u)\<lparr>mem := zero_page p (mem u)\<rparr>"
  have "grabbed e s x ((p, 1) # ps) fl (page_incref p ?t)"
    unfolding page_incref_mem
    by (rule grabbed_grow [OF assms])
      (use taken_incref_wf [OF wf] in \<open>simp_all, simp_all add: page_incref_def upd_page_def taken_def\<close>)
  moreover have "upd_page p (\<lambda>_. \<lparr>pp_link = None, pp_ref = 0\<rparr>) ?t = ?t"
    using zero by (cases "pages u p") (simp add: upd_page_def taken_def)
  ultimately show ?thesis using page_alloc_zero [OF wf] by blast
qed

lemma grabbed_vmcs:
  assumes "grabbed e s x ps (p # fl) u"
  shows "\<exists>t. vmx_init_vmcs u = Some (Some p, t) \<and> grabbed e s x ((p, 2) # ps) fl (page_incref p t)"
proof -
  have wf: "alloc_wf u (p # fl)" using assms by (simp add: grabbed_def)
  have "p \<notin> set fl" using alloc_wf_Cons [OF wf] by simp
  then have "grabbed e s x ((p, 2) # ps) fl (page_incref p (vmcs_page p u))"
    by (intro grabbed_grow [OF assms] alloc_wf_incref vmcs_page_wf(1) [OF wf])
      (use vmcs_page_wf [OF wf] in \<open>simp_all add: page_incref_def upd_page_def, simp_all add: vmcs_page_def\<close>)
  then show ?thesis using vmx_init_vmcs_exec [OF wf] by blast
qed

lemma page_decref_other: "q \<noteq> p \<Longrightarrow> pages (page_decref p s) q = pages s q"
  by (simp add: page_decref_def page_free_def upd_page_def Let_def)

lemma page_decref_link:
  "pp_ref (pages s p) \<noteq> 1 \<Longrightarrow> pages (page_decref p s) p = (pages s p)\<lparr>pp_ref := pp_ref (pages s p) - 1\<rparr>"
  by (cases "pages s p") (simp add: page_decref_more upd_page_def)

text \<open>Dropping the only reference frees a page, dropping another one only lowers the count.\<close>

lemma grabbed_drop:
  assumes g: "grabbed e s x (as @ (p, 1) # bs) fl u"
  shows "grabbed e s x (as @ bs) (p # fl) (page_decref p u)"
proof -
  have p: "alloc_wf u fl" "p \<notin> set fl" "p < npages u" "pp_link (pages u p) = None" "pp_ref (pages u p) = 1"
    "p \<notin> fst ` set (as @ bs)" "list_all (held u fl) (as @ bs)"
    using g by (auto simp: grabbed_def held_def)
  have "alloc_wf (page_decref p u) (p # fl)" using page_decref_wf [OF p(1-4)] p(5) by simp
  moreover have "list_all (held (page_decref p u) (p # fl)) (as @ bs)"
    using p(6) page_decref_other [of _ p u] by (intro held_keep [OF p(7)]) (simp, metis set_ConsD)
  ultimately show ?thesis using g by (simp add: grabbed_def)
qed

lemma grabbed_dec:
  assumes g: "grabbed e s x (as @ (p, n) # bs) fl u" and n: "n \<noteq> 1"
  shows "grabbed e s x (as @ (p, n - 1) # bs) fl (page_decref p u)"
proof -
  have p: "alloc_wf u fl" "p \<notin> set fl" "p < npages u" "pp_link (pages u p) = None" "pp_ref (pages u p) = n"
    "p \<notin> fst ` set (as @ bs)" "list_all (held u fl) (as @ bs)"
    using g by (auto simp: grabbed_def held_def)
  have "alloc_wf (page_decref p u) fl" using page_decref_wf [OF p(1-4)] p(5) n by simp
  moreover have "list_all (held (page_decref p u) fl) (as @ bs)"
    using p(6) page_decref_other [of _ p u] by (intro held_keep [OF p(7)]) (simp, metis set_ConsD)
  moreover have "held (page_decref p u) fl (p, n - 1)"
    using page_decref_link [of u p] p n by (simp add: held_def)
  ultimately show ?thesis using g by (simp add: grabbed_def)
qed

section \<open>Creating a guest\<close>

text \<open>
  The environment once its pages are in place: \<open>p\<close> the root of the extended page tables, \<open>q\<close> the VMCS, \<open>r\<close> the MSR
  areas, \<open>t\<close> and \<open>v\<close> the I/O bitmaps.
\<close>

definition guest_pages :: "nat \<Rightarrow> nat \<Rightarrow> nat \<Rightarrow> nat \<Rightarrow> nat \<Rightarrow> Env \<Rightarrow> Env" where
  "guest_pages p q r t v x = x\<lparr>env_pml4e := page2pa p + KERNBASE, env_cr3 := page2pa p,
     env_vmxinfo := zero_vmxinfo\<lparr>vmcs := page2pa q + KERNBASE, msr_host_area := page2pa r + KERNBASE,
       msr_guest_area := page2pa r + KERNBASE + PGSIZE div 2, io_bmap_a := page2pa t + KERNBASE,
       io_bmap_b := page2pa v + KERNBASE\<rparr>\<rparr>"

text \<open>
  A failing call leaves the links, the status and the id of the environment alone. Of the pages, each that was
  referenced once is free again; the VMCS page, referenced twice, keeps one reference.
\<close>

definition same_slot :: "Env \<Rightarrow> Env \<Rightarrow> bool" where
  "same_slot x y \<longleftrightarrow> env_link y = env_link x \<and> env_status y = env_status x \<and> env_id y = env_id x"

lemma same_slot_simps [simp]:
  "same_slot x x" "same_slot x (y\<lparr>env_pml4e := a\<rparr>) = same_slot x y" "same_slot x (y\<lparr>env_cr3 := a\<rparr>) = same_slot x y"
  "same_slot x (y\<lparr>env_vmxinfo := v\<rparr>) = same_slot x y"
  by (simp_all add: same_slot_def)

lemma grabbed_links: "grabbed e s x ps fl u \<Longrightarrow> same_slot (envs s e) x \<Longrightarrow> same_links s u"
  by (auto simp: grabbed_def same_links_def same_slot_def)

definition guest_failed :: "nat \<Rightarrow> kernel \<Rightarrow> (nat \<times> u16) list \<Rightarrow> nat list \<Rightarrow> kernel \<Rightarrow> bool" where
  "guest_failed e s ps fl u \<longleftrightarrow> (\<exists>x. grabbed e s x ps fl u \<and> same_slot (envs s e) x)"

lemma grabbed_drop_vmcs: "grabbed e s x ((q, 2) # ps) fl u \<Longrightarrow> grabbed e s x ((q, 1) # ps) fl (page_decref q u)"
  using grabbed_dec [of e s x "[]" q 2 ps fl u] by simp

lemma guest_vmcs_cases:
  assumes "grabbed e s x [(p, 1)] fl u" "same_slot (envs s e) x"
  shows "\<exists>u'. case fl of
      [] \<Rightarrow> guest_vmcs pid e p u = Some ((- E_NO_MEM, None), u') \<and> guest_failed e s [] [p] u'
    | q # fl' \<Rightarrow> guest_vmcs pid e p u = guest_msr_area pid e p q u' \<and>
        grabbed e s (x\<lparr>env_vmxinfo := (env_vmxinfo x)\<lparr>vmcs := page2pa q + KERNBASE\<rparr>\<rparr>) [(q, 2), (p, 1)] fl' u'"
proof (cases fl)
  case Nil
  then show ?thesis
    using assms grabbed_empty(2) [of e s x "[(p, 1)]" u] grabbed_drop [of e s x "[]" p "[]" fl u]
    by (auto simp: guest_vmcs_def guest_failed_def)
next
  case (Cons q fl')
  with assms(1) obtain t where "vmx_init_vmcs u = Some (Some q, t)" "grabbed e s x [(q, 2), (p, 1)] fl' (page_incref q t)"
    using grabbed_vmcs by blast
  then show ?thesis
    using Cons grabbed_kva grabbed_vmx [where f = "\<lambda>v. v\<lparr>vmcs := page2pa q + KERNBASE\<rparr>"]
    by (fastforce simp: guest_vmcs_def)
qed

lemma grabbed_vmxinfo_page:
  assumes "grabbed e s x ps (r # fl) u"
  shows "\<exists>t. page_alloc ALLOC_ZERO u = Some (Some r, t) \<and>
    page2kva (page_incref r t) r = Some (page2pa r + KERNBASE) \<and>
    (\<forall>f. grabbed e s (x\<lparr>env_vmxinfo := f (env_vmxinfo x)\<rparr>) ((r, 1) # ps) fl (upd_vmxinfo e f (page_incref r t)))"
  using grabbed_alloc [OF assms] grabbed_kva grabbed_vmx by blast

lemma guest_msr_area_cases:
  assumes "grabbed e s x [(q, 2), (p, 1)] fl u" "same_slot (envs s e) x"
  shows "\<exists>u'. case fl of
      [] \<Rightarrow> guest_msr_area pid e p q u = Some ((- E_NO_MEM, None), u') \<and> guest_failed e s [(q, 1)] [p] u'
    | r # fl' \<Rightarrow> guest_msr_area pid e p q u = guest_io_bmap_a pid e p q r u' \<and>
        grabbed e s (x\<lparr>env_vmxinfo := (env_vmxinfo x)\<lparr>msr_host_area := page2pa r + KERNBASE,
          msr_guest_area := page2pa r + KERNBASE + PGSIZE div 2\<rparr>\<rparr>) [(r, 1), (q, 2), (p, 1)] fl' u'"
proof (cases fl)
  case Nil
  then show ?thesis
    using assms grabbed_empty(1) grabbed_drop [of e s x "[(q, 2)]" p "[]" fl u]
      grabbed_drop_vmcs [of e s x q "[]" "[p]" "page_decref p u"]
    by (auto simp: guest_msr_area_def guest_failed_def)
next
  case (Cons r fl')
  then show ?thesis
    using grabbed_vmxinfo_page [OF assms(1) [unfolded Cons]]
    by (fastforce simp: guest_msr_area_def)
qed

lemma guest_io_bmap_a_cases:
  assumes "grabbed e s x [(r, 1), (q, 2), (p, 1)] fl u" "same_slot (envs s e) x"
  shows "\<exists>u'. case fl of
      [] \<Rightarrow> guest_io_bmap_a pid e p q r u = Some ((- E_NO_MEM, None), u') \<and> guest_failed e s [(q, 1)] [r, p] u'
    | t # fl' \<Rightarrow> guest_io_bmap_a pid e p q r u = guest_io_bmap_b pid e p q r t u' \<and>
        grabbed e s (x\<lparr>env_vmxinfo := (env_vmxinfo x)\<lparr>io_bmap_a := page2pa t + KERNBASE\<rparr>\<rparr>)
          [(t, 1), (r, 1), (q, 2), (p, 1)] fl' u'"
proof (cases fl)
  case Nil
  let ?u1 = "page_decref p u" and ?u2 = "page_decref q (page_decref p u)"
  have "grabbed e s x [(r, 1), (q, 2)] [p] ?u1"
    using assms Nil grabbed_drop [of e s x "[(r, 1), (q, 2)]" p "[]" fl u] by simp
  then have "grabbed e s x [(r, 1), (q, 1)] [p] ?u2"
    using grabbed_dec [of e s x "[(r, 1)]" q 2 "[]" "[p]" ?u1] by simp
  then have "grabbed e s x [(q, 1)] [r, p] (page_decref r ?u2)"
    using grabbed_drop [of e s x "[]" r "[(q, 1)]" "[p]" ?u2] by simp
  then show ?thesis
    using assms Nil grabbed_empty(1) by (auto simp: guest_io_bmap_a_def guest_failed_def)
next
  case (Cons r fl')
  then show ?thesis
    using grabbed_vmxinfo_page [OF assms(1) [unfolded Cons]]
    by (fastforce simp: guest_io_bmap_a_def)
qed

lemma guest_io_bmap_b_cases:
  assumes "grabbed e s x [(t, 1), (r, 1), (q, 2), (p, 1)] fl u" "same_slot (envs s e) x"
  shows "\<exists>u'. case fl of
      [] \<Rightarrow> guest_io_bmap_b pid e p q r t u = Some ((- E_NO_MEM, None), u') \<and> guest_failed e s [(q, 1)] [t, r, p] u'
    | v # fl' \<Rightarrow> guest_io_bmap_b pid e p q r t u = guest_commit pid e u' \<and>
        grabbed e s (x\<lparr>env_vmxinfo := (env_vmxinfo x)\<lparr>io_bmap_b := page2pa v + KERNBASE\<rparr>\<rparr>)
          [(v, 1), (t, 1), (r, 1), (q, 2), (p, 1)] fl' u'"
proof (cases fl)
  case Nil
  let ?u1 = "page_decref p u" and ?u2 = "page_decref q (page_decref p u)"
  let ?u3 = "page_decref r ?u2"
  have "grabbed e s x [(t, 1), (r, 1), (q, 2)] [p] ?u1"
    using assms Nil grabbed_drop [of e s x "[(t, 1), (r, 1), (q, 2)]" p "[]" fl u] by simp
  then have "grabbed e s x [(t, 1), (r, 1), (q, 1)] [p] ?u2"
    using grabbed_dec [of e s x "[(t, 1), (r, 1)]" q 2 "[]" "[p]" ?u1] by simp
  then have "grabbed e s x [(t, 1), (q, 1)] [r, p] ?u3"
    using grabbed_drop [of e s x "[(t, 1)]" r "[(q, 1)]" "[p]" ?u2] by simp
  then have "grabbed e s x [(q, 1)] [t, r, p] (page_decref t ?u3)"
    using grabbed_drop [of e s x "[]" t "[(q, 1)]" "[r, p]" ?u3] by simp
  then show ?thesis
    using assms Nil grabbed_empty(1) by (auto simp: guest_io_bmap_b_def guest_failed_def)
next
  case (Cons r fl')
  then show ?thesis
    using grabbed_vmxinfo_page [OF assms(1) [unfolded Cons]]
    by (fastforce simp: guest_io_bmap_b_def)
qed

lemma env_guest_alloc_cases:
  assumes "alloc_wf s fl" "env_free_list s = Some e"
  shows "\<exists>u'. case fl of
      [] \<Rightarrow> env_guest_alloc pid s = Some ((- E_NO_MEM, None), u') \<and> guest_failed e s [] [] u'
    | p # fl' \<Rightarrow> env_guest_alloc pid s = guest_vmcs pid e p u' \<and>
        grabbed e s ((envs s e)\<lparr>env_vmxinfo := zero_vmxinfo, env_pml4e := page2pa p + KERNBASE, env_cr3 := page2pa p\<rparr>)
          [(p, 1)] fl' u'"
proof -
  have g: "grabbed e s ((envs s e)\<lparr>env_vmxinfo := zero_vmxinfo\<rparr>) [] fl (upd_vmxinfo e (\<lambda>_. zero_vmxinfo) s)"
    using grabbed_start [OF assms(1), of e "\<lambda>x. x\<lparr>env_vmxinfo := zero_vmxinfo\<rparr>"] by (simp add: upd_vmxinfo_def)
  show ?thesis
  proof (cases fl)
    case Nil
    then show ?thesis
      using g assms(2) grabbed_empty(1) by (fastforce simp: env_guest_alloc_def guest_failed_def)
  next
    case (Cons p fl')
    obtain t where "page_alloc ALLOC_ZERO (upd_vmxinfo e (\<lambda>_. zero_vmxinfo) s) = Some (Some p, t)"
        "upd_page p (\<lambda>_. \<lparr>pp_link = None, pp_ref = 0\<rparr>) t = t"
        "grabbed e s ((envs s e)\<lparr>env_vmxinfo := zero_vmxinfo\<rparr>) [(p, 1)] fl' (page_incref p t)"
      using grabbed_alloc [OF g [unfolded Cons]] by blast
    then show ?thesis
      using Cons assms(2) grabbed_kva
        grabbed_env [where f = "\<lambda>x. x\<lparr>env_pml4e := page2pa p + KERNBASE, env_cr3 := page2pa p\<rparr>"]
      by (fastforce simp: env_guest_alloc_def)
  qed
qed

lemma grabbed_refs:
  "grabbed e s x ps fl u \<Longrightarrow> (p, n) \<in> set ps \<Longrightarrow> pp_ref (pages u p) = n"
  by (auto simp: grabbed_def list_all_iff held_def)

text \<open>With fewer than five free pages the call fails.\<close>

lemma env_guest_alloc_fails:
  assumes wf: "alloc_wf s fl" and e: "env_free_list s = Some e" and few: "length fl < 5"
  shows "\<exists>u. env_guest_alloc pid s = Some ((- E_NO_MEM, None), u) \<and>
    guest_failed e s (if 2 \<le> length fl then [(fl ! 1, 1)] else []) (rev (take 1 fl @ drop 2 fl)) u"
proof -
  note cases0 = env_guest_alloc_cases [OF assms(1,2), of pid]
  note stages = guest_vmcs_cases [where pid = pid] guest_msr_area_cases [where pid = pid]
    guest_io_bmap_a_cases [where pid = pid] guest_io_bmap_b_cases [where pid = pid]
  consider "fl = []" | p where "fl = [p]" | p q where "fl = [p, q]" | p q r where "fl = [p, q, r]"
    | p q r t where "fl = [p, q, r, t]"
    using few by (auto simp: less_Suc_eq numeral_eq_Suc length_Suc_conv)
  then show ?thesis
  proof cases
    case 1
    then show ?thesis using cases0 by simp
  next
    case 2
    then show ?thesis using cases0 stages(1) by fastforce
  next
    case 3
    then show ?thesis using cases0 stages(1,2) by fastforce
  next
    case 4
    then show ?thesis using cases0 stages(1,2,3) by fastforce
  next
    case 5
    then show ?thesis using cases0 stages by fastforce
  qed
qed

lemma env_guest_alloc_succeeds:
  assumes "alloc_wf s (p # q # r # t # v # fl)" "env_free_list s = Some e"
  shows "\<exists>u. env_guest_alloc pid s = guest_commit pid e u \<and>
    grabbed e s (guest_pages p q r t v (envs s e)) [(v, 1), (t, 1), (r, 1), (q, 2), (p, 1)] fl u"
proof -
  let ?x1 = "(envs s e)\<lparr>env_vmxinfo := zero_vmxinfo, env_pml4e := page2pa p + KERNBASE, env_cr3 := page2pa p\<rparr>"
  let ?x2 = "?x1\<lparr>env_vmxinfo := zero_vmxinfo\<lparr>vmcs := page2pa q + KERNBASE\<rparr>\<rparr>"
  let ?x3 = "?x2\<lparr>env_vmxinfo := (env_vmxinfo ?x2)\<lparr>msr_host_area := page2pa r + KERNBASE,
    msr_guest_area := page2pa r + KERNBASE + PGSIZE div 2\<rparr>\<rparr>"
  let ?x4 = "?x3\<lparr>env_vmxinfo := (env_vmxinfo ?x3)\<lparr>io_bmap_a := page2pa t + KERNBASE\<rparr>\<rparr>"
  obtain u1 where "env_guest_alloc pid s = guest_vmcs pid e p u1" "grabbed e s ?x1 [(p, 1)] (q # r # t # v # fl) u1"
    using env_guest_alloc_cases [OF assms, of pid] by auto
  moreover from this(2) obtain u2 where "guest_vmcs pid e p u1 = guest_msr_area pid e p q u2"
      "grabbed e s ?x2 [(q, 2), (p, 1)] (r # t # v # fl) u2"
    using guest_vmcs_cases [of e s ?x1 p "q # r # t # v # fl" u1 pid] by auto
  moreover from this(2) obtain u3 where "guest_msr_area pid e p q u2 = guest_io_bmap_a pid e p q r u3"
      "grabbed e s ?x3 [(r, 1), (q, 2), (p, 1)] (t # v # fl) u3"
    using guest_msr_area_cases [of e s ?x2 q p "r # t # v # fl" u2 pid] by auto
  moreover from this(2) obtain u4 where "guest_io_bmap_a pid e p q r u3 = guest_io_bmap_b pid e p q r t u4"
      "grabbed e s ?x4 [(t, 1), (r, 1), (q, 2), (p, 1)] (v # fl) u4"
    using guest_io_bmap_a_cases [of e s ?x3 r q p "t # v # fl" u3 pid] by auto
  moreover from this(2) obtain u5 where "guest_io_bmap_b pid e p q r t u4 = guest_commit pid e u5"
      "grabbed e s (guest_pages p q r t v (envs s e)) [(v, 1), (t, 1), (r, 1), (q, 2), (p, 1)] fl u5"
    using guest_io_bmap_b_cases [of e s ?x4 t r q p "v # fl" u4 pid] by (auto simp: guest_pages_def)
  ultimately show ?thesis by auto
qed

lemma guest_commit_facts:
  assumes "grabbed e s x ps fl u" "same_slot (envs s e) x" "table_wf s (e # efl)"
  shows "\<exists>s'. guest_commit pid e u = Some ((0, Some e), s') \<and> alloc_wf s' fl \<and> table_wf s' efl \<and>
    pages s' = pages u \<and> envs s' e = guest_env pid e (vcpu_count s) x"
proof -
  let ?n = "vcpu_count u"
  let ?u = "upd_env e (guest_env pid e ?n) u"
  have "table_wf u (e # efl)" using grabbed_links [OF assms(1,2)] assms(3) by (simp add: same_links_wf)
  then have "table_wf (env_commit e ?u) efl"
    by (rule table_wf_alloc [where old = "env_id (envs u e)"]) simp_all
  moreover have "alloc_wf u fl" "envs u e = x" "?n = vcpu_count s" using assms(1) by (simp_all add: grabbed_def)
  ultimately show ?thesis
    by (simp add: guest_commit_def Let_def env_commit_def table_wf_def free_slots_def alloc_wf_def phys_ok_def)
qed

lemma env_guest_alloc_result:
  assumes "alloc_wf s fl" "table_wf s efl"
  shows "\<exists>res s'. env_guest_alloc pid s = Some (res, s') \<and>
    (case efl of
       [] \<Rightarrow> res = (- E_NO_FREE_ENV, None) \<and> s' = s
     | e # efl' \<Rightarrow>
         if length fl < 5 then
           res = (- E_NO_MEM, None) \<and> table_wf s' efl \<and> alloc_wf s' (rev (take 1 fl @ drop 2 fl)) \<and>
           (2 \<le> length fl \<longrightarrow> pp_ref (pages s' (fl ! 1)) = 1)
         else
           res = (0, Some e) \<and> table_wf s' efl' \<and> alloc_wf s' (drop 5 fl) \<and>
           map (\<lambda>p. pp_ref (pages s' p)) (take 5 fl) = [1, 2, 1, 1, 1] \<and>
           envs s' e = guest_env pid e (vcpu_count s)
             (guest_pages (fl ! 0) (fl ! 1) (fl ! 2) (fl ! 3) (fl ! 4) (envs s e)))"
proof (cases efl)
  case Nil
  then show ?thesis using assms(2) by (simp add: table_wf_def env_guest_alloc_def)
next
  case (Cons e efl')
  have e: "env_free_list s = Some e" using assms(2) Cons by (simp add: table_wf_def linked_Cons)
  show ?thesis
  proof (cases "length fl < 5")
    case True
    obtain u x where u: "env_guest_alloc pid s = Some ((- E_NO_MEM, None), u)" and x: "same_slot (envs s e) x"
      and g: "grabbed e s x (if 2 \<le> length fl then [(fl ! 1, 1)] else []) (rev (take 1 fl @ drop 2 fl)) u"
      using env_guest_alloc_fails [OF assms(1) e True, of pid] by (auto simp: guest_failed_def)
    have "table_wf u efl" using grabbed_links [OF g x] assms(2) by (simp add: same_links_wf)
    moreover have "2 \<le> length fl \<longrightarrow> pp_ref (pages u (fl ! 1)) = 1" using grabbed_refs [OF g, of "fl ! 1" 1] by simp
    moreover have "alloc_wf u (rev (take 1 fl @ drop 2 fl))" using g by (simp add: grabbed_def)
    ultimately show ?thesis using u True Cons by simp
  next
    case False
    then obtain p q r t v fl' where fl: "fl = p # q # r # t # v # fl'"
      by (auto simp: not_less Suc_le_length_iff numeral_eq_Suc)
    obtain u where u: "env_guest_alloc pid s = guest_commit pid e u"
      and g: "grabbed e s (guest_pages p q r t v (envs s e)) [(v, 1), (t, 1), (r, 1), (q, 2), (p, 1)] fl' u"
      using env_guest_alloc_succeeds [of s p q r t v fl' e pid] assms(1) e fl by auto
    have "same_slot (envs s e) (guest_pages p q r t v (envs s e))" by (simp add: guest_pages_def)
    then show ?thesis
      using guest_commit_facts [OF g _ assms(2) [unfolded Cons], of pid] u fl Cons grabbed_refs [OF g]
      by (auto simp: numeral_eq_Suc)
  qed
qed

text \<open>
  C9. Creating a guest. On well-formed lists \<^verbatim>\<open>env_guest_alloc\<close> does not panic. With five free pages it
  takes the first environment and these pages, as the root of its extended page tables, its VMCS, its
  MSR areas (two halves of one page) and its two I/O bitmaps, and leaves the lists well formed; each page has one
  reference except the VMCS page, which \<^verbatim>\<open>vmx_init_vmcs\<close> and the caller both count. With fewer pages it
  reports \<^verbatim>\<open>-E_NO_MEM\<close> and returns every page it took to the free list, except for the VMCS page, whose
  second reference is never dropped: that page is lost.
\<close>

theorem env_guest_alloc_outcomes:
  assumes "alloc_wf s fl" "table_wf s efl"
  shows "\<exists>res s'. env_guest_alloc pid s = Some (res, s') \<and>
    (case efl of
       [] \<Rightarrow> res = (- E_NO_FREE_ENV, None) \<and> s' = s
     | e # efl' \<Rightarrow>
         if length fl < 5 then
           res = (- E_NO_MEM, None) \<and> table_wf s' efl \<and> alloc_wf s' (rev (take 1 fl @ drop 2 fl)) \<and>
           (2 \<le> length fl \<longrightarrow> pp_ref (pages s' (fl ! 1)) = 1)
         else
           res = (0, Some e) \<and> table_wf s' efl' \<and> alloc_wf s' (drop 5 fl) \<and>
           map (\<lambda>p. pp_ref (pages s' p)) (take 5 fl) = [1, 2, 1, 1, 1] \<and>
           envs s' e = guest_env pid e (vcpu_count s)
             (guest_pages (fl ! 0) (fl ! 1) (fl ! 2) (fl ! 3) (fl ! 4) (envs s e)))"
  using env_guest_alloc_result [OF assms] .

theorem env_guest_alloc_outcomes_witness:
  "\<exists>s'. env_guest_alloc 0 boot_kernel = Some ((- E_NO_MEM, None), s') \<and> alloc_wf s' [5, 4, 2] \<and>
     pp_ref (pages s' 3) = 1"
  using env_guest_alloc_outcomes [of boot_kernel "[2, 3, 4, 5]" "0 # [Suc 0..<NENV]" 0]
  by auto

end
