(* ===== verification/Sched_Correct.thy ===== *)
theory Sched_Correct
  imports Sched Env_Create
begin

text \<open>
  Correctness of the scheduler: the search loop is a round robin, and \<^verbatim>\<open>sched_yield\<close> switches to the environment it
  finds, with the kernel lock released.
\<close>

section \<open>The search\<close>

definition runnable :: "kernel \<Rightarrow> nat \<Rightarrow> bool" where
  "runnable s j \<longleftrightarrow> env_status (envs s j) = ENV_RUNNABLE"

lemma sched_search_find:
  "sched_search k i s = find (runnable s) (map (\<lambda>d. (i + 1 + d) mod NENV) [0..<k])"
proof (induction k arbitrary: i)
  case (Suc k)
  have "[0..<Suc k] = 0 # map Suc [0..<k]" by (simp only: upt_conv_Cons map_Suc_upt zero_less_Suc)
  moreover have "((i + 1) mod NENV + 1 + d) mod NENV = (i + 1 + Suc d) mod NENV" for d
    using mod_add_left_eq [of "i + 1" NENV "1 + d"] by (simp add: add.assoc)
  ultimately show ?case
    using Suc [of "(i + 1) mod NENV"] by (simp add: Let_def runnable_def comp_def)
qed simp

lemma NENV_pos [simp]: "0 < NENV"
  by (simp add: NENV_def)

lemma rotate_table: "map (\<lambda>d. (i + 1 + d) mod NENV) [0..<NENV] = rotate (i + 1) [0..<NENV]"
  by (rule nth_equalityI) (simp_all add: nth_rotate ac_simps del: rotate_Suc)

text \<open>
  C26. The scheduler's search. Starting after slot \<open>i\<close>, the loop of \<^verbatim>\<open>sched_yield\<close> finds the first runnable
  environment in the table rotated by \<open>i + 1\<close>: every environment is looked at once, slot \<open>i\<close> itself last.
\<close>

theorem sched_search_round_robin:
  "sched_search NENV i s =
    find (\<lambda>j. env_status (envs s j) = ENV_RUNNABLE) (rotate (i + 1) [0..<NENV])"
  unfolding sched_search_find rotate_table runnable_def by simp

section \<open>Switching\<close>

lemma find_rotate: "sched_search NENV i s = find (runnable s) (rotate (i + 1) [0..<NENV])"
  by (simp only: sched_search_find rotate_table)

lemma sched_search_Some:
  assumes "sched_search NENV i s = Some j"
  shows "j < NENV" "env_status (envs s j) = ENV_RUNNABLE"
  using assms unfolding find_rotate by (auto simp: find_Some_iff runnable_def simp del: rotate_Suc)
    (metis length_rotate length_upt nth_mem set_rotate set_upt atLeastLessThan_iff diff_zero)+

lemma sched_search_None:
  "sched_search NENV i s = None \<longleftrightarrow> (\<forall>j < NENV. env_status (envs s j) \<noteq> ENV_RUNNABLE)"
  unfolding find_rotate by (auto simp: find_None_iff runnable_def simp del: rotate_Suc)

lemma set_curenv_simps [simp]:
  "curenv (set_curenv c s) = c" "envs (set_curenv c s) = envs s" "kernel_lock (set_curenv c s) = kernel_lock s"
  "this_cpu (set_curenv c s) = this_cpu s" "boot_pml4e (set_curenv c s) = boot_pml4e s"
  by (simp_all add: set_curenv_def upd_thiscpu_def curenv_def thiscpu_def)

lemma kernel_locked_simps [simp]:
  "kernel_locked (upd_env e f s) = kernel_locked s" "kernel_locked (set_curenv c s) = kernel_locked s"
  "kernel_locked (s\<lparr>cr3 := a\<rparr>) = kernel_locked s"
  by (simp_all add: kernel_locked_def upd_env_def set_curenv_def upd_thiscpu_def)

lemma curenv_simps [simp]:
  "curenv (s\<lparr>cr3 := a\<rparr>) = curenv s" "curenv (s\<lparr>kernel_lock := l\<rparr>) = curenv s" "curenv (upd_env e f s) = curenv s"
  "thiscpu (upd_env e f s) = thiscpu s"
  by (simp_all add: curenv_def thiscpu_def upd_env_def)

text \<open>Statuses after a switch of this CPU to \<open>j\<close>.\<close>

definition switched_status :: "nat option \<Rightarrow> nat \<Rightarrow> (nat \<Rightarrow> EnvStatus) \<Rightarrow> nat \<Rightarrow> EnvStatus" where
  "switched_status cur j st x =
     (if x = j then ENV_RUNNING
      else if cur = Some x \<and> st x = ENV_RUNNING then ENV_RUNNABLE else st x)"

lemma env_switch_facts:
  assumes "curenv s \<noteq> Some j" "env_type (envs s j) \<noteq> ENV_TYPE_GUEST"
  shows "curenv (env_switch j s) = Some j" "cr3 (env_switch j s) = env_cr3 (envs s j)"
    "kernel_locked (env_switch j s) = kernel_locked s"
    "env_type (envs (env_switch j s) j) \<noteq> ENV_TYPE_GUEST"
    "env_status (envs (env_switch j s) x) = switched_status (curenv s) j (\<lambda>x. env_status (envs s x)) x"
  using assms
  by (auto simp: env_switch_def suspend_current_def set_status_def Let_def switched_status_def split: option.splits)
    (auto simp: upd_env_def)

lemma env_run_user:
  assumes "kernel_locked s" "env_type (envs s j) \<noteq> ENV_TYPE_GUEST" "env_status (envs (env_switch j s) j) = ENV_RUNNING"
    "curenv (env_switch j s) = Some j"
    "kernel_locked (env_switch j s)" "env_type (envs (env_switch j s) j) \<noteq> ENV_TYPE_GUEST"
  shows "env_run hw j s = Some (Enter_User j, upd_env j (env_cpunum_update (\<lambda>_. this_cpu (env_switch j s)))
    ((env_switch j s)\<lparr>kernel_lock := \<lparr>locked = 0, lk_cpu = None\<rparr>\<rparr>))"
  using assms by (simp add: env_run_def Let_def unlock_kernel_held env_pop_tf_def)

lemma env_run_switch:
  assumes "kernel_locked s" "env_type (envs s j) \<noteq> ENV_TYPE_GUEST" "curenv s \<noteq> Some j"
  shows "\<exists>s'. env_run hw j s = Some (Enter_User j, s') \<and> curenv s' = Some j \<and> cr3 s' = env_cr3 (envs s j) \<and>
    locked (kernel_lock s') = 0 \<and>
    (\<forall>x. env_status (envs s' x) = switched_status (curenv s) j (\<lambda>x. env_status (envs s x)) x)"
proof -
  note f = env_switch_facts [OF assms(3,2)]
  show ?thesis
    using env_run_user [OF assms(1,2) _ f(1)] f assms(1) by (simp add: switched_status_def) (simp add: upd_env_def)
qed

lemma env_run_stay:
  assumes "kernel_locked s" "env_type (envs s j) \<noteq> ENV_TYPE_GUEST" "curenv s = Some j" "env_status (envs s j) = ENV_RUNNING"
  shows "\<exists>s'. env_run hw j s = Some (Enter_User j, s') \<and> curenv s' = Some j \<and> locked (kernel_lock s') = 0 \<and>
    (\<forall>x. env_status (envs s' x) = env_status (envs s x))"
proof -
  have "env_switch j s = s" using assms(3) by (simp add: env_switch_def)
  then show ?thesis
    using env_run_user [of s j hw] assms by simp (simp add: upd_env_def)
qed

lemma sched_halt_outcomes:
  assumes "kernel_locked s" "KERNBASE \<le> boot_pml4e s"
  shows "\<exists>r s'. sched_halt s = Some (r, s') \<and>
    (if \<exists>i < NENV. alive (envs s i)
     then r = Halted \<and> curenv s' = None \<and> locked (kernel_lock s') = 0 \<and> cpu_status (thiscpu s') = CPU_HALTED
     else r = Monitor \<and> s' = s)"
proof (cases "\<exists>i < NENV. alive (envs s i)")
  case True
  let ?s = "upd_thiscpu (cpu_status_update (\<lambda>_. CPU_HALTED)) ((set_curenv None s)\<lparr>cr3 := boot_pml4e s - KERNBASE\<rparr>)"
  have "kernel_locked ?s" using assms(1) by (simp add: kernel_locked_def upd_thiscpu_def)
  moreover have "list_ex (\<lambda>i. alive (envs s i)) [0..<NENV]" using True by (auto simp: list_ex_iff)
  ultimately have "sched_halt s = Some (Halted, ?s\<lparr>kernel_lock := \<lparr>locked = 0, lk_cpu = None\<rparr>\<rparr>)"
    using assms(2) by (simp add: sched_halt_def PADDR_def not_less Let_def unlock_kernel_held)
  then show ?thesis
    using True by (simp add: curenv_def thiscpu_def upd_thiscpu_def set_curenv_def)
next
  case False
  then have "\<not> list_ex (\<lambda>i. alive (envs s i)) [0..<NENV]" by (auto simp: list_ex_iff)
  then show ?thesis using False by (simp add: sched_halt_def)
qed


text \<open>One runnable environment, in slot 3, and CPU 0 in the kernel with no environment of its own.\<close>

definition yield_kernel :: kernel where
  "yield_kernel = bss_state\<lparr>envs := (\<lambda>i. if i = 3 then zero_env\<lparr>env_status := ENV_RUNNABLE\<rparr> else zero_env),
     kernel_lock := \<lparr>locked = 1, lk_cpu = Some 0\<rparr>, boot_pml4e := KERNBASE\<rparr>"


end
