(* ===== verification/Syscall_Correct.thy ===== *)
theory Syscall_Correct
  imports Syscall Guest_Create Sched_Correct
begin

text \<open>
  Correctness of the system calls that manage guests: \<^verbatim>\<open>sys_ept_map\<close>, \<^verbatim>\<open>sys_env_mkguest\<close>, and the list of
  guests with the choice of one to resume. They compose the environment table, the page tables of
  the caller and the extended page tables of the guest.
\<close>

section \<open>Mapping memory into a guest\<close>

text \<open>
  The entry of a guest page below the first 1 GB, with the table index in the lower half. Three outcomes: no memory for
  the tables, which \<^verbatim>\<open>ept_page_insert\<close> reports as success; an entry in use; a new entry.
\<close>

lemma ept_page_insert_cases:
  assumes rd: "insert_ready s fl root gpa" and lo: "gpa < 0x40000000" and pt: "PTX gpa < 256"
  defines "k \<equiv> missing (mem s) root (walk_idx gpa)"
  defines "used \<equiv> (\<exists>t. follow (mem s) root (walk_idx gpa) = Some t \<and> mem s (slot t (PTX gpa)) \<noteq> 0)"
  shows "\<exists>r s'. ept_page_insert (page2pa root + KERNBASE) pp gpa perm False s = Some (r, s') \<and>
    (\<forall>q. q \<notin> set fl \<longrightarrow> pages s' q = pages s q) \<and> envs s' = envs s \<and>
    (if length fl < k then r = 0 \<and> s'\<lparr>mem := mem s\<rparr> = s
     else alloc_wf s' (drop k fl) \<and>
       (if used then r = - E_INVAL
        else r = 0 \<and> (\<exists>t. follow (mem s') root (walk_idx gpa) = Some t \<and>
          mem s' (slot t (2 * PTX gpa)) = ept_leaf pp perm)))"
proof (cases "length fl < k")
  case True
  have wr: "walk_ready s fl root (walk_idx gpa)" and wf: "alloc_wf s fl"
    using rd by (auto simp: insert_ready_def walk_ready_def)
  obtain m' fl' r where g: "grow (mem s) fl root (walk_idx gpa) = (m', fl', r)"
    by (cases "grow (mem s) fl root (walk_idx gpa)") auto
  have "r = None" using grow_success [OF g] walk_ready_pre [OF wr] True unfolding walk_pre_def k_def by auto
  moreover from this have "fl' = fl" using grow_fail g by simp
  moreover have "page2pa root + KERNBASE \<noteq> 0"
    using rd table_ptr_nonzero(2) [of root 0] phys_ok_frame [of s root]
    by (auto simp: insert_ready_def walk_ready_def path_ok_def alloc_wf_def walk_idx_def)
  ultimately show ?thesis
    using pml4w.create [OF wr g] True wf
    by (simp add: ept_page_insert_def ept_lookup_gpa_def leaf_ptr_def claimed_none const_defs)
next
  case False
  obtain m' t where g: "grow (mem s) fl root (walk_idx gpa) = (m', drop k fl, Some t)"
    using insert_grow [OF rd] False unfolding k_def by (metis not_less)
  let ?m2 = "upd_cells m' root (walk_idx gpa) full"
  note leaf = ept_inserted [OF rd g pt]
  have u: "used \<longleftrightarrow> ?m2 (slot t (PTX gpa)) \<noteq> 0"
  proof (cases "k = 0")
    case True
    then have "follow (mem s) root (walk_idx gpa) = Some t" using grow_none_missing [OF True [unfolded k_def], of fl] g by simp
    then show ?thesis using leaf(2) True by (simp add: used_def k_def)
  next
    case False
    then have "follow (mem s) root (walk_idx gpa) = None" 
      using follow_missing [of "mem s" root "walk_idx gpa"] by (simp add: k_def)
    then show ?thesis using leaf(2) False by (simp add: used_def k_def)
  qed
  have "alloc_wf (claimed fl (drop k fl) m s) (drop k fl)" for m
    using rd claimed_wf [of s "take k fl" "drop k fl" m] by (simp add: insert_ready_def walk_ready_def)
  then show ?thesis
    using ept_page_insert_exec [OF rd g PDPE_low [OF lo] pt, of pp perm False] leaf(1) u False
    by (auto simp: claimed_def)
qed

text \<open>
  The conditions that the comment of \<^verbatim>\<open>sys_ept_map\<close> lists, for a source environment with root table \<open>root\<close> and a guest
  of size \<open>sz\<close>.
\<close>

definition ept_map_valid :: "(u64 \<Rightarrow> u64) \<Rightarrow> nat \<Rightarrow> u64 \<Rightarrow> u64 \<Rightarrow> u64 \<Rightarrow> u32 \<Rightarrow> bool" where
  "ept_map_valid m root va sz gpa perm \<longleftrightarrow>
     va < UTOP \<and> PGOFF va = 0 \<and> gpa < sz \<and> PGOFF gpa = 0 \<and> translate m root va \<noteq> None \<and> perm \<noteq> 0 \<and>
     (perm AND ucast EPTE_WRITE \<noteq> 0 \<longrightarrow> m (leaf_addr m root va) AND PTE_W \<noteq> 0)"

lemma load_leaf:
  assumes "lookup_ok s root va" "translate (mem s) root va = Some p"
  shows "load64 s (leaf_addr (mem s) root va + KERNBASE) = Some (mem s (leaf_addr (mem s) root va))"
proof -
  obtain t where t: "follow (mem s) root (walk_idx va) = Some t"
    using assms(2) by (auto simp: translate_leaf split: option.splits)
  then have "t < npages s" using assms(1) follow_bound by (auto simp: lookup_ok_def)
  then show ?thesis using assms(1) t by (simp add: leaf_addr_def lookup_ok_def load64_slot)
qed

lemma sys_ept_map_exec:
  assumes src: "envid2env srcid True s = Some (0, Some x)" and gst: "envid2env gid True s = Some (0, Some g)"
    and root: "env_pml4e (envs s x) = page2pa root + KERNBASE" and look: "lookup_ok s root va"
  shows "sys_ept_map srcid va gid gpa perm s =
    (if ept_map_valid (mem s) root va (phys_sz (env_vmxinfo (envs s g))) gpa perm
     then do { (r, t) \<leftarrow> ept_page_insert (env_pml4e (envs s g)) (the (translate (mem s) root va)) gpa perm False s;
               if r < 0 then Some (r, t) else Some (0, page_incref (the (translate (mem s) root va)) t) }
     else Some (- E_INVAL, s))"
proof (cases "translate (mem s) root va")
  case None
  then show ?thesis
    using page_lookup_exec [OF look] by (simp add: sys_ept_map_def src gst root ept_map_valid_def)
next
  case (Some p)
  then have p: "the (translate (mem s) root va) = p" by simp
  show ?thesis
    unfolding p using page_lookup_exec [OF look] load_leaf [OF look Some]
    by (auto simp: sys_ept_map_def src gst root ept_map_valid_def Some)
qed


text \<open>A caller in slot 0 with its page 11 at address 0, and its guest in slot 1 with an empty root table in page 12.\<close>

definition pair_kernel :: kernel where
  "pair_kernel = mapped_kernel\<lparr>cpus := (\<lambda>c. (cpus mapped_kernel c)\<lparr>cpu_env := Some 0\<rparr>),
     envs := (\<lambda>e. if e = 0 then zero_env\<lparr>env_id := 0x1000, env_status := ENV_RUNNING, env_pml4e := page2pa 1 + KERNBASE\<rparr>
       else zero_env\<lparr>env_id := 0x1001, env_parent_id := 0x1000, env_type := ENV_TYPE_GUEST, env_status := ENV_NOT_RUNNABLE,
         env_pml4e := page2pa 12 + KERNBASE, env_vmxinfo := zero_vmxinfo\<lparr>phys_sz := 0x1000000\<rparr>\<rparr>)\<rparr>"

lemma pair_kernel_ids:
  "envid2env 0x1000 True pair_kernel = Some (0, Some 0)" "envid2env 0x1001 True pair_kernel = Some (0, Some 1)"
  by (simp_all add: pair_kernel_def envid2env_def ENVX_def curenv_def thiscpu_def)

lemma pair_kernel_simps [simp]:
  "mem pair_kernel = mem mapped_kernel" "npages pair_kernel = 16" "pages pair_kernel = pages mapped_kernel"
  "env_pml4e (envs pair_kernel 0) = page2pa 1 + KERNBASE" "env_pml4e (envs pair_kernel 1) = page2pa 12 + KERNBASE"
  "phys_sz (env_vmxinfo (envs pair_kernel 1)) = 0x1000000"
  by (simp_all add: pair_kernel_def)

lemma pair_kernel_wf:
  "alloc_wf pair_kernel [2, 3, 4, 5]" "lookup_ok pair_kernel 1 0" "insert_ready pair_kernel [2, 3, 4, 5] 12 0x3000"
  "missing (mem mapped_kernel) 12 (walk_idx 0x3000) = 3" "follow (mem mapped_kernel) 12 (walk_idx 0x3000) = None"
proof -
  have "mem mapped_kernel (slot 12 i) = 0" if "i < 512" for i
    using that by (simp add: mapped_kernel_mem slot_inj)
  then have "mem mapped_kernel (slot 12 (PML4 0x3000)) = 0" using idx_less(1) by blast
  then have n: "path_frames (mem mapped_kernel) 12 (walk_idx 0x3000) = [12]"
    by (simp add: walk_idx_def)
  show wf: "alloc_wf pair_kernel [2, 3, 4, 5]"
    using mapped_kernel_wf by (simp add: alloc_wf_def pair_kernel_def phys_ok_def)
  show "lookup_ok pair_kernel 1 0"
    using mapped_kernel_lookup by (simp add: lookup_ok_def path_ok_def phys_ok_def)
  show m: "missing (mem mapped_kernel) 12 (walk_idx 0x3000) = 3" 
    unfolding missing_def n by (simp add: walk_idx_def)
  then show f: "follow (mem mapped_kernel) 12 (walk_idx 0x3000) = None"
    using follow_missing [of "mem mapped_kernel" 12 "walk_idx 0x3000"] by simp
  show "insert_ready pair_kernel [2, 3, 4, 5] 12 0x3000"
    using wf f by (simp add: insert_ready_def walk_ready_def path_ok_def n translate_leaf)
qed


section \<open>Creating a guest\<close>

lemma table_wf_status_upd:
  assumes "table_wf s fl" "e \<notin> set fl" "st \<noteq> ENV_FREE" "e < NENV"
    and "\<And>x. env_status (f x) = st" "\<And>x. env_link (f x) = env_link x" "\<And>x. env_id (f x) = env_id x"
  shows "table_wf (upd_env e f s) fl"
proof -
  have "env_status (envs s e) \<noteq> ENV_FREE" using assms(1,2,4) by (auto simp: table_wf_def free_slots_def)
  moreover have "(\<lambda>x. env_link (envs (upd_env e f s) x)) = (\<lambda>x. env_link (envs s x))"
    using assms(6) by (auto simp: upd_env_def)
  ultimately show ?thesis
    using assms by (auto simp: table_wf_def free_slots_def id_ok_def upd_env_def)
qed

text \<open>
  C5. Creating a guest. Without VMX, or without EPT, the call is refused and the state is unchanged; so it is without a free
  environment. Without five free pages it reports \<^verbatim>\<open>-E_NO_MEM\<close> and the table of environments stays well formed. Otherwise it
  returns a positive id, which \<^verbatim>\<open>envid2env\<close> maps back to the new environment: a guest that is a child of the caller, is
  not scheduled yet, has the requested memory size and starts at the requested address; both free lists stay well formed.
\<close>

theorem sys_env_mkguest_outcomes:
  assumes "alloc_wf s fl" "table_wf s efl" and c: "curenv s = Some c"
  shows "\<exists>r s'. sys_env_mkguest hw gphysz gRIP s = Some (r, s') \<and>
    (if \<not> vmx_check_support hw then r = - E_NO_VMX \<and> s' = s
     else if \<not> vmx_check_ept s then r = - E_NO_EPT \<and> s' = s
     else case efl of
       [] \<Rightarrow> r = - E_NO_FREE_ENV \<and> s' = s
     | e # efl' \<Rightarrow>
         if length fl < 5 then r = - E_NO_MEM \<and> table_wf s' efl
         else 0 < r \<and> table_wf s' efl' \<and> alloc_wf s' (drop 5 fl) \<and>
           envid2env (word_of_int r) False s' = Some (0, Some e) \<and> env_parent_id (envs s' e) = env_id (envs s c) \<and>
           env_type (envs s' e) = ENV_TYPE_GUEST \<and> env_status (envs s' e) = ENV_NOT_RUNNABLE \<and>
           phys_sz (env_vmxinfo (envs s' e)) = gphysz \<and> tf_rip (env_tf (envs s' e)) = gRIP)"
proof (cases "vmx_check_support hw \<and> vmx_check_ept s")
  case False
  then show ?thesis by (auto simp: sys_env_mkguest_def)
next
  case True
  let ?pid = "env_id (envs s c)"
  note alloc = env_guest_alloc_result [OF assms(1,2), of ?pid]
  have neg: "- E_NO_FREE_ENV < 0" "- E_NO_MEM < 0" by (simp_all add: const_defs)
  show ?thesis
  proof (cases "efl = [] \<or> length fl < 5")
    case few: True
    then show ?thesis
      using True alloc c neg by (cases efl) (auto simp: sys_env_mkguest_def)
  next
    case False
    then obtain e efl' where efl: "efl = e # efl'" by (cases efl) auto
    obtain t where run: "env_guest_alloc ?pid s = Some ((0, Some e), t)"
      and t: "table_wf t efl'" "alloc_wf t (drop 5 fl)" "envs t e = guest_env ?pid e (vcpu_count s)
        (guest_pages (fl ! 0) (fl ! 1) (fl ! 2) (fl ! 3) (fl ! 4) (envs s e))"
      using alloc False efl by auto
    let ?f = "\<lambda>x. x\<lparr>env_status := ENV_NOT_RUNNABLE, env_vmxinfo := (env_vmxinfo x)\<lparr>phys_sz := gphysz\<rparr>,
            env_tf := (env_tf x)\<lparr>tf_rip := gRIP\<rparr>\<rparr>"
    let ?u = "upd_env e ?f t"
    have "e \<in> free_slots s" "e \<notin> set efl'"
      using assms(2) linked_distinct unfolding efl table_wf_def by fastforce+
    then have e: "e < NENV" "e \<notin> set efl'" by (simp_all add: free_slots_def)
    have wf: "table_wf ?u efl'" "alloc_wf ?u (drop 5 fl)"
      using t(1,2) e by (auto intro!: table_wf_status_upd alloc_wf_upd_env)
    have id: "env_id (envs ?u e) = next_env_id (env_id (envs s e)) e"
      using t(3) by (simp add: guest_env_def guest_pages_def)
    have "envid2env (env_id (envs ?u e)) False ?u = Some (0, Some e)"
      using envid2env_live [OF wf(1) e(1)] by simp
    moreover have "0 < sint (env_id (envs ?u e))" unfolding id using next_env_id_pos [OF e(1)] .
    moreover have "sys_env_mkguest hw gphysz gRIP s = Some (sint (env_id (envs ?u e)), ?u)"
      using True run c by (simp add: sys_env_mkguest_def)
    ultimately show ?thesis
      using True False efl t(3) wf by (simp add: guest_env_def)
  qed
qed

text \<open>A processor with VMX and EPT, five free pages, and one running environment.\<close>

definition vmm_kernel :: kernel where
  "vmm_kernel = (env_commit 0 (upd_env 0 (\<lambda>x. x\<lparr>env_id := next_env_id (env_id x) 0, env_status := ENV_RUNNING\<rparr>)
     ((env_init small_kernel)\<lparr>msrs := (\<lambda>_. 0xFFFFFFFFFFFFFFFF),
       pages := (pages small_kernel)(5 := \<lparr>pp_link = Some 6, pp_ref = 0\<rparr>)\<rparr>)))
     \<lparr>cpus := (\<lambda>c. (cpus small_kernel c)\<lparr>cpu_env := Some 0\<rparr>)\<rparr>"

lemma vmm_kernel_facts:
  "alloc_wf vmm_kernel [2, 3, 4, 5, 6]" "table_wf vmm_kernel (1 # [2..<NENV])" "curenv vmm_kernel = Some 0" "vmx_check_ept vmm_kernel"
proof -
  let ?b = "(env_init small_kernel)\<lparr>msrs := (\<lambda>_. 0xFFFFFFFFFFFFFFFF),
       pages := (pages small_kernel)(5 := \<lparr>pp_link = Some 6, pp_ref = 0\<rparr>)\<rparr>"
  let ?u = "env_commit 0 (upd_env 0 (\<lambda>x. x\<lparr>env_id := next_env_id (env_id x) 0, env_status := ENV_RUNNING\<rparr>) ?b)"
  have "[0..<NENV] = 0 # 1 # [2..<NENV]"
    using upt_conv_Cons [of 0 NENV] upt_conv_Cons [of 1 NENV] by (simp add: NENV_def numeral_2_eq_2)
  then have "table_wf ?b (0 # 1 # [2..<NENV])"
    using env_init_wf [of small_kernel] by (simp add: table_wf_def free_slots_def)
  then have "table_wf ?u (1 # [2..<NENV])"
    by (rule table_wf_alloc [where old = "env_id (envs ?b 0)"]) simp_all
  then show "table_wf vmm_kernel (1 # [2..<NENV])"
    by (simp add: vmm_kernel_def table_wf_def free_slots_def)
  show "alloc_wf vmm_kernel [2, 3, 4, 5, 6]"
    by (simp add: vmm_kernel_def env_commit_def env_init_def alloc_wf_def phys_ok_def small_kernel_def bss_state_def kern_mem_max_eq)
  show "curenv vmm_kernel = Some 0" by (simp add: vmm_kernel_def curenv_def thiscpu_def)
  show "vmx_check_ept vmm_kernel"
    by (simp add: vmm_kernel_def env_commit_def vmx_check_ept_def read_msr_def BIT_AT_eq)
qed

theorem sys_env_mkguest_outcomes_witness:
  "\<exists>r s'. sys_env_mkguest quiet_machine 0x1000000 0x7000 vmm_kernel = Some (r, s') \<and> 0 < r \<and>
     envid2env (word_of_int r) False s' = Some (0, Some 1) \<and> alloc_wf s' []"
proof -
  have "vmx_check_support quiet_machine"
    by (simp add: vmx_check_support_def quiet_machine_def BIT_AT_eq bit_ucast_iff)
  then show ?thesis
    using sys_env_mkguest_outcomes [OF vmm_kernel_facts(1-3), of quiet_machine "0x1000000" "0x7000"] vmm_kernel_facts(4)
    by auto
qed

section \<open>The list of guests\<close>

text \<open>The slots that hold a guest, or held one and were not reused since.\<close>

definition guest_slots :: "kernel \<Rightarrow> nat list" where
  "guest_slots s = filter (\<lambda>i. env_type (envs s i) = ENV_TYPE_GUEST) [0..<NENV]"

lemma list_vms_from_eq:
  "list_vms_from is n s =
    map (\<lambda>(k, i). (k, env_id (envs s i))) (enumerate (n + 1) (filter (\<lambda>i. env_type (envs s i) = ENV_TYPE_GUEST) is))"
  by (induction "is" n s rule: list_vms_from.induct) simp_all

lemma sel_resume_from_eq:
  "sel_resume_from is n num s =
    (let gs = filter (\<lambda>i. env_type (envs s i) = ENV_TYPE_GUEST) is; k = nat (num - 1 - int n) in
     if int n < num \<and> k < length gs then (True, upd_env (gs ! k) (env_status_update (\<lambda>_. ENV_RUNNABLE)) s) else (False, s))"
proof (induction "is" n num s rule: sel_resume_from.induct)
  case (2 i "is" n num s)
  have "nat (num - 1 - int n) = Suc (nat (num - 1 - int (n + 1)))" if "int n + 1 < num" using that by simp
  then show ?case using 2 by (auto simp: Let_def not_less)
qed (simp add: Let_def)

lemma vmx_sel_resume_eq:
  "vmx_sel_resume num s =
    (if 1 \<le> num \<and> num \<le> int (length (guest_slots s))
     then (True, upd_env (guest_slots s ! nat (num - 1)) (env_status_update (\<lambda>_. ENV_RUNNABLE)) s) else (False, s))"
  by (auto simp: vmx_sel_resume_def sel_resume_from_eq guest_slots_def Let_def)

text \<open>
  C36. The menu of guests. \<^verbatim>\<open>vmx_list_vms\<close> numbers the guests from 1 in the order of their slots and shows their ids, and
  \<^verbatim>\<open>vmx_sel_resume\<close> takes exactly these numbers: with the \<open>n\<close>-th it makes the environment shown as number \<open>n\<close> runnable and
  changes nothing else, with any other it fails and changes nothing.
\<close>

theorem vm_menu:
  "map fst (vmx_list_vms s) = [1..<Suc (length (vmx_list_vms s))] \<and>
   map snd (vmx_list_vms s) = map (\<lambda>i. env_id (envs s i)) (guest_slots s) \<and>
   (\<forall>num. vmx_sel_resume num s =
     (if 1 \<le> num \<and> num \<le> int (length (vmx_list_vms s))
      then (True, upd_env (guest_slots s ! nat (num - 1)) (env_status_update (\<lambda>_. ENV_RUNNABLE)) s) else (False, s)))"
proof -
  have l: "vmx_list_vms s = map (\<lambda>(k, i). (k, env_id (envs s i))) (enumerate 1 (guest_slots s))"
    by (simp add: vmx_list_vms_def list_vms_from_eq guest_slots_def)
  have len: "length (vmx_list_vms s) = length (guest_slots s)" by (simp add: l)
  have "map fst (vmx_list_vms s) = map fst (enumerate 1 (guest_slots s))"
    "map snd (vmx_list_vms s) = map (\<lambda>i. env_id (envs s i)) (map snd (enumerate 1 (guest_slots s)))"
    unfolding l map_map by (rule map_cong [OF refl]; clarsimp)+
  then show ?thesis by (simp only: map_fst_enumerate map_snd_enumerate vmx_sel_resume_eq len) simp
qed

text \<open>
  A slot whose guest was released stays in the menu: \<^verbatim>\<open>env_free\<close> does not reset the type. Resuming it makes an environment
  runnable that is on the free list, which breaks the invariant of the table.
\<close>

theorem vmx_sel_resume_freed:
  assumes wf: "table_wf s fl" and e: "e \<in> set fl" "env_type (envs s e) = ENV_TYPE_GUEST"
  shows "\<exists>num s'. vmx_sel_resume num s = (True, s') \<and> env_status (envs s' e) = ENV_RUNNABLE \<and> (\<forall>fl'. \<not> table_wf s' fl')"
proof -
  have "e \<in> set (guest_slots s)" using wf e by (auto simp: table_wf_def free_slots_def guest_slots_def)
  then obtain k where k: "k < length (guest_slots s)" "guest_slots s ! k = e" by (auto simp: in_set_conv_nth)
  let ?s' = "upd_env e (env_status_update (\<lambda>_. ENV_RUNNABLE)) s"
  have "vmx_sel_resume (int k + 1) s = (True, ?s')" using k by (simp add: vmx_sel_resume_eq)
  moreover have "\<not> table_wf ?s' fl'" for fl'
  proof
    assume w: "table_wf ?s' fl'"
    have "(\<lambda>x. env_link (envs ?s' x)) = (\<lambda>x. env_link (envs s x))" by (auto simp: upd_env_def)
    then have "fl' = fl" using w wf linked_unique by (auto simp: table_wf_def)
    then have "e \<in> free_slots ?s'" using w e by (simp add: table_wf_def)
    then show False by (simp add: free_slots_def)
  qed
  ultimately show ?thesis by (intro exI [of _ "int k + 1"] exI [of _ ?s']) simp
qed

end
