(* ===== verification/Boot_Mem.thy ===== *)
theory Boot_Mem
  imports Vmexits
begin

text \<open>
  Memory initialisation at boot (\<^verbatim>\<open>kern/pmap.c\<close>, \<^verbatim>\<open>kern/kclock.c\<close>, \<^verbatim>\<open>kern/multiboot.h\<close>): detection of physical
  memory from the multiboot memory map or the CMOS, the boot-time allocator, the construction of the page
  free list and of the kernel part of the address space. The record \<open>boot_env\<close> has what the code finds at
  boot: the CMOS, the memory map of the boot loader, and the symbols that the linker and the assembly
  code define.
\<close>

record boot_env =
  nvram :: "u32 \<Rightarrow> u8"
  mb_mmap :: "memory_map list option"
  end_debug :: u64
  pml4phys :: u64
  bootstack :: u64
  percpu_kstacks :: "nat \<Rightarrow> u64"
  sizeof_Env :: nat

section \<open>Memory detection\<close>

definition MB_TYPE_ACPI_RECLM :: u32 where [const_defs]: "MB_TYPE_ACPI_RECLM = 3"
definition MB_TYPE_ACPI_NVS :: u32 where [const_defs]: "MB_TYPE_ACPI_NVS = 4"
definition MB_TYPE_BAD :: u32 where [const_defs]: "MB_TYPE_BAD = 5"

definition NVRAM_EXTGT16LO :: u32 where [const_defs]: "NVRAM_EXTGT16LO = MC_NVRAM_START + 38"

definition mc146818_read :: "boot_env \<Rightarrow> u32 \<Rightarrow> u32" where
  "mc146818_read b reg = ucast (nvram b reg)"

definition nvram_read :: "boot_env \<Rightarrow> u32 \<Rightarrow> u32" where
  "nvram_read b r = mc146818_read b r OR push_bit 8 (mc146818_read b (r + 1))"

definition APPEND_HILO :: "u32 \<Rightarrow> u32 \<Rightarrow> u64" where
  "APPEND_HILO hi lo = push_bit 32 (ucast hi) + ucast lo"

definition mm_addr :: "memory_map \<Rightarrow> u64" where
  "mm_addr m = APPEND_HILO (base_addr_high m) (base_addr_low m)"

definition mm_len :: "memory_map \<Rightarrow> u64" where
  "mm_len m = APPEND_HILO (length_high m) (length_low m)"

definition restrictive_type :: "u32 \<Rightarrow> u32 \<Rightarrow> u32" where
  "restrictive_type t1 t2 =
     (if t1 = MB_TYPE_BAD \<or> t2 = MB_TYPE_BAD then MB_TYPE_BAD
      else if t1 = MB_TYPE_ACPI_NVS \<or> t2 = MB_TYPE_ACPI_NVS then MB_TYPE_ACPI_NVS
      else if t1 = MB_TYPE_RESERVED \<or> t2 = MB_TYPE_RESERVED then MB_TYPE_RESERVED
      else if t1 = MB_TYPE_ACPI_RECLM \<or> t2 = MB_TYPE_ACPI_RECLM then MB_TYPE_ACPI_RECLM
      else MB_TYPE_USABLE)"

text \<open>
  First loop of \<^verbatim>\<open>multiboot_read\<close>: the entries are inserted one by one into \<^verbatim>\<open>mmap_list\<close>, sorted by address.
  The list of the first \<open>i\<close> pointers is a list of entry numbers. When entry \<open>i\<close> goes before another one,
  the code shifts the tail starting with element \<open>i + 1\<close>, which for the last entry lies outside the array.
\<close>

definition fix_type :: "memory_map \<Rightarrow> memory_map" where
  "fix_type m = (if mm_type m > 5 \<or> mm_type m < 1 then m\<lparr>mm_type := MB_TYPE_RESERVED\<rparr> else m)"

fun insert_pos :: "memory_map list \<Rightarrow> u64 \<Rightarrow> nat list \<Rightarrow> nat" where
  "insert_pos es addr [] = 0"
| "insert_pos es addr (k # ks) = (if mm_addr (es ! k) > addr then 0 else insert_pos es addr ks + 1)"

fun sort_entries :: "nat list \<Rightarrow> memory_map list \<Rightarrow> nat list \<Rightarrow> (memory_map list \<times> nat list) may_panic" where
  "sort_entries [] es ml = Some (es, ml)"
| "sort_entries (i # is) es ml = do {
     let es = es[i := fix_type (es ! i)];
     let j = insert_pos es (mm_addr (es ! i)) ml;
     guard_panic (j < length ml \<longrightarrow> i + 1 < length es);
     sort_entries is es (take j ml @ i # drop j ml) }"

text \<open>Second loop: adjacent regions of one type are merged, overlapping ones get the more restrictive type.\<close>

fun sanitize :: "nat list \<Rightarrow> memory_map list \<Rightarrow> nat option list \<Rightarrow> (memory_map list \<times> nat option list) may_panic" where
  "sanitize [] es ml = Some (es, ml)"
| "sanitize (i # is) es ml = do {
     p \<leftarrow> ml ! (i - 1);
     t \<leftarrow> ml ! i;
     let prev = es ! p;
     let this = es ! t;
     if mm_addr prev + mm_len prev = mm_addr this \<and> mm_type prev = mm_type this then
       sanitize is
         (es[t := this\<lparr>length_low := ucast (mm_len prev + mm_len this),
                       length_high := ucast (drop_bit 32 (mm_len prev + mm_len this)),
                       base_addr_low := base_addr_low prev, base_addr_high := base_addr_high prev\<rparr>])
         (ml[i - 1 := None])
     else if mm_addr prev + mm_len prev > mm_addr this then
       (let ty = restrictive_type (mm_type prev) (mm_type this);
            es = es[p := (es ! p)\<lparr>mm_type := ty\<rparr>]
        in sanitize is (es[t := (es ! t)\<lparr>mm_type := ty\<rparr>]) ml)
     else sanitize is es ml }"

text \<open>Third loop: usable memory below and above 1 MB.\<close>

fun count_memory :: "nat option list \<Rightarrow> memory_map list \<Rightarrow> u64 \<Rightarrow> u64 \<Rightarrow> u64 \<times> u64" where
  "count_memory [] es basemem extmem = (basemem, extmem)"
| "count_memory (None # ml) es basemem extmem = count_memory ml es basemem extmem"
| "count_memory (Some k # ml) es basemem extmem =
     (let m = es ! k in
      if mm_type m = MB_TYPE_USABLE \<or> mm_type m = MB_TYPE_ACPI_RECLM then
        if base_addr_low m < 0x100000 \<and> base_addr_high m = 0
        then count_memory ml es (basemem + mm_len m) extmem
        else count_memory ml es basemem (extmem + mm_len m)
      else count_memory ml es basemem extmem)"

definition multiboot_read :: "memory_map list \<Rightarrow> (u64 \<times> u64) may_panic" where
  "multiboot_read es = do {
     (es, ml) \<leftarrow> sort_entries [0..<length es] es [];
     (es, ml) \<leftarrow> sanitize [1..<length es] es (map Some ml);
     Some (count_memory ml es 0 0) }"

definition sizeof_PageInfo :: u64 where "sizeof_PageInfo = 16"

text \<open>
  The product of the CMOS value and 64 K is computed in \<^verbatim>\<open>int\<close>, 32 bits, and then sign extended.
\<close>

definition i386_detect_memory :: "boot_env \<Rightarrow> kernel \<Rightarrow> kernel may_panic" where
  "i386_detect_memory b s = do {
     (basemem, extmem) \<leftarrow>
       (case mb_mmap b of
          Some es \<Rightarrow> multiboot_read es
        | None \<Rightarrow> Some (scast (nvram_read b NVRAM_BASELO * 1024), scast (nvram_read b NVRAM_EXTLO * 1024)));
     guard_panic (basemem \<noteq> 0);
     let s = s\<lparr>npages_basemem := unat (basemem div PGSIZE)\<rparr>;
     let npages_extmem = extmem div PGSIZE;
     let npages_extmem =
       (if nvram_read b NVRAM_EXTLO = 0xFFFF
        then (16 * 1024 * 1024 + scast (nvram_read b NVRAM_EXTGT16LO * (64 * 1024)) - 1024 * 1024) div PGSIZE
        else npages_extmem);
     let n = (if npages_extmem \<noteq> 0 then EXTPHYSMEM div PGSIZE + npages_extmem
              else of_nat (npages_basemem s));
     let upages_max = (ULIM - UPAGES) div sizeof_PageInfo;
     let kmax = (UVPT - KERNBASE) div PGSIZE;
     let max_npages = (if upages_max < kmax then upages_max else kmax);
     let n = (if n > max_npages then max_npages - 1024 else n);
     Some (s\<lparr>npages := unat n\<rparr>) }"

section \<open>The boot-time allocator\<close>

definition boot_alloc :: "boot_env \<Rightarrow> u32 \<Rightarrow> kernel \<Rightarrow> (u64 \<times> kernel) may_panic" where
  "boot_alloc b n s =
     (let nf = (if nextfree s = 0 then ROUNDUP (end_debug b) PGSIZE else nextfree s) in
      if nf + ucast n < nf \<or> nf + ucast n > of_nat (npages s) * PGSIZE + KERNBASE then None
      else Some (nf, s\<lparr>nextfree := ROUNDUP (nf + ucast n) PGSIZE\<rparr>))"

section \<open>The page free list\<close>

text \<open>Whether \<^verbatim>\<open>page_init\<close> puts page \<open>i\<close> on the free list: its sequence of assignments to \<^verbatim>\<open>inuse\<close>.\<close>

definition page_inuse :: "kernel \<Rightarrow> u64 \<Rightarrow> u64 \<Rightarrow> u64 \<Rightarrow> nat \<Rightarrow> bool" where
  "page_inuse s first_free pt_start pt_end i =
     (let inuse = True;
          inuse = (if i \<noteq> 0 \<and> i < npages_basemem s then False else inuse);
          inuse = (if i = unat (MPENTRY_PADDR div PGSIZE) then True else inuse);
          inuse = (if i \<ge> unat (first_free div PGSIZE) then False else inuse);
          va = KERNBASE + of_nat i * PGSIZE
      in if va \<ge> pt_start \<and> va < pt_end then True else inuse)"

fun page_init_loop :: "(nat \<Rightarrow> bool) \<Rightarrow> nat list \<Rightarrow> nat option \<Rightarrow> kernel \<Rightarrow> kernel" where
  "page_init_loop inuse [] prev s = s"
| "page_init_loop inuse (i # is) prev s =
     (let s = upd_page i (\<lambda>_. \<lparr>pp_link = None, pp_ref = of_bool (inuse i)\<rparr>) s
      in if inuse i then page_init_loop inuse is prev s
         else page_init_loop inuse is (Some i)
           (case prev of
              Some l \<Rightarrow> upd_page l (pp_link_update (\<lambda>_. Some i)) s
            | None \<Rightarrow> s\<lparr>page_free_list := Some i\<rparr>))"

definition page_init :: "boot_env \<Rightarrow> kernel \<Rightarrow> kernel may_panic" where
  "page_init b s = do {
     (nf, s) \<leftarrow> boot_alloc b 0 s;
     if npages s = 0 then Some s
     else do {
       first_free \<leftarrow> PADDR nf;
       pt_start \<leftarrow> KADDR s (pml4phys b);
       pt_end \<leftarrow> KADDR s (pml4phys b + 5 * PGSIZE);
       Some (page_init_loop (page_inuse s first_free pt_start pt_end) [0..<npages s] None s) } }"

section \<open>The kernel address space\<close>

fun mem_init_mp_loop :: "boot_env \<Rightarrow> nat list \<Rightarrow> kernel \<Rightarrow> kernel may_panic" where
  "mem_init_mp_loop b [] s = Some s"
| "mem_init_mp_loop b (i # is) s = do {
     let kstacktop = KSTACKTOP - (KSTKSIZE + KSTKGAP) * of_nat i;
     pa \<leftarrow> PADDR (percpu_kstacks b i);
     s \<leftarrow> boot_map_region (boot_pml4e s) (kstacktop - KSTKSIZE) KSTKSIZE pa (ucast (PTE_P OR PTE_W)) s;
     mem_init_mp_loop b is s }"

definition mem_init_mp :: "boot_env \<Rightarrow> kernel \<Rightarrow> kernel may_panic" where
  "mem_init_mp b s = mem_init_mp_loop b [0..<NCPU] s"

text \<open>
  The arrays \<^verbatim>\<open>pages\<close> and \<^verbatim>\<open>envs\<close> are components of the state of their own; \<^verbatim>\<open>boot_alloc\<close> only fixes where they
  are mapped for the user.
\<close>

definition x64_vm_init :: "boot_env \<Rightarrow> kernel \<Rightarrow> kernel may_panic" where
  "x64_vm_init b s = do {
     s \<leftarrow> i386_detect_memory b s;
     (pml4e, s) \<leftarrow> boot_alloc b (ucast PGSIZE) s;
     s \<leftarrow> memset_zero pml4e (unat PGSIZE) s;
     pa \<leftarrow> PADDR pml4e;
     let s = s\<lparr>boot_pml4e := pml4e, boot_cr3 := pa\<rparr>;
     let n = of_nat (npages s) * sizeof_PageInfo;
     (pages_kva, s) \<leftarrow> boot_alloc b (ucast n) s;
     let s = s\<lparr>pages := (\<lambda>_. \<lparr>pp_link = None, pp_ref = 0\<rparr>)\<rparr>;
     (envs_kva, s) \<leftarrow> boot_alloc b (of_nat (sizeof_Env b * NENV)) s;
     let s = s\<lparr>envs := (\<lambda>_. zero_env)\<rparr>;
     s \<leftarrow> page_init b s;
     pages_pa \<leftarrow> PADDR pages_kva;
     s \<leftarrow> boot_map_region (boot_pml4e s) UPAGES n pages_pa (ucast PTE_U) s;
     envs_pa \<leftarrow> PADDR envs_kva;
     s \<leftarrow> boot_map_region (boot_pml4e s) UENVS (ROUNDUP (of_nat (NENV * sizeof_Env b)) PGSIZE) envs_pa
       (ucast (PTE_U OR PTE_P)) s;
     stack_pa \<leftarrow> PADDR (bootstack b);
     s \<leftarrow> boot_map_region (boot_pml4e s) (KSTACKTOP - KSTKSIZE) KSTKSIZE stack_pa
       (ucast (PTE_W OR PTE_P)) s;
     s \<leftarrow> boot_map_region (boot_pml4e s) KERNBASE (of_nat (npages s) * PGSIZE) 0 (ucast (PTE_W OR PTE_P)) s;
     s \<leftarrow> mem_init_mp b s;
     w \<leftarrow> load64 s (entry pml4e 1);
     pdpe \<leftarrow> KADDR s (PTE_ADDR w);
     w \<leftarrow> load64 s (entry pdpe 0);
     pgdir \<leftarrow> KADDR s (PTE_ADDR w);
     Some (s\<lparr>cr3 := boot_cr3 s\<rparr>) }"

end
