(* ===== verification/Boot_Correct.thy ===== *)
theory Boot_Correct
  imports Boot_Mem "HOL-Library.Multiset"
begin

text \<open>
  Correctness of memory initialisation: the free list that \<^verbatim>\<open>page_init\<close> builds, the sorting of the boot loader's
  memory map, and the memory a guest detects from the map that the hypervisor gives it.
\<close>

section \<open>The page free list\<close>

text \<open>Appending a node to a null-terminated list.\<close>

lemma linked_snoc:
  assumes "linked nxt h xs" "xs \<noteq> []" "x \<notin> set xs" "nxt' x = None" "nxt' (last xs) = Some x"
    "\<And>y. y \<in> set xs \<Longrightarrow> y \<noteq> last xs \<Longrightarrow> nxt' y = nxt y"
  shows "linked nxt' h (xs @ [x])"
  using assms
proof (induction xs arbitrary: h)
  case (Cons a xs)
  show ?case
  proof (cases xs)
    case Nil
    then show ?thesis using Cons.prems by (simp add: linked_Cons)
  next
    case (Cons b ys)
    have l: "linked nxt (nxt a) xs" and d: "a \<notin> set xs" and h: "h = Some a"
      using Cons.prems(1) linked_distinct [OF Cons.prems(1)] by (simp_all add: linked_Cons)
    have "last xs \<in> set xs" using Cons by simp
    then have "a \<noteq> last xs" using d by auto
    then have "nxt' a = nxt a" using Cons.prems(6) [of a] Cons by simp
    moreover have "linked nxt' (nxt a) (xs @ [x])"
      using Cons.prems Cons by (intro Cons.IH [OF l]) auto
    ultimately show ?thesis using h by (simp add: linked_Cons)
  qed
qed simp

definition frees :: "(nat \<Rightarrow> bool) \<Rightarrow> nat \<Rightarrow> nat list" where
  "frees inuse k = filter (\<lambda>i. \<not> inuse i) [0..<k]"

lemma frees_simps [simp]:
  "frees inuse 0 = []" "frees inuse (Suc k) = frees inuse k @ (if inuse k then [] else [k])"
  "set (frees inuse k) = {i. i < k \<and> \<not> inuse i}" "sorted (frees inuse k)" "distinct (frees inuse k)"
  by (auto simp: frees_def sorted_wrt_filter)

text \<open>The loop invariant of \<^verbatim>\<open>page_init\<close> before page \<open>k\<close>; \<open>prev\<close> is the variable \<^verbatim>\<open>last\<close> of the code.\<close>

definition init_inv :: "(nat \<Rightarrow> bool) \<Rightarrow> nat \<Rightarrow> nat option \<Rightarrow> kernel \<Rightarrow> bool" where
  "init_inv inuse k prev s \<longleftrightarrow>
     linked (\<lambda>p. pp_link (pages s p)) (page_free_list s) (frees inuse k) \<and>
     prev = (if frees inuse k = [] then None else Some (last (frees inuse k))) \<and>
     (\<forall>i < k. pp_ref (pages s i) = of_bool (inuse i))"

lemma init_inv_inuse:
  assumes "init_inv inuse k prev s" "inuse k"
  shows "init_inv inuse (Suc k) prev (upd_page k (\<lambda>_. \<lparr>pp_link = None, pp_ref = 1\<rparr>) s)"
proof -
  have "linked (\<lambda>p. pp_link (pages (upd_page k (\<lambda>_. \<lparr>pp_link = None, pp_ref = 1\<rparr>) s) p)) (page_free_list s) (frees inuse k)"
    using assms(1) unfolding init_inv_def upd_page_def by (auto elim!: linked_cong)
  then show ?thesis using assms unfolding init_inv_def upd_page_def by (auto simp: less_Suc_eq)
qed

lemma init_inv_first:
  assumes "init_inv inuse k None s" "\<not> inuse k"
  shows "init_inv inuse (Suc k) (Some k)
    ((upd_page k (\<lambda>_. \<lparr>pp_link = None, pp_ref = 0\<rparr>) s)\<lparr>page_free_list := Some k\<rparr>)"
proof -
  have "frees inuse k = []" using assms(1) by (auto simp: init_inv_def split: if_splits)
  then show ?thesis using assms by (auto simp: init_inv_def upd_page_def linked_Cons less_Suc_eq)
qed

lemma init_inv_next:
  assumes inv: "init_inv inuse k (Some l) s" and k: "\<not> inuse k"
  shows "init_inv inuse (Suc k) (Some k)
    (upd_page l (pp_link_update (\<lambda>_. Some k)) (upd_page k (\<lambda>_. \<lparr>pp_link = None, pp_ref = 0\<rparr>) s))"
    (is "init_inv _ _ _ ?t")
proof -
  have f: "frees inuse k \<noteq> []" and l: "l = last (frees inuse k)"
    using inv by (auto simp: init_inv_def split: if_splits)
  have "l \<in> set (frees inuse k)" unfolding l by (rule last_in_set [OF f])
  then have lk: "l < k" "\<not> inuse l" by simp_all
  have "linked (\<lambda>p. pp_link (pages ?t p)) (page_free_list s) (frees inuse k @ [k])"
    by (rule linked_snoc [where nxt = "\<lambda>p. pp_link (pages s p)"])
      (use inv f lk in \<open>auto simp: init_inv_def upd_page_def simp flip: l\<close>)
  then show ?thesis
    using inv k lk unfolding init_inv_def by (auto simp: upd_page_def less_Suc_eq)
qed

lemma page_init_loop_inv:
  "init_inv inuse k prev s \<Longrightarrow> k \<le> n \<Longrightarrow>
    (\<exists>prev'. init_inv inuse n prev' (page_init_loop inuse [k..<n] prev s)) \<and>
    npages (page_init_loop inuse [k..<n] prev s) = npages s"
proof (induction "n - k" arbitrary: k prev s)
  case (Suc d)
  then have k: "[k..<n] = k # [Suc k..<n]" "d = n - Suc k" "Suc k \<le> n" by (auto simp: upt_conv_Cons)
  note IH = Suc.hyps(1) [OF k(2) _ k(3)]
  show ?case
  proof (cases "inuse k")
    case True
    then show ?thesis
      using IH [OF init_inv_inuse [OF Suc.prems(1)]] k(1) by (simp add: Let_def upd_page_def)
  next
    case False
    show ?thesis
    proof (cases prev)
      case None
      then show ?thesis
        using IH [OF init_inv_first [OF Suc.prems(1) [unfolded None]]] False k(1)
        by (simp add: Let_def upd_page_def)
    next
      case (Some l)
      then show ?thesis
        using IH [OF init_inv_next [OF Suc.prems(1) [unfolded Some]]] False k(1)
        by (simp add: Let_def upd_page_def)
    qed
  qed
qed auto

text \<open>
  C34. The initial free list. \<^verbatim>\<open>page_init\<close> returns, and the free list is well formed and in ascending order. A page
  is on it exactly if it lies outside the five boot page tables and either lies at or above the boot allocator's
  next free address, or is a page of base memory other than page 0 and the page of the code that starts the
  other CPUs. Every other page has one reference. In particular no page of the I/O hole or of the kernel is free when
  base memory ends at or below the hole.
\<close>

theorem page_init_free_list:
  assumes "boot_alloc b 0 s = Some (nf, s1)" "KERNBASE \<le> nf" "phys_ok s" "0 < npages s" "page_free_list s = None"
    "KADDR s1 (pml4phys b) = Some pt0" "KADDR s1 (pml4phys b + 5 * PGSIZE) = Some pt1"
  shows "\<exists>s' fl. page_init b s = Some s' \<and> alloc_wf s' fl \<and> sorted fl \<and>
    set fl = {i. i < npages s \<and> \<not> (pt0 \<le> KERNBASE + of_nat i * PGSIZE \<and> KERNBASE + of_nat i * PGSIZE < pt1) \<and>
      (unat ((nf - KERNBASE) div PGSIZE) \<le> i \<or> 0 < i \<and> i < npages_basemem s \<and> i \<noteq> 7)} \<and>
    (\<forall>i < npages s. i \<notin> set fl \<longrightarrow> pp_ref (pages s' i) = 1) \<and>
    (npages_basemem s \<le> 0xA0 \<longrightarrow> (\<forall>i. 0xA0 \<le> i \<and> i < unat ((nf - KERNBASE) div PGSIZE) \<longrightarrow> i \<notin> set fl))"
proof -
  have s1: "npages s1 = npages s" "page_free_list s1 = None" "npages_basemem s1 = npages_basemem s"
    using assms(1,5) by (auto simp: boot_alloc_def Let_def split: if_splits)
  let ?inuse = "page_inuse s1 (nf - KERNBASE) pt0 pt1"
  let ?s = "page_init_loop ?inuse [0..<npages s1] None s1" and ?fl = "frees ?inuse (npages s)"
  have "init_inv ?inuse 0 None s1" using s1 by (simp add: init_inv_def)
  from page_init_loop_inv [OF this] obtain prev where
    inv: "init_inv ?inuse (npages s) prev ?s" and n: "npages ?s = npages s" using s1 by force
  have run: "page_init b s = Some ?s"
    using assms s1 by (simp add: page_init_def PADDR_def not_less)
  have "alloc_wf ?s ?fl"
    using inv n assms(3) by (auto simp: alloc_wf_def init_inv_def phys_ok_def)
  moreover have "i \<in> set ?fl \<longleftrightarrow> i < npages s \<and>
      \<not> (pt0 \<le> KERNBASE + of_nat i * PGSIZE \<and> KERNBASE + of_nat i * PGSIZE < pt1) \<and>
      (unat ((nf - KERNBASE) div PGSIZE) \<le> i \<or> 0 < i \<and> i < npages_basemem s \<and> i \<noteq> 7)" for i
    by (auto simp: page_inuse_def Let_def s1 MPENTRY_PADDR_def PGSIZE_def)
  moreover have "\<forall>i < npages s. i \<notin> set ?fl \<longrightarrow> pp_ref (pages ?s i) = 1"
    using inv by (simp add: init_inv_def)
  ultimately show ?thesis
    using run by (intro exI [of _ ?s] exI [of _ ?fl] conjI) (auto simp del: frees_simps(3))
qed

definition boot_small :: boot_env where
  "boot_small = \<lparr>nvram = (\<lambda>_. 0), mb_mmap = None, end_debug = KERNBASE + 0x180000, pml4phys = 0x110000, bootstack = 0,
     percpu_kstacks = (\<lambda>_. 0), sizeof_Env = 0\<rparr>"

definition early_kernel :: kernel where
  "early_kernel = bss_state\<lparr>npages := 1024, npages_basemem := 0x9F, nextfree := KERNBASE + 0x180000\<rparr>"

theorem page_init_free_list_witness:
  "\<exists>s' fl. page_init boot_small early_kernel = Some s' \<and> alloc_wf s' fl \<and> 1 \<in> set fl \<and> 7 \<notin> set fl \<and>
     0x9F \<notin> set fl \<and> 0x17F \<notin> set fl \<and> 0x180 \<in> set fl"
proof -
  let ?s1 = "early_kernel\<lparr>nextfree := ROUNDUP (KERNBASE + 0x180000 + 0) PGSIZE\<rparr>"
  have 1: "boot_alloc boot_small 0 early_kernel = Some (KERNBASE + 0x180000, ?s1)"
    by (simp add: boot_alloc_def early_kernel_def Let_def const_defs bss_state_def)
  have 2: "KADDR ?s1 (pml4phys boot_small) = Some (KERNBASE + 0x110000)"
    "KADDR ?s1 (pml4phys boot_small + 5 * PGSIZE) = Some (KERNBASE + 0x115000)"
    by (simp_all add: KADDR_def boot_small_def early_kernel_def PPN_def const_defs)
  have 3: "KERNBASE \<le> KERNBASE + 0x180000" "phys_ok early_kernel" "0 < npages early_kernel" "page_free_list early_kernel = None"
    by (simp_all add: early_kernel_def phys_ok_def kern_mem_max_eq bss_state_def const_defs)
  obtain s' fl where run: "page_init boot_small early_kernel = Some s'" "alloc_wf s' fl"
    and fl: "set fl = {i. i < npages early_kernel \<and> \<not> (KERNBASE + 0x110000 \<le> KERNBASE + of_nat i * PGSIZE \<and>
        KERNBASE + of_nat i * PGSIZE < KERNBASE + 0x115000) \<and>
      (unat ((KERNBASE + 0x180000 - KERNBASE) div PGSIZE) \<le> i \<or> 0 < i \<and> i < npages_basemem early_kernel \<and> i \<noteq> 7)}"
    using page_init_free_list [OF 1 3 2] by blast
  have "1 \<in> set fl" "7 \<notin> set fl" "0x9F \<notin> set fl" "0x17F \<notin> set fl" "0x180 \<in> set fl"
    unfolding fl by (simp_all add: early_kernel_def const_defs)
  then show ?thesis using run by blast
qed

section \<open>Sorting the memory map\<close>

lemma fix_type_addr [simp]: "mm_addr (fix_type m) = mm_addr m"
  by (simp add: fix_type_def mm_addr_def)

lemma insert_pos_le: "insert_pos es a ml \<le> length ml"
  by (induction ml) simp_all

lemma insert_pos_end: "insert_pos es a ml < length ml \<longleftrightarrow> (\<exists>k \<in> set ml. a < mm_addr (es ! k))"
  by (induction ml) auto

lemma insert_pos_sorted:
  assumes "sorted (map (\<lambda>k. mm_addr (es ! k)) ml)"
  shows "sorted (map (\<lambda>k. mm_addr (es ! k))
    (take (insert_pos es (mm_addr (es ! i)) ml) ml @ i # drop (insert_pos es (mm_addr (es ! i)) ml) ml))"
  using assms
proof (induction ml)
  case (Cons k ml)
  let ?a = "mm_addr (es ! i)"
  show ?case
  proof (cases "mm_addr (es ! k) > ?a")
    case True
    then show ?thesis using Cons.prems by auto
  next
    case False
    then show ?thesis using Cons by (auto simp: not_less dest: in_set_takeD in_set_dropD)
  qed
qed simp

text \<open>The entries before number \<open>i\<close> have their type corrected.\<close>

definition fixed_upto :: "nat \<Rightarrow> memory_map list \<Rightarrow> memory_map list" where
  "fixed_upto i es = map fix_type (take i es) @ drop i es"

lemma fixed_upto_facts:
  assumes "i < length es"
  shows "length (fixed_upto i es) = length es" "(fixed_upto i es) ! i = es ! i"
    "(fixed_upto i es)[i := fix_type (es ! i)] = fixed_upto (Suc i) es"
  using assms by (simp_all add: fixed_upto_def nth_append take_Suc_conv_app_nth list_update_append Cons_nth_drop_Suc [symmetric])

lemma fixed_upto_addr: "k < length es \<Longrightarrow> mm_addr (fixed_upto i es ! k) = mm_addr (es ! k)"
  by (auto simp: fixed_upto_def nth_append)

lemma insert_pos_cong:
  "(\<And>k. k \<in> set ml \<Longrightarrow> mm_addr (es ! k) = mm_addr (es' ! k)) \<Longrightarrow> insert_pos es a ml = insert_pos es' a ml"
  by (induction ml) auto

text \<open>The last entry of the map belongs before an earlier one.\<close>

definition last_misplaced :: "memory_map list \<Rightarrow> bool" where
  "last_misplaced es \<longleftrightarrow> (\<exists>k < length es - 1. mm_addr (es ! (length es - 1)) < mm_addr (es ! k))"

lemma sort_entries_correct:
  assumes "i \<le> length es" "mset ml = mset [0..<i]" "sorted (map (\<lambda>k. mm_addr (es ! k)) ml)"
  shows "case sort_entries [i..<length es] (fixed_upto i es) ml of
      None \<Rightarrow> last_misplaced es
    | Some (es', ml') \<Rightarrow> es' = map fix_type es \<and> mset ml' = mset [0..<length es] \<and>
        sorted (map (\<lambda>k. mm_addr (es ! k)) ml') \<and> (i < length es \<longrightarrow> \<not> last_misplaced es)"
  using assms
proof (induction "length es - i" arbitrary: i ml)
  case 0
  then show ?case by (simp add: fixed_upto_def)
next
  case (Suc d)
  then have i: "i < length es" "[i..<length es] = i # [Suc i..<length es]" "d = length es - Suc i"
    by (auto simp: upt_conv_Cons)
  have set_ml: "set ml = {0..<i}" using Suc.prems(2) by (metis set_mset_mset set_upt)
  let ?es = "fixed_upto (Suc i) es" and ?j = "insert_pos es (mm_addr (es ! i)) ml"
  have j: "insert_pos ?es (mm_addr (fix_type (es ! i))) ml = ?j"
    using set_ml i by (simp, intro insert_pos_cong fixed_upto_addr) auto
  let ?ml = "take ?j ml @ i # drop ?j ml"
  have m: "mset ?ml = mset [0..<Suc i]"
  proof -
    have "mset (take ?j ml) + mset (drop ?j ml) = mset ml" by (metis append_take_drop_id mset_append)
    then show ?thesis using Suc.prems(2) by simp
  qed
  have nth: "?es ! i = fix_type (es ! i)" using i by (simp add: fixed_upto_def nth_append)
  have step: "sort_entries [i..<length es] (fixed_upto i es) ml =
      (if ?j < length ml \<and> \<not> i + 1 < length es then None else sort_entries [Suc i..<length es] ?es ?ml)"
    using fixed_upto_facts [OF i(1)] fixed_upto_facts(1) [of "Suc i" es] i(1) j nth
    by (simp add: i(2) Let_def guard_panic_def) (auto simp: fixed_upto_def)
  have lst: "last_misplaced es \<longleftrightarrow> ?j < length ml" if "\<not> i + 1 < length es"
  proof -
    have "i = length es - 1" using that i by simp
    then show ?thesis using set_ml by (auto simp: last_misplaced_def insert_pos_end)
  qed
  show ?case
  proof (cases "?j < length ml \<and> \<not> i + 1 < length es")
    case True
    then show ?thesis using step lst by simp
  next
    case False
    have IH: "case sort_entries [Suc i..<length es] ?es ?ml of
        None \<Rightarrow> last_misplaced es
      | Some (es', ml') \<Rightarrow> es' = map fix_type es \<and> mset ml' = mset [0..<length es] \<and>
          sorted (map (\<lambda>k. mm_addr (es ! k)) ml') \<and> (Suc i < length es \<longrightarrow> \<not> last_misplaced es)"
      using i by (intro Suc.hyps(1) [OF i(3)] m insert_pos_sorted Suc.prems(3)) simp
    then show ?thesis using False step lst by (auto split: option.splits)
  qed
qed


section \<open>The memory of a guest\<close>

lemma mm_boot_map:
  "map mm_addr (boot_map g) = [0, 0xA0000, 0x100000]"
  "mm_len (boot_map g ! 0) = 0xA0000" "mm_len (boot_map g ! 1) = 0x60000"
  by (simp_all add: boot_map_def mm_addr_def mm_len_def APPEND_HILO_def const_defs)

lemma append_split: "push_bit 32 (ucast (ucast (signed_drop_bit 32 x AND 0xFFFFFFFF) :: u32)) + ucast (ucast (x AND 0xFFFFFFFF) :: u32) = (x :: u64)"
proof -
  have m: "(0xFFFFFFFF :: u64) = mask 32" by (simp add: mask_eq_exp_minus_1)
  have "push_bit 32 (ucast (ucast (signed_drop_bit 32 x AND 0xFFFFFFFF) :: u32)) = push_bit 32 (drop_bit 32 x)"
    unfolding m by (rule bit_word_eqI) (auto simp: bit_simps)
  moreover have "ucast (ucast (x AND 0xFFFFFFFF) :: u32) = take_bit 32 x"
    unfolding m by (rule bit_word_eqI) (auto simp: bit_simps)
  ultimately show ?thesis using bits_ident [of 32 x] by simp
qed

lemma mm_boot_map_high: "mm_len (boot_map g ! 2) = phys_sz g - 0x100000"
  using append_split [of "phys_sz g - 0x100000"]
  by (simp add: boot_map_def mm_len_def APPEND_HILO_def const_defs)

lemma multiboot_read_three:
  assumes "mm_addr m0 \<le> mm_addr m1" "mm_addr m1 \<le> mm_addr m2" "mm_addr m0 \<le> mm_addr m2"
    "mm_addr m0 + mm_len m0 \<le> mm_addr m1" "mm_addr m1 + mm_len m1 \<le> mm_addr m2"
    "mm_type m0 = MB_TYPE_USABLE" "mm_type m1 = MB_TYPE_RESERVED" "mm_type m2 = MB_TYPE_USABLE"
    "base_addr_low m0 < 0x100000" "base_addr_high m0 = 0" "\<not> base_addr_low m2 < 0x100000"
  shows "multiboot_read [m0, m1, m2] = Some (mm_len m0, mm_len m2)"
proof -
  have u: "[0..<3] = [0, 1, 2 :: nat]" "[1..<3] = [1, 2 :: nat]" by (simp_all add: upt_conv_Cons numeral_eq_Suc)
  have f: "fix_type m0 = m0" "fix_type m1 = m1" "fix_type m2 = m2"
    using assms by (simp_all add: fix_type_def const_defs)
  have "sort_entries [0, 1, 2] [m0, m1, m2] [] = Some ([m0, m1, m2], [0, 1, 2])"
    using assms(1-3) by (simp add: Let_def not_less f)
  moreover have "sanitize [1, 2] [m0, m1, m2] [Some 0, Some 1, Some 2] = Some ([m0, m1, m2], [Some 0, Some 1, Some 2])"
    using assms(4-8) by (simp add: Let_def not_less const_defs)
  moreover have "count_memory [Some 0, Some 1, Some 2] [m0, m1, m2] 0 0 = (mm_len m0, mm_len m2)"
    using assms(6-11) by (simp add: Let_def const_defs)
  moreover have "length [m0, m1, m2] = 3" by simp
  ultimately show ?thesis
    unfolding multiboot_read_def by (simp only: u Option.bind_lunit prod.case list.map)
qed

lemma multiboot_read_boot_map: "multiboot_read (boot_map g) = Some (0xA0000, phys_sz g - 0x100000)"
proof -
  obtain m0 m1 m2 where b: "boot_map g = [m0, m1, m2]" unfolding boot_map_def by blast
  have "base_addr_low m0 < 0x100000" "base_addr_high m0 = 0" "\<not> base_addr_low m2 < 0x100000"
    "mm_type m0 = MB_TYPE_USABLE" "mm_type m1 = MB_TYPE_RESERVED" "mm_type m2 = MB_TYPE_USABLE"
    using b by (auto simp: boot_map_def const_defs)
  then show ?thesis
    using multiboot_read_three [of m0 m1 m2] mm_boot_map [of g] mm_boot_map_high [of g] unfolding b by simp
qed

text \<open>The CMOS of a guest holds the bytes that \<^verbatim>\<open>handle_ioinstr\<close> returns for the registers it knows.\<close>

definition emulated_nvram :: "VmxGuestInfo \<Rightarrow> boot_env \<Rightarrow> bool" where
  "emulated_nvram g b \<longleftrightarrow> (\<forall>r v. nvram_value r g = Some v \<longrightarrow> nvram b r = ucast v)"

lemma emulated_extlo:
  assumes "emulated_nvram g b"
  shows "nvram_read b NVRAM_EXTLO = take_bit 16 (word_of_int (ext_kb g))"
proof -
  have lo: "nvram b NVRAM_EXTLO = ucast (word_of_int (ext_kb g) AND 0xFF :: u64)"
    and hi: "nvram b (NVRAM_EXTLO + 1) = ucast (word_of_int (drop_bit 8 (ext_kb g)) AND 0xFF :: u64)"
    using assms by (simp_all add: emulated_nvram_def nvram_value_def const_defs)
  have m: "(0xFF :: u64) = mask 8" by (simp add: mask_eq_exp_minus_1)
  show ?thesis
    unfolding nvram_read_def mc146818_read_def lo hi m
    by (rule bit_word_eqI) (auto simp: bit_simps)
qed

lemma ext_kb_eq:
  assumes "phys_sz g < 0x40000000"
  shows "ext_kb g = uint (phys_sz g) div 1024 - 1024"
proof -
  have u: "uint (phys_sz g) < 0x40000000" using assms by (simp add: word_less_def)
  moreover have "0 \<le> uint (phys_sz g)" by simp
  ultimately have "- 9223372036854775808 \<le> uint (phys_sz g)" "uint (phys_sz g) < 9223372036854775808" by linarith+
  then have "sint (phys_sz g) = uint (phys_sz g)"
    by (simp only: sint_uint) (simp add: signed_take_bit_int_eq_self)
  then show ?thesis by (simp add: ext_kb_def signed_divide_int_def sgn_if)
qed

lemma emulated_extlo_small:
  assumes "emulated_nvram g b" "phys_sz g < 0x40000000" "0x100000 \<le> phys_sz g" "(unat (phys_sz g) div 1024 - 1024) mod 65536 \<noteq> 65535"
  shows "nvram_read b NVRAM_EXTLO \<noteq> 0xFFFF"
proof
  let ?k = "unat (phys_sz g) div 1024 - 1024"
  have "0x100000 \<le> unat (phys_sz g)" using assms(3) by (simp add: word_le_nat_alt)
  then have k: "ext_kb g = int ?k" by (simp add: ext_kb_eq [OF assms(2)] zdiv_int)
  assume "nvram_read b NVRAM_EXTLO = 0xFFFF"
  then have "take_bit 16 (word_of_int (ext_kb g) :: u32) = 0xFFFF" using emulated_extlo [OF assms(1)] by simp
  then have "uint (take_bit 16 (word_of_int (ext_kb g) :: u32)) = 0xFFFF" by simp
  then have "take_bit 16 (ext_kb g) = 65535" by (simp add: unsigned_take_bit_eq unsigned_of_int min_def)
  then have "int (?k mod 65536) = 65535" unfolding k by (simp add: take_bit_eq_mod zmod_int)
  then show False using assms(4) by linarith
qed


text \<open>A guest with 16 MB, the size that \<^verbatim>\<open>GUEST_MEM_SZ\<close> gives.\<close>

definition guest_16M :: VmxGuestInfo where
  "guest_16M = zero_vmxinfo\<lparr>phys_sz := 0x1000000\<rparr>"

definition guest_boot :: boot_env where
  "guest_boot = boot_small\<lparr>mb_mmap := Some (boot_map guest_16M),
     nvram := (\<lambda>r. case nvram_value r guest_16M of None \<Rightarrow> 0 | Some v \<Rightarrow> ucast v)\<rparr>"


end
