(* ===== verification/Vmx_Run.thy ===== *)
theory Vmx_Run
  imports Vmx_Correct
begin

text \<open>
  The VM entry path of \<^verbatim>\<open>vmm/vmx.c\<close>: I/O bitmaps, MSR areas and \<^verbatim>\<open>vmx_vmrun\<close>, for the first run of a
  guest and for later ones.
\<close>

section \<open>I/O bitmaps and MSR areas\<close>

definition rtc_bits :: u64 where
  "rtc_bits = push_bit 0x30 1 OR push_bit 0x31 1"

lemma bitmap_setup_exec:
  assumes "phys_ok s" "a < npages s" "io_bmap_a vi = page2pa a + KERNBASE"
  shows "bitmap_setup vi s =
    Some (s\<lparr>mem := (mem s)(slot a 1 := mem s (slot a 1) OR rtc_bits)\<rparr>)"
proof -
  have "phys_ok (s\<lparr>mem := m\<rparr>)" for m using assms(1) by (simp add: phys_ok_def)
  then show ?thesis
    using assms
    by (simp add: bitmap_setup_def set_bit64_def IO_RTC_def entry_page load64_slot store64_slot
        rtc_bits_def or.assoc)
qed

text \<open>
  C37. The I/O bitmaps. \<^verbatim>\<open>bitmap_setup\<close> sets, in bitmap A, the bits of the ports \<^verbatim>\<open>0x70\<close> and \<^verbatim>\<open>0x71\<close> of the
  real-time clock and no other bit of any port below \<^verbatim>\<open>0x8000\<close>, and changes no other memory.
\<close>

theorem bitmap_setup_ports_set:
  assumes "phys_ok s" "a < npages s" "io_bmap_a vi = page2pa a + KERNBASE"
  shows "\<exists>s'. bitmap_setup vi s = Some s' \<and>
    (\<forall>port < 0x8000. bit (mem s' (slot a (of_nat (port div 64)))) (port mod 64) \<longleftrightarrow>
       port \<in> {0x70, 0x71} \<or> bit (mem s (slot a (of_nat (port div 64)))) (port mod 64)) \<and>
    (\<forall>x. x \<noteq> slot a 1 \<longrightarrow> mem s' x = mem s x)"
proof -
  have bits: "bit rtc_bits n \<longleftrightarrow> n = 0x30 \<or> n = 0x31" for n
    unfolding rtc_bits_def bit_or_iff bit_push_bit_iff by (auto simp: bit_1_iff)
  have idx: "slot a (of_nat (port div 64)) = slot a 1 \<longleftrightarrow> port div 64 = 1" if "port < 0x8000" for port
  proof -
    have "a < 2 ^ 51" using phys_ok_frame [OF assms(1,2)] by simp
    moreover have lt: "port div 64 < 512" using that by simp
    then have "(of_nat (port div 64) :: u64) < 512" by (simp add: word_less_nat_alt unat_of_nat)
    ultimately have "slot a (of_nat (port div 64)) = slot a 1 \<longleftrightarrow> (of_nat (port div 64) :: u64) = 1"
      by (simp add: slot_inj)
    also have "\<dots> \<longleftrightarrow> port div 64 = 1"
      using lt of_nat_inverse by (auto simp: word_unat_eq_iff unat_of_nat)
    finally show ?thesis .
  qed
  have split: "port \<in> {0x70, 0x71} \<longleftrightarrow> port div 64 = 1 \<and> (port mod 64 = 0x30 \<or> port mod 64 = 0x31)" for port :: nat
  proof
    assume r: "port div 64 = 1 \<and> (port mod 64 = 0x30 \<or> port mod 64 = 0x31)"
    have "port = 64 * (port div 64) + port mod 64" by simp
    also have "\<dots> = 64 + port mod 64" using r by simp
    finally show "port \<in> {0x70, 0x71}" using r by auto
  qed auto
  show ?thesis
    unfolding bitmap_setup_exec [OF assms] split using idx by (auto simp: bit_or_iff bits)
qed

lemma slot_area: "slot p 0 + KERNBASE + PGSIZE div 2 = slot p 256 + KERNBASE"
  by (simp add: slot_def const_defs)

definition msr_written :: "nat \<Rightarrow> kernel \<Rightarrow> u64 \<Rightarrow> u64" where
  "msr_written m s = (mem s)
     (slot m 0 := put_half False EFER_MSR (mem s (slot m 0)),
      slot m 1 := read_msr EFER_MSR s,
      slot m 256 := put_half False EFER_MSR (mem s (slot m 256)))"

lemma msr_setup_from_exec:
  assumes ok: "phys_ok s" "m < npages s"
    and vi: "msr_host_area vi = slot m 0 + KERNBASE" "msr_guest_area vi = slot m 256 + KERNBASE"
  shows "msr_setup_from 0 [EFER_MSR] vi s = Some (s\<lparr>mem := msr_written m s\<rparr>)"
proof -
  have m: "m < 2 ^ 51" using phys_ok_frame [OF ok] by simp
  have sl: "slot m 256 \<noteq> slot m 0" "slot m 256 \<noteq> slot m 1" "slot m 0 \<noteq> slot m 1"
    using m by (simp_all add: slot_inj)
  have e1: "slot m 0 + KERNBASE + 8 = slot m 1 + KERNBASE" by (simp add: slot_def)
  let ?m1 = "(mem s)(slot m 0 := put_half False EFER_MSR (mem s (slot m 0)))"
  let ?m2 = "?m1(slot m 1 := read_msr EFER_MSR s)"
  have ph: "phys_ok (s\<lparr>mem := x\<rparr>)" "m < npages (s\<lparr>mem := x\<rparr>)" for x
    using ok by (simp_all add: phys_ok_def)
  have "store32 (slot m 0 + KERNBASE) EFER_MSR s = Some (s\<lparr>mem := ?m1\<rparr>)"
    "store64 (slot m 1 + KERNBASE) (read_msr EFER_MSR s) (s\<lparr>mem := ?m1\<rparr>) = Some (s\<lparr>mem := ?m2\<rparr>)"
    "store32 (slot m 256 + KERNBASE) EFER_MSR (s\<lparr>mem := ?m2\<rparr>) =
       Some (s\<lparr>mem := msr_written m s\<rparr>)"
    using store32_slot [OF ok, of 0] store64_slot [OF ph [of ?m1], of 1]
      store32_slot [OF ph [of ?m2], of 256] sl
    by (simp_all add: msr_written_def)
  then show ?thesis by (simp add: msr_entry_def vi e1 read_msr_def)
qed

lemma msr_setup_exec:
  assumes "phys_ok s" "m < npages s"
    and "msr_host_area (env_vmxinfo (envs s e)) = page2pa m + KERNBASE"
    and "msr_guest_area (env_vmxinfo (envs s e)) = page2pa m + KERNBASE + PGSIZE div 2"
  shows "msr_setup e s = Some ((upd_env e
    (\<lambda>x. x\<lparr>env_vmxinfo := (env_vmxinfo x)\<lparr>msr_count := 1\<rparr>\<rparr>) s)\<lparr>mem := msr_written m s\<rparr>)"
proof -
  let ?t = "upd_env e (\<lambda>x. x\<lparr>env_vmxinfo := (env_vmxinfo x)\<lparr>msr_count := 1\<rparr>\<rparr>) s"
  have t: "phys_ok ?t" "m < npages ?t" "msr_written m ?t = msr_written m s"
    using assms(1,2) by (simp_all add: phys_ok_def upd_env_def msr_written_def read_msr_def)
  have "msr_host_area (env_vmxinfo (envs ?t e)) = slot m 0 + KERNBASE"
    "msr_guest_area (env_vmxinfo (envs ?t e)) = slot m 256 + KERNBASE"
    using assms(3,4) by (simp_all add: upd_env_def page_slot slot_area)
  from msr_setup_from_exec [OF t(1,2) this] t(3) show ?thesis
    by (simp add: msr_setup_def MAX_MSR_COUNT_def Let_def)
qed

section \<open>Running a guest\<close>

text \<open>The areas of guest \<open>e\<close> lie in the pages \<open>v\<close> (VMCS), \<open>m\<close> (MSR areas), \<open>a\<close> and \<open>b\<close> (I/O bitmaps).\<close>

definition guest_areas :: "nat \<Rightarrow> nat \<Rightarrow> nat \<Rightarrow> nat \<Rightarrow> nat \<Rightarrow> kernel \<Rightarrow> bool" where
  "guest_areas e v m a b s \<longleftrightarrow> (let vi = env_vmxinfo (envs s e) in
     phys_ok s \<and> v < npages s \<and> m < npages s \<and> a < npages s \<and> b < npages s \<and>
     vmcs vi = page2pa v + KERNBASE \<and> msr_host_area vi = page2pa m + KERNBASE \<and>
     msr_guest_area vi = page2pa m + KERNBASE + PGSIZE div 2 \<and>
     io_bmap_a vi = page2pa a + KERNBASE \<and> io_bmap_b vi = page2pa b + KERNBASE)"

lemma kernbase_le_slot: "phys_ok s \<Longrightarrow> p < npages s \<Longrightarrow> i < 512 \<Longrightarrow> KERNBASE \<le> slot p i + KERNBASE"
  using kva_mapped_slot [of s p i] by (simp add: kva_mapped_def)

lemma guest_areas_ok:
  assumes "guest_areas e v m a b s"
  shows "areas_ok (env_vmxinfo (envs s e))" "PADDR (vmcs (env_vmxinfo (envs s e))) = Some (page2pa v)"
proof -
  have in_range: "KERNBASE \<le> slot p i + KERNBASE" if "p < npages s" "i < 512" for p i
    using assms that by (intro kernbase_le_slot [of s]) (simp_all add: guest_areas_def Let_def)
  show "areas_ok (env_vmxinfo (envs s e))"
    using assms in_range by (simp add: guest_areas_def areas_ok_def Let_def page_slot slot_area)
  have "PADDR (slot v 0 + KERNBASE) = Some (slot v 0)"
    using assms PADDR_ok [OF in_range [of v 0]] by (simp add: guest_areas_def Let_def)
  then show "PADDR (vmcs (env_vmxinfo (envs s e))) = Some (page2pa v)"
    using assms by (simp add: guest_areas_def Let_def slot_def)
qed

lemma vmcs_readl_frame [simp]:
  "vmcs_readl f (s\<lparr>mem := x\<rparr>) = vmcs_readl f s" "vmcs_readl f (upd_env e g s) = vmcs_readl f s"
  "vmcs_readl f (s\<lparr>kernel_lock := l\<rparr>) = vmcs_readl f s" "vmcs_readl f (s\<lparr>envs := y\<rparr>) = vmcs_readl f s"
  by (simp_all add: vmcs_readl_def upd_env_def)

lemma envs_vmcs_write64 [simp]: "envs (vmcs_write64 f v s) = envs s"
  by (simp add: vmcs_write64_def)

lemma vmcs_writes_frame [simp]:
  "msrs (vmcs_writes ws s) = msrs s" "envs (vmcs_writes ws s) = envs s"
  "npages (vmcs_writes ws s) = npages s" "mem (vmcs_writes ws s) = mem s"
  "pages (vmcs_writes ws s) = pages s" "page_free_list (vmcs_writes ws s) = page_free_list s"
  "cpus (vmcs_writes ws s) = cpus s" "this_cpu (vmcs_writes ws s) = this_cpu s"
  "kernel_lock (vmcs_writes ws s) = kernel_lock s" "curenv (vmcs_writes ws s) = curenv s"
  by (induction ws s rule: vmcs_writes.induct) auto

lemma vmcs_init_frame [simp]:
  "envs (vmcs_host_init hw s) = envs s" "npages (vmcs_host_init hw s) = npages s"
  "mem (vmcs_host_init hw s) = mem s" "cpus (vmcs_host_init hw s) = cpus s"
  "this_cpu (vmcs_host_init hw s) = this_cpu s" "kernel_lock (vmcs_host_init hw s) = kernel_lock s"
  "curenv (vmcs_host_init hw s) = curenv s" "msrs (vmcs_host_init hw s) = msrs s"
  "vmcs_cur (vmcs_host_init hw s) = vmcs_cur s"
  "envs (vmcs_guest_init s) = envs s" "npages (vmcs_guest_init s) = npages s"
  "mem (vmcs_guest_init s) = mem s" "cpus (vmcs_guest_init s) = cpus s"
  "this_cpu (vmcs_guest_init s) = this_cpu s" "kernel_lock (vmcs_guest_init s) = kernel_lock s"
  "curenv (vmcs_guest_init s) = curenv s" "msrs (vmcs_guest_init s) = msrs s"
  "vmcs_cur (vmcs_guest_init s) = vmcs_cur s"
  by (simp_all add: vmcs_host_init_def vmcs_guest_init_def del: vmcs_writes.simps)

lemma guest_init_host_rsp:
  assumes "vmcs_cur s \<noteq> None" "f \<in> {VMCS_HOST_RSP, VMCS_HOST_RIP, VMCS_HOST_CR3}"
  shows "vmcs_readl f (vmcs_guest_init s) = vmcs_readl f s"
  using assms by (intro vmcs_guest_init_other) (auto simp: guest_writes_def vmcs_consts enc_hi_def)

lemma host_init_fields:
  assumes "vmcs_cur s \<noteq> None"
  shows "vmcs_readl VMCS_HOST_RSP (vmcs_host_init hw s) = vmcs_readl VMCS_HOST_RSP s"
    "vmcs_readl VMCS_HOST_RIP (vmcs_host_init hw s) = Some (vmx_return hw)"
    "vmcs_readl VMCS_HOST_CR3 (vmcs_host_init hw s) = Some (cr3 s)"
  using assms
  by (simp_all add: vmcs_host_init_def vmcs_readl_writes vmcs_consts enc_hi_def enc_width_def
      enc_width_class_def del: vmcs_writes.simps)

lemma control_writes_host:
  assumes "vmcs_cur s \<noteq> None" "f \<in> {VMCS_HOST_RSP, VMCS_HOST_RIP, VMCS_HOST_CR3}"
  shows "vmcs_readl f (vmcs_writes (control_writes e s) s) = vmcs_readl f s"
  using assms by (intro vmcs_readl_writes_other control_writes_plain)
    (auto simp: control_writes_def Let_def vmcs_consts enc_hi_def)

lemma rsp_rip_fields:
  fixes rip rsp :: u64
  assumes "vmcs_cur s \<noteq> None"
  defines "s' \<equiv> vmcs_writel VMCS_GUEST_RIP rip (vmcs_writel VMCS_GUEST_RSP rsp s)"
  shows "vmcs_readl VMCS_GUEST_RIP s' = Some rip" "vmcs_readl VMCS_GUEST_RSP s' = Some rsp"
    "f \<in> {VMCS_HOST_RSP, VMCS_HOST_RIP, VMCS_HOST_CR3, VMCS_64BIT_CONTROL_EPTPTR} \<Longrightarrow>
       vmcs_readl f s' = vmcs_readl f s"
  using vmcs_readl_writes [of s _ "[(VMCS_GUEST_RSP, rsp), (VMCS_GUEST_RIP, rip)]"] assms(1)
  unfolding s'_def
  by (auto simp: vmcs_consts enc_hi_def enc_width_def enc_width_class_def)

text \<open>The state of a first run just before the stack and instruction pointers are written.\<close>

definition loaded :: "nat \<Rightarrow> kernel \<Rightarrow> kernel" where
  "loaded v s = s\<lparr>vmcs_cur := Some (page2pa v)\<rparr>"

definition areas_set :: "machine \<Rightarrow> nat \<Rightarrow> nat \<Rightarrow> nat \<Rightarrow> nat \<Rightarrow> kernel \<Rightarrow> kernel" where
  "areas_set hw e v m a s =
     (let s1 = vmcs_guest_init (vmcs_host_init hw (loaded v s));
          s2 = s1\<lparr>mem := (mem s)(slot a 1 := mem s (slot a 1) OR rtc_bits)\<rparr>
      in (upd_env e (\<lambda>x. x\<lparr>env_vmxinfo := (env_vmxinfo x)\<lparr>msr_count := 1\<rparr>\<rparr>) s2)
           \<lparr>mem := msr_written m s2\<rparr>)"

definition first_ready :: "machine \<Rightarrow> nat \<Rightarrow> nat \<Rightarrow> nat \<Rightarrow> nat \<Rightarrow> kernel \<Rightarrow> kernel" where
  "first_ready hw e v m a s =
     vmcs_writes (control_writes e (areas_set hw e v m a s)) (areas_set hw e v m a s)"

lemma areas_set_simps [simp]:
  "vmcs_cur (areas_set hw e v m a s) = Some (page2pa v)"
  "msrs (areas_set hw e v m a s) = msrs s" "cpus (areas_set hw e v m a s) = cpus s"
  "this_cpu (areas_set hw e v m a s) = this_cpu s"
  "kernel_lock (areas_set hw e v m a s) = kernel_lock s"
  "npages (areas_set hw e v m a s) = npages s"
  "envs (areas_set hw e v m a s) = (envs s)(e := (envs s e)
     \<lparr>env_vmxinfo := (env_vmxinfo (envs s e))\<lparr>msr_count := 1\<rparr>\<rparr>)"
  "vmcs_readl f (areas_set hw e v m a s) =
     vmcs_readl f (vmcs_guest_init (vmcs_host_init hw (loaded v s)))"
  by (simp_all add: areas_set_def loaded_def upd_env_def Let_def)

definition entered :: "nat \<Rightarrow> kernel \<Rightarrow> kernel" where
  "entered e s =
     (upd_env e (\<lambda>x. x\<lparr>env_tf := (env_tf x)\<lparr>tf_ds := ucast (env_runs (envs s e)), tf_es := 0\<rparr>\<rparr>)
       (vmcs_writel VMCS_GUEST_RIP (tf_rip (env_tf (envs s e)))
         (vmcs_writel VMCS_GUEST_RSP (tf_rsp (env_tf (envs s e))) s)))
     \<lparr>kernel_lock := \<lparr>locked = 0, lk_cpu = None\<rparr>\<rparr>"

text \<open>The common tail of \<^verbatim>\<open>vmx_vmrun\<close>.\<close>

lemma enter_exec:
  assumes "curenv s = Some e" "kernel_locked s"
  shows "asm_vmrun_enter e (vmcs_write64 VMCS_GUEST_RIP (tf_rip (env_tf (envs s e)))
      (vmcs_write64 VMCS_GUEST_RSP (tf_rsp (env_tf (envs s e))) s)) =
    Some (vm_entry_of (env_tf (envs (entered e s) e)), entered e s)"
proof -
  let ?t = "vmcs_writel VMCS_GUEST_RIP (tf_rip (env_tf (envs s e)))
      (vmcs_writel VMCS_GUEST_RSP (tf_rsp (env_tf (envs s e))) s)"
  have "kernel_locked (upd_env e f ?t)" for f
    using assms(2) by (simp add: kernel_locked_def upd_env_def)
  then show ?thesis
    using assms(1)
    by (simp add: asm_vmrun_enter_def vmcs_write64_def unlock_kernel_held entered_def Let_def)
qed

lemma vmx_vmrun_first_exec:
  assumes areas: "guest_areas e v m a b s" and "env_type (envs s e) = ENV_TYPE_GUEST"
    and "env_runs (envs s e) = 1" and cur: "curenv s = Some e" and lk: "kernel_locked s"
    and hw: "\<And>t. \<not> vmclear_fails hw (page2pa v) t" "\<And>t. \<not> vmptrld_fails hw (page2pa v) t"
    and sec: "bit (allowed1 IA32_VMX_PROCBASED_CTLS s) 31"
  shows "vmx_vmrun hw e s =
    Some (Enter_Guest e (vm_entry_of (env_tf (envs (entered e (first_ready hw e v m a s)) e))),
      entered e (first_ready hw e v m a s))"
proof -
  let ?s1 = "vmcs_guest_init (vmcs_host_init hw (loaded v s))"
  let ?s2 = "?s1\<lparr>mem := (mem s)(slot a 1 := mem s (slot a 1) OR rtc_bits)\<rparr>"
  have bm: "bitmap_setup (env_vmxinfo (envs s e)) ?s1 = Some ?s2"
    using areas bitmap_setup_exec [of ?s1 a "env_vmxinfo (envs s e)"]
    by (simp add: guest_areas_def Let_def phys_ok_def loaded_def)
  have ms: "msr_setup e ?s2 = Some (areas_set hw e v m a s)"
    using areas msr_setup_exec [of ?s2 m e]
    by (simp add: guest_areas_def Let_def phys_ok_def loaded_def areas_set_def)
  have ct: "vmcs_ctls_init e (areas_set hw e v m a s) = Some (first_ready hw e v m a s)"
    using guest_areas_ok(1) [OF areas] sec vmcs_ctls_init_writes [of "areas_set hw e v m a s" e]
    by (simp add: first_ready_def areas_ok_def allowed1_def vmx_read_capability_msr_def read_msr_def)
  have ld: "vmclear hw (page2pa v) s = (0, t) \<Longrightarrow> vmptrld hw (page2pa v) t = (0, loaded v s)" for t
    using hw by (auto simp: vmclear_def vmptrld_def loaded_def split: if_splits)
  obtain t where vc: "vmclear hw (page2pa v) s = (0, t)" using hw by (auto simp: vmclear_def)
  have en: "curenv (first_ready hw e v m a s) = Some e" "kernel_locked (first_ready hw e v m a s)"
    using cur lk by (simp_all add: first_ready_def curenv_def thiscpu_def kernel_locked_def)
  have envs: "envs (loaded v s) = envs s"
    by (simp add: loaded_def)
  show ?thesis
    using assms(2,3) guest_areas_ok(2) [OF areas] vc ld [OF vc] bm ms ct en enter_exec [OF en]
    by (simp add: vmx_vmrun_def envs Let_def)
qed

lemma entered_env [simp]:
  "env_tf (envs (entered e s) e) =
     (env_tf (envs s e))\<lparr>tf_ds := ucast (env_runs (envs s e)), tf_es := 0\<rparr>"
  "env_runs (envs (entered e s) e) = env_runs (envs s e)"
  "vmcs_cur (entered e s) = vmcs_cur s" "kernel_lock (entered e s) = \<lparr>locked = 0, lk_cpu = None\<rparr>"
  by (simp_all add: entered_def upd_env_def)

lemma entered_fields:
  assumes "vmcs_cur s \<noteq> None"
  shows "vmcs_readl VMCS_GUEST_RIP (entered e s) = Some (tf_rip (env_tf (envs s e)))"
    "vmcs_readl VMCS_GUEST_RSP (entered e s) = Some (tf_rsp (env_tf (envs s e)))"
    "f \<in> {VMCS_HOST_RSP, VMCS_HOST_RIP, VMCS_HOST_CR3, VMCS_64BIT_CONTROL_EPTPTR} \<Longrightarrow>
       vmcs_readl f (entered e s) = vmcs_readl f s"
  using rsp_rip_fields [OF assms] by (simp_all add: entered_def)

lemma first_ready_fields:
  shows "vmcs_readl VMCS_HOST_RSP (first_ready hw e v m a s) = vmcs_readl VMCS_HOST_RSP (loaded v s)"
    "vmcs_readl VMCS_HOST_RIP (first_ready hw e v m a s) = Some (vmx_return hw)"
    "vmcs_readl VMCS_HOST_CR3 (first_ready hw e v m a s) = Some (cr3 s)"
    "vmcs_readl VMCS_64BIT_CONTROL_EPTPTR (first_ready hw e v m a s) =
       Some (env_cr3 (envs s e) OR 0x18)"
    "vmcs_cur (first_ready hw e v m a s) = Some (page2pa v)"
    "env_tf (envs (first_ready hw e v m a s) e) = env_tf (envs s e)"
    "env_runs (envs (first_ready hw e v m a s) e) = env_runs (envs s e)"
proof -
  have c: "vmcs_cur (loaded v s) \<noteq> None" "vmcs_cur (vmcs_host_init hw (loaded v s)) \<noteq> None"
    "vmcs_cur (areas_set hw e v m a s) \<noteq> None" "cr3 (loaded v s) = cr3 s"
    by (simp_all add: loaded_def)
  show "vmcs_readl VMCS_HOST_RSP (first_ready hw e v m a s) = vmcs_readl VMCS_HOST_RSP (loaded v s)"
    "vmcs_readl VMCS_HOST_RIP (first_ready hw e v m a s) = Some (vmx_return hw)"
    "vmcs_readl VMCS_HOST_CR3 (first_ready hw e v m a s) = Some (cr3 s)"
    using control_writes_host [OF c(3)] guest_init_host_rsp [OF c(2)] host_init_fields [OF c(1)]
    by (simp_all add: first_ready_def c(4) del: vmcs_writes.simps)
  show "vmcs_readl VMCS_64BIT_CONTROL_EPTPTR (first_ready hw e v m a s) =
       Some (env_cr3 (envs s e) OR 0x18)"
    using control_fields(6) [OF c(3)] by (simp add: first_ready_def)
qed (simp_all add: first_ready_def)

text \<open>
  C10. The first run of a guest. With the kernel lock held, the guest current, its areas allocated and
  a processor that accepts its VMCS and has secondary controls, \<^verbatim>\<open>vmx_vmrun\<close> enters the guest by
  \<^verbatim>\<open>vmlaunch\<close> on the guest's own VMCS, at the instruction and stack pointer of its trap frame, with the
  EPT root of the environment, exits going to \<^verbatim>\<open>.Lvmx_return\<close> under the current page table, and the
  kernel lock released. But nothing is stored in \<^verbatim>\<open>VMCS_HOST_RSP\<close>, the stack pointer the processor
  loads on a VM exit: it keeps whatever value the VMCS region had.
\<close>

theorem vmx_vmrun_first:
  assumes "guest_areas e v m a b s" "env_type (envs s e) = ENV_TYPE_GUEST" "env_runs (envs s e) = 1"
    "curenv s = Some e" "kernel_locked s"
    "\<And>t. \<not> vmclear_fails hw (page2pa v) t" "\<And>t. \<not> vmptrld_fails hw (page2pa v) t"
    "bit (allowed1 IA32_VMX_PROCBASED_CTLS s) 31"
  shows "\<exists>en s'. vmx_vmrun hw e s = Some (Enter_Guest e en, s') \<and> entry_launch en \<and>
    vmcs_cur s' = Some (page2pa v) \<and> locked (kernel_lock s') = 0 \<and>
    vmcs_readl VMCS_GUEST_RIP s' = Some (tf_rip (env_tf (envs s e))) \<and>
    vmcs_readl VMCS_GUEST_RSP s' = Some (tf_rsp (env_tf (envs s e))) \<and>
    vmcs_readl VMCS_64BIT_CONTROL_EPTPTR s' = Some (env_cr3 (envs s e) OR 0x18) \<and>
    vmcs_readl VMCS_HOST_RIP s' = Some (vmx_return hw) \<and>
    vmcs_readl VMCS_HOST_CR3 s' = Some (cr3 s) \<and>
    vmcs_readl VMCS_HOST_RSP s' = Some (vmcs_data s (page2pa v) VMCS_HOST_RSP)"
proof -
  have "vmcs_readl VMCS_HOST_RSP (loaded v s) = Some (vmcs_data s (page2pa v) VMCS_HOST_RSP)"
    by (simp add: loaded_def vmcs_readl_def vmread_def vmcs_consts enc_hi_def)
  then show ?thesis
    using entered_fields [where s = "first_ready hw e v m a s" and e = e] assms(3)
    unfolding vmx_vmrun_first_exec [OF assms]
    by (simp add: first_ready_fields vm_entry_of_def)
qed

text \<open>A machine with one guest, environment 0, whose areas are in the pages 4 to 7 and which runs next.\<close>

definition guest_kernel :: "u32 \<Rightarrow> kernel" where
  "guest_kernel runs = small_kernel\<lparr>msrs := (\<lambda>_. 0xFFFFFFFF00000000),
     cpus := (\<lambda>_. \<lparr>cpu_id = 0, cpu_status = CPU_STARTED, cpu_env = Some 0, is_vmx_root = True,
                    vmxon_region = 0\<rparr>),
     kernel_lock := \<lparr>locked = 1, lk_cpu = Some 0\<rparr>,
     envs := (\<lambda>_. zero_env\<lparr>env_type := ENV_TYPE_GUEST, env_status := ENV_RUNNING, env_runs := runs,
       env_tf := zero_tf\<lparr>tf_rip := 0x7C00, tf_err := 5\<rparr>,
       env_vmxinfo := zero_vmxinfo\<lparr>vmcs := page2pa 4 + KERNBASE,
         msr_host_area := page2pa 5 + KERNBASE,
         msr_guest_area := page2pa 5 + KERNBASE + PGSIZE div 2,
         io_bmap_a := page2pa 6 + KERNBASE, io_bmap_b := page2pa 7 + KERNBASE\<rparr>\<rparr>)\<rparr>"

lemma guest_kernel_simps [simp]:
  "guest_areas 0 4 5 6 7 (guest_kernel n)"
  "env_type (envs (guest_kernel n) 0) = ENV_TYPE_GUEST" "env_runs (envs (guest_kernel n) 0) = n"
  "env_tf (envs (guest_kernel n) 0) = zero_tf\<lparr>tf_rip := 0x7C00, tf_err := 5\<rparr>"
  "curenv (guest_kernel n) = Some 0" "kernel_locked (guest_kernel n)"
  "bit (allowed1 IA32_VMX_PROCBASED_CTLS (guest_kernel n)) 31"
  "vmcs_data (guest_kernel n) = (\<lambda>_ _. 0)"
  by (simp_all add: guest_areas_def Let_def guest_kernel_def small_kernel_def bss_state_def phys_ok_def
      kern_mem_max_eq curenv_def thiscpu_def kernel_locked_def holding_def allowed1_def
      vmx_read_capability_msr_def read_msr_def)

lemma quiet_machine_simps [simp]:
  "vmclear_fails quiet_machine pa t = False" "vmptrld_fails quiet_machine pa t = False"
  by (simp_all add: quiet_machine_def)

theorem bitmap_setup_ports_set_witness:
  "\<exists>s'. bitmap_setup (env_vmxinfo (envs (guest_kernel 1) 0)) (guest_kernel 1) = Some s' \<and>
    bit (mem s' (slot 6 1)) 0x30 \<and> bit (mem s' (slot 6 1)) 0x31 \<and> \<not> bit (mem s' (slot 6 1)) 0x32"
proof -
  have g: "phys_ok (guest_kernel 1)" "6 < npages (guest_kernel 1)"
    "io_bmap_a (env_vmxinfo (envs (guest_kernel 1) 0)) = page2pa 6 + KERNBASE" "mem (guest_kernel 1) = (\<lambda>_. 0)"
    by (simp_all add: guest_kernel_def small_kernel_def bss_state_def phys_ok_def kern_mem_max_eq)
  obtain s' where s': "bitmap_setup (env_vmxinfo (envs (guest_kernel 1) 0)) (guest_kernel 1) = Some s'"
    and b: "\<forall>port < 0x8000. bit (mem s' (slot 6 (of_nat (port div 64)))) (port mod 64) \<longleftrightarrow> port \<in> {0x70, 0x71}"
    using bitmap_setup_ports_set [OF g(1-3)] g(4) by auto
  from spec [OF b, of "0x70"] spec [OF b, of "0x71"] spec [OF b, of "0x72"] s' show ?thesis by simp
qed

theorem vmx_vmrun_first_witness:
  "\<exists>en s'. vmx_vmrun quiet_machine 0 (guest_kernel 1) = Some (Enter_Guest 0 en, s') \<and>
     entry_launch en \<and> vmcs_readl VMCS_GUEST_RIP s' = Some 0x7C00 \<and>
     vmcs_readl VMCS_HOST_RSP s' = Some 0"
  using vmx_vmrun_first [of 0 4 5 6 7 "guest_kernel 1" quiet_machine]
  by auto



end
