(* ===== verification/Vmexits_Correct.thy ===== *)
theory Vmexits_Correct
  imports Boot_Correct Vmx_Run
begin

text \<open>
  Correctness of the emulation that VM exits perform for a guest: the CMOS behind the real-time clock's ports,
  \<^verbatim>\<open>cpuid\<close>, and the register \<^verbatim>\<open>EFER\<close>.
\<close>

section \<open>Trap frame updates\<close>

lemma upd_tf_simps [simp]:
  "env_tf (envs (upd_tf e f s) e) = f (env_tf (envs s e))"
  "env_vmxinfo (envs (upd_tf e f s) x) = env_vmxinfo (envs s x)"
  "port_iortc (upd_tf e f s) = port_iortc s" "vmcs_read32 g (upd_tf e f s) = vmcs_read32 g s"
  "vmcs_readl g (upd_tf e f s) = vmcs_readl g s" "mem (upd_tf e f s) = mem s" "npages (upd_tf e f s) = npages s"
  by (simp_all add: upd_tf_def upd_env_def vmcs_read32_def vmcs_readl_def vmread_def)

lemma upd_regs_simps [simp]:
  "tf_regs (env_tf (envs (upd_regs e f s) e)) = f (regs_of e s)"
  "tf_rip (env_tf (envs (upd_regs e f s) e)) = tf_rip (env_tf (envs s e))"
  "env_vmxinfo (envs (upd_regs e f s) x) = env_vmxinfo (envs s x)"
  "port_iortc (upd_regs e f s) = port_iortc s" "vmcs_read32 g (upd_regs e f s) = vmcs_read32 g s"
  "vmcs_readl g (upd_regs e f s) = vmcs_readl g s" "mem (upd_regs e f s) = mem s" "npages (upd_regs e f s) = npages s"
  by (simp_all add: upd_regs_def regs_of_def)

lemma vmcs_read32_port [simp]: "vmcs_read32 f (s\<lparr>port_iortc := v\<rparr>) = vmcs_read32 f s"
  by (simp add: vmcs_read32_def vmcs_readl_def vmread_def)

lemma advance_rip_exec:
  "vmcs_read32 VMCS_32BIT_VMEXIT_INSTRUCTION_LENGTH s = Some n \<Longrightarrow>
    advance_rip e s = Some (upd_tf e (\<lambda>tf. tf\<lparr>tf_rip := tf_rip tf + ucast n\<rparr>) s)"
  by (simp add: advance_rip_def)

section \<open>The CMOS\<close>

text \<open>An I/O exit: the port and the direction in the exit qualification.\<close>

definition io_exit :: "u64 \<Rightarrow> u32 \<Rightarrow> bool \<Rightarrow> bool" where
  "io_exit q port inp \<longleftrightarrow> (ucast (drop_bit 16 q AND 0xFFFF) :: u32) = port \<and> bit q 3 = inp"

text \<open>The bytes of the emulated CMOS, as numbers.\<close>

lemma unat_and_FF: "unat (word_of_int k AND 0xFF :: u64) = nat (k mod 256)"
proof -
  have "uint (take_bit 8 (word_of_int k :: u64)) = take_bit 8 k"
    by (simp add: unsigned_take_bit_eq unsigned_of_int min_def)
  moreover have "(word_of_int k AND 0xFF :: u64) = take_bit 8 (word_of_int k)"
    by (simp add: take_bit_eq_mask mask_eq_exp_minus_1)
  ultimately show ?thesis unfolding unat_eq_nat_uint by (simp only: take_bit_eq_mod) simp
qed

lemma word_of_unat: "unat (x :: u64) = k \<Longrightarrow> x = of_nat k"
  by auto

lemma nvram_value_bytes:
  assumes "phys_sz g < 0x40000000" "0x100000 \<le> phys_sz g"
  defines "kb \<equiv> unat (phys_sz g) div 1024 - 1024"
  shows "nvram_value r g = (if r = 0x15 then Some 0x80 else if r = 0x16 then Some 2
    else if r = 0x17 then Some (of_nat (kb mod 256)) else if r = 0x18 then Some (of_nat (kb div 256 mod 256)) else None)"
proof -
  have "0x100000 \<le> unat (phys_sz g)" using assms(2) by (simp add: word_le_nat_alt)
  then have "ext_kb g = int (unat (phys_sz g) div 1024 - 1024)" by (simp add: ext_kb_eq [OF assms(1)] zdiv_int)
  then have k: "ext_kb g = int kb" by (simp only: kb_def)
  have "unat (word_of_int (ext_kb g) AND 0xFF :: u64) = kb mod 256"
    "unat (word_of_int (drop_bit 8 (ext_kb g)) AND 0xFF :: u64) = kb div 256 mod 256"
    unfolding unat_and_FF k by (simp_all add: drop_bit_eq_div nat_mod_distrib nat_div_distrib)
  note bytes = this [THEN word_of_unat]
  moreover have "NVRAM_BASELO = 0x15" "NVRAM_BASEHI = 0x16" "NVRAM_EXTLO = 0x17" "NVRAM_EXTHI = 0x18"
    "(640 AND 0xFF :: u64) = 0x80" "(drop_bit 8 640 AND 0xFF :: u64) = 2"
    by (simp_all add: const_defs)
  ultimately show ?thesis by (simp only: nvram_value_def bytes)
qed

abbreviation skip_instr :: "u32 \<Rightarrow> Trapframe \<Rightarrow> Trapframe" where
  "skip_instr n tf \<equiv> tf\<lparr>tf_rip := tf_rip tf + ucast n\<rparr>"

lemma handle_ioinstr_exec:
  assumes q: "vmcs_read64 VMCS_VMEXIT_QUALIFICATION s = Some q"
    and n: "vmcs_read32 VMCS_32BIT_VMEXIT_INSTRUCTION_LENGTH s = Some n"
  shows "io_exit q 0x70 False \<Longrightarrow> handle_ioinstr e s =
      Some (True, upd_tf e (skip_instr n) (s\<lparr>port_iortc := ucast (reg_rax (regs_of e s))\<rparr>))"
    "io_exit q 0x71 True \<Longrightarrow> handle_ioinstr e s =
      (case nvram_value (port_iortc s) (env_vmxinfo (envs s e)) of
         None \<Rightarrow> Some (False, s)
       | Some v \<Rightarrow> Some (True, upd_tf e (skip_instr n) (upd_regs e (reg_rax_update (\<lambda>_. v)) s)))"
    "\<not> io_exit q 0x70 False \<Longrightarrow> \<not> io_exit q 0x71 True \<Longrightarrow> handle_ioinstr e s = Some (False, s)"
proof -
  let ?p = "ucast (drop_bit 16 q AND 0xFFFF) :: u32"
  note defs = handle_ioinstr_def q Option.bind_lunit Let_def BIT_AT_eq IO_RTC_def
  show "handle_ioinstr e s = Some (True, upd_tf e (skip_instr n) (s\<lparr>port_iortc := ucast (reg_rax (regs_of e s))\<rparr>))"
    if "io_exit q 0x70 False"
  proof -
    have "?p = 0x70" "\<not> bit q 3" using that by (simp_all add: io_exit_def)
    then show ?thesis using n unfolding defs by (simp add: advance_rip_def)
  qed
  show "handle_ioinstr e s = (case nvram_value (port_iortc s) (env_vmxinfo (envs s e)) of
         None \<Rightarrow> Some (False, s)
       | Some v \<Rightarrow> Some (True, upd_tf e (skip_instr n) (upd_regs e (reg_rax_update (\<lambda>_. v)) s)))"
    if "io_exit q 0x71 True"
  proof -
    have "?p = 0x71" "bit q 3" using that by (simp_all add: io_exit_def)
    then show ?thesis using n unfolding defs by (simp add: advance_rip_def split: option.split)
  qed
  show "handle_ioinstr e s = Some (False, s)" if "\<not> io_exit q 0x70 False" "\<not> io_exit q 0x71 True"
  proof -
    have "?p \<noteq> 0x70 \<or> bit q 3" "?p \<noteq> 0x71 \<or> \<not> bit q 3" using that by (simp_all add: io_exit_def)
    then show ?thesis unfolding defs by auto
  qed
qed

lemma io_exit_port: "io_exit q 0x70 i \<Longrightarrow> \<not> io_exit q 0x71 j"
  by (auto simp: io_exit_def)

text \<open>
  C21. The CMOS of a guest. \<^verbatim>\<open>handle_ioinstr\<close> never panics on a current VMCS. It handles two kinds of exit: output to
  port \<^verbatim>\<open>0x70\<close>, which selects a register, and input from port \<^verbatim>\<open>0x71\<close> while the selected register is one of the
  four that hold the memory sizes; the guest then reads 640 KB of base memory (\<^verbatim>\<open>0x280\<close>) and the number of KB
  above 1 MB of its physical size, each as two bytes. It skips the instruction. Every other I/O exit is not handled and
  changes nothing.
\<close>

theorem handle_ioinstr_cmos:
  assumes q: "vmcs_read64 VMCS_VMEXIT_QUALIFICATION s = Some q"
    and n: "vmcs_read32 VMCS_32BIT_VMEXIT_INSTRUCTION_LENGTH s = Some n"
    and sz: "phys_sz (env_vmxinfo (envs s e)) < 0x40000000" "0x100000 \<le> phys_sz (env_vmxinfo (envs s e))"
  shows "\<exists>h s'. handle_ioinstr e s = Some (h, s') \<and>
    (h \<longleftrightarrow> io_exit q 0x70 False \<or> io_exit q 0x71 True \<and> port_iortc s \<in> {0x15, 0x16, 0x17, 0x18}) \<and>
    (if h then tf_rip (env_tf (envs s' e)) = tf_rip (env_tf (envs s e)) + ucast n else s' = s) \<and>
    (io_exit q 0x70 False \<longrightarrow> port_iortc s' = ucast (reg_rax (regs_of e s)) \<and> regs_of e s' = regs_of e s) \<and>
    (io_exit q 0x71 True \<longrightarrow> h \<longrightarrow> port_iortc s' = port_iortc s \<and>
      regs_of e s' = (regs_of e s)\<lparr>reg_rax :=
        (let kb = unat (phys_sz (env_vmxinfo (envs s e))) div 1024 - 1024 in
         if port_iortc s = 0x15 then 0x80 else if port_iortc s = 0x16 then 0x02
         else if port_iortc s = 0x17 then of_nat (kb mod 256) else of_nat (kb div 256 mod 256))\<rparr>)"
proof -
  note val = nvram_value_bytes [OF sz, of "port_iortc s"] and run = handle_ioinstr_exec [OF q n, of e]
  consider "io_exit q 0x70 False" | "io_exit q 0x71 True" | "\<not> io_exit q 0x70 False" "\<not> io_exit q 0x71 True"
    by blast
  then show ?thesis
  proof cases
    case 1
    then show ?thesis using run(1) io_exit_port [OF 1] by (auto simp: regs_of_def)
  next
    case 2
    then have "\<not> io_exit q 0x70 False" using io_exit_port by blast
    then show ?thesis
      using 2 run(2) [OF 2] unfolding val by (auto simp: regs_of_def Let_def split: if_splits)
  next
    case 3
    then show ?thesis using run(3) by auto
  qed
qed

text \<open>A guest with 16 MB that reads register \<^verbatim>\<open>0x18\<close> of its CMOS: the qualification is that of \<^verbatim>\<open>in $0x71\<close>, two bytes long.\<close>

definition cmos_kernel :: kernel where
  "cmos_kernel = bss_state\<lparr>port_iortc := 0x18, vmcs_cur := Some 0x4000,
     vmcs_data := (\<lambda>_ f. if f = VMCS_VMEXIT_QUALIFICATION then 0x710008
       else if f = VMCS_32BIT_VMEXIT_INSTRUCTION_LENGTH then 2 else 0),
     envs := (\<lambda>_. zero_env\<lparr>env_type := ENV_TYPE_GUEST, env_vmxinfo := guest_16M\<rparr>)\<rparr>"

lemma cmos_kernel_fields:
  "vmcs_read64 VMCS_VMEXIT_QUALIFICATION cmos_kernel = Some 0x710008"
  "vmcs_read32 VMCS_32BIT_VMEXIT_INSTRUCTION_LENGTH cmos_kernel = Some 2"
  by (simp_all add: cmos_kernel_def vmcs_read64_def vmcs_read32_def vmcs_readl_def vmread_def vmcs_consts enc_hi_def)

theorem handle_ioinstr_cmos_witness:
  "\<exists>s'. handle_ioinstr 0 cmos_kernel = Some (True, s') \<and> reg_rax (regs_of 0 s') = 60"
proof -
  have "io_exit 0x710008 0x71 True" "\<not> io_exit 0x710008 0x70 False" by (simp_all add: io_exit_def)
  moreover have "port_iortc cmos_kernel = 0x18" "phys_sz (env_vmxinfo (envs cmos_kernel 0)) = 0x1000000"
    by (simp_all add: cmos_kernel_def guest_16M_def)
  ultimately show ?thesis
    using handle_ioinstr_cmos [OF cmos_kernel_fields, of 0] by auto
qed

section \<open>Processor identification\<close>

text \<open>
  The processor that a guest sees: leaf \<open>i\<close> of \<^verbatim>\<open>cpuid\<close> is what \<^verbatim>\<open>handle_cpuid\<close> puts into the registers of a guest
  that executes the instruction with \<open>i\<close> in \<^verbatim>\<open>eax\<close>.
\<close>

definition guest_cpuid :: "machine \<Rightarrow> nat \<Rightarrow> kernel \<Rightarrow> u32 \<Rightarrow> u32 \<times> u32 \<times> u32 \<times> u32" where
  "guest_cpuid hw e s i =
     (case handle_cpuid hw e (upd_regs e (reg_rax_update (\<lambda>_. ucast i)) s) of
        None \<Rightarrow> (0, 0, 0, 0)
      | Some (_, s') \<Rightarrow> let g = regs_of e s' in (ucast (reg_rax g), ucast (reg_rbx g), ucast (reg_rcx g), ucast (reg_rdx g)))"

lemma ucast_down_up [simp]: "(ucast (ucast (x :: u32) :: u64) :: u32) = x"
  by (rule bit_word_eqI) (simp add: bit_simps)

lemma guest_cpuid_eq:
  assumes "vmcs_read32 VMCS_32BIT_VMEXIT_INSTRUCTION_LENGTH s = Some n"
  shows "guest_cpuid hw e s i = (case cpuid_leaf hw i of (a, b, c, d) \<Rightarrow> (a, b, if i = 1 then c AND NOT 32 else c, d))"
  using assms
  by (simp add: guest_cpuid_def handle_cpuid_def Let_def advance_rip_def regs_of_def split: prod.split)

text \<open>
  C23. The presence of VMX is hidden from guests. On the processor that \<^verbatim>\<open>handle_cpuid\<close> shows to a guest, the kernel's own
  test \<^verbatim>\<open>vmx_check_support\<close> fails, whatever the real processor supports; every register of every leaf is that of the
  real processor, except for the VMX bit of leaf 1.
\<close>

theorem guest_sees_no_vmx:
  assumes "vmcs_read32 VMCS_32BIT_VMEXIT_INSTRUCTION_LENGTH s = Some n"
  shows "\<not> vmx_check_support (hw\<lparr>cpuid_leaf := guest_cpuid hw e s\<rparr>) \<and>
    (\<forall>i. i \<noteq> 1 \<longrightarrow> guest_cpuid hw e s i = cpuid_leaf hw i) \<and>
    (\<exists>a b c c' d. cpuid_leaf hw 1 = (a, b, c, d) \<and> guest_cpuid hw e s 1 = (a, b, c', d) \<and>
      (\<forall>j. j \<noteq> 5 \<longrightarrow> bit c' j = bit c j))"
proof -
  have m: "bit (32 :: u32) j \<longleftrightarrow> j = 5" for j
    using bit_exp_iff [of 5 j, where 'a = "32 word"] by auto
  have "bit (c AND NOT (32 :: u32)) j \<longleftrightarrow> j \<noteq> 5 \<and> bit c j" for c j
    unfolding bit_and_iff bit_not_iff m by (auto dest: bit_imp_le_length)
  then show ?thesis
    by (cases "cpuid_leaf hw 1") (simp add: guest_cpuid_eq [OF assms] vmx_check_support_def BIT_AT_eq bit_ucast_iff)
qed

theorem guest_sees_no_vmx_witness:
  "vmx_check_support quiet_machine \<and>
   \<not> vmx_check_support (quiet_machine\<lparr>cpuid_leaf := guest_cpuid quiet_machine 0 cmos_kernel\<rparr>)"
  using guest_sees_no_vmx [OF cmos_kernel_fields(2), of quiet_machine 0]
  by (simp add: vmx_check_support_def quiet_machine_def BIT_AT_eq bit_ucast_iff)

section \<open>Model-specific registers\<close>

text \<open>The guest's MSR area as \<^verbatim>\<open>msr_setup\<close> leaves it: one entry, for \<^verbatim>\<open>EFER\<close>, in the second half of page \<open>m\<close>.\<close>

definition efer_area :: "nat \<Rightarrow> nat \<Rightarrow> kernel \<Rightarrow> bool" where
  "efer_area e m s \<longleftrightarrow> phys_ok s \<and> m < npages s \<and>
     msr_guest_area (env_vmxinfo (envs s e)) = slot m 256 + KERNBASE \<and> msr_count (env_vmxinfo (envs s e)) = 1 \<and>
     (ucast (mem s (slot m 256)) :: u32) = EFER_MSR"

lemma efer_area_exec:
  assumes "efer_area e m s"
  shows "find_msr_in_region EFER_MSR (msr_guest_area (env_vmxinfo (envs s e))) (msr_count (env_vmxinfo (envs s e))) s =
      Some (Some (slot m 256 + KERNBASE))"
    "load64 s (slot m 256 + KERNBASE + 8) = Some (mem s (slot m 257))"
    "store64 (slot m 256 + KERNBASE + 8) v s = Some (s\<lparr>mem := (mem s)(slot m 257 := v)\<rparr>)"
proof -
  have a: "slot m 256 + KERNBASE + 8 = slot m 257 + KERNBASE" by (simp add: slot_def)
  show "load64 s (slot m 256 + KERNBASE + 8) = Some (mem s (slot m 257))"
    "store64 (slot m 256 + KERNBASE + 8) v s = Some (s\<lparr>mem := (mem s)(slot m 257 := v)\<rparr>)"
    unfolding a using assms by (simp_all add: efer_area_def load64_slot store64_slot)
  show "find_msr_in_region EFER_MSR (msr_guest_area (env_vmxinfo (envs s e))) (msr_count (env_vmxinfo (envs s e))) s =
      Some (Some (slot m 256 + KERNBASE))"
    using assms by (simp add: efer_area_def load32_slot)
qed

lemma vmcs_read32_mem [simp]: "vmcs_read32 f (s\<lparr>mem := v\<rparr>) = vmcs_read32 f s"
  by (simp add: vmcs_read32_def vmcs_readl_def vmread_def)

text \<open>The update of the VM-entry controls in \<^verbatim>\<open>handle_wrmsr\<close>, for a guest that has just enabled long mode.\<close>

definition enable_x64 :: "bool \<Rightarrow> u32 \<Rightarrow> kernel \<Rightarrow> kernel" where
  "enable_x64 b c s =
     (if b then vmcs_write32 VMCS_32BIT_CONTROL_VMENTRY_CONTROLS (c OR VMCS_VMENTRY_x64_GUEST) s else s)"

lemma ucast_take_up [simp]: "(ucast (take_bit 32 (ucast (x :: u32) :: u64)) :: u32) = x"
  by (rule bit_word_eqI) (simp add: bit_simps)

lemma enable_x64_simps:
  assumes "vmcs_read32 VMCS_32BIT_CONTROL_VMENTRY_CONTROLS s = Some c"
  shows "vmcs_read32 VMCS_32BIT_CONTROL_VMENTRY_CONTROLS (enable_x64 b c s) =
      Some (if b then c OR VMCS_VMENTRY_x64_GUEST else c)"
    "vmcs_read32 VMCS_32BIT_VMEXIT_INSTRUCTION_LENGTH (enable_x64 b c s) =
      vmcs_read32 VMCS_32BIT_VMEXIT_INSTRUCTION_LENGTH s"
  using assms
  by (auto simp: enable_x64_def vmcs_read32_def vmcs_write32_def vmcs_readl_def vmcs_writel_def vmread_def vmwrite_def
      vmcs_consts enc_hi_def enc_width_def enc_width_class_def split: option.splits)

lemma enable_x64_frame:
  "envs (enable_x64 b c s) = envs s" "mem (enable_x64 b c s) = mem s" "npages (enable_x64 b c s) = npages s"
  by (simp_all add: enable_x64_def vmcs_write32_def vmcs_writel_def split: option.split)

lemma handle_wrmsr_exec:
  assumes "efer_area e m s" "reg_rcx (regs_of e s) = ucast EFER_MSR"
    and "vmcs_read32 VMCS_32BIT_VMEXIT_INSTRUCTION_LENGTH s = Some n"
    and "vmcs_read32 VMCS_32BIT_CONTROL_VMENTRY_CONTROLS s = Some c"
  defines "v \<equiv> push_bit 32 (reg_rdx (regs_of e s)) OR reg_rax (regs_of e s)"
  defines "t \<equiv> enable_x64 (\<not> bit (mem s (slot m 257)) EFER_LME \<and> bit v EFER_LME) c s"
  shows "handle_wrmsr e s = Some (True, upd_tf e (skip_instr n) (t\<lparr>mem := (mem s)(slot m 257 := v)\<rparr>))"
proof -
  have "efer_area e m t" using assms(1) by (simp add: efer_area_def t_def enable_x64_frame phys_ok_def)
  note st = efer_area_exec(3) [OF this, of v]
  have "vmcs_read32 VMCS_32BIT_VMEXIT_INSTRUCTION_LENGTH (t\<lparr>mem := (mem s)(slot m 257 := v)\<rparr>) = Some n"
    using enable_x64_simps(2) [OF assms(4)] assms(3) by (simp add: t_def)
  note adv = advance_rip_exec [OF this, of e]
  have "(if BIT_AT (mem s (slot m 257)) EFER_LME = 0 \<and> BIT_AT v EFER_LME = 1 then do {
          entry_ctls \<leftarrow> vmcs_read32 VMCS_32BIT_CONTROL_VMENTRY_CONTROLS s;
          Some (vmcs_write32 VMCS_32BIT_CONTROL_VMENTRY_CONTROLS (entry_ctls OR VMCS_VMENTRY_x64_GUEST) s) }
        else Some s) = Some t"
    using assms(4) by (simp add: t_def enable_x64_def BIT_AT_eq)
  then show ?thesis
    using st adv efer_area_exec(1,2) [OF assms(1)]
    by (simp add: handle_wrmsr_def assms(2) v_def [symmetric] t_def enable_x64_frame)
qed

lemma handle_rdmsr_exec:
  assumes "efer_area e m s" "reg_rcx (regs_of e s) = ucast EFER_MSR"
    and "vmcs_read32 VMCS_32BIT_VMEXIT_INSTRUCTION_LENGTH s = Some n"
  shows "handle_rdmsr e s = Some (True, upd_tf e (skip_instr n) (upd_regs e (\<lambda>g. g\<lparr>
    reg_rdx := push_bit 32 (mem s (slot m 257)), reg_rax := mem s (slot m 257) AND 0xFFFFFFFF\<rparr>) s))"
  using efer_area_exec(1,2) [OF assms(1)] assms(2,3)
  by (simp add: handle_rdmsr_def advance_rip_exec)

lemma msr_halves:
  fixes d a :: u64
  shows "(push_bit 32 d OR a) AND 0xFFFFFFFF = take_bit 32 a" "push_bit 32 (push_bit 32 d OR a) = push_bit 32 a"
proof -
  have m: "(0xFFFFFFFF :: u64) = mask 32" by (simp add: mask_eq_exp_minus_1)
  show "(push_bit 32 d OR a) AND 0xFFFFFFFF = take_bit 32 a"
    unfolding m by (rule bit_word_eqI) (auto simp: bit_simps)
  show "push_bit 32 (push_bit 32 d OR a) = push_bit 32 a"
    by (rule bit_word_eqI) (auto simp: bit_simps)
qed

text \<open>
  C22. The guest's \<^verbatim>\<open>EFER\<close>. A \<^verbatim>\<open>wrmsr\<close> of the register stores \<^verbatim>\<open>rdx:rax\<close> in the MSR area of the guest and nowhere else, and
  sets the VM-entry control for a 64-bit guest exactly when it turns long mode on. A \<^verbatim>\<open>rdmsr\<close> that follows returns the
  low half of the stored value in \<^verbatim>\<open>rax\<close>; in \<^verbatim>\<open>rdx\<close> it returns the value shifted left, not its high half. Each
  handler steps over the instruction; for any other register both refuse the exit and change nothing.
\<close>

theorem efer_write_read:
  assumes "efer_area e m s" "reg_rcx (regs_of e s) = ucast EFER_MSR"
    and "vmcs_read32 VMCS_32BIT_VMEXIT_INSTRUCTION_LENGTH s = Some n"
    and "vmcs_read32 VMCS_32BIT_CONTROL_VMENTRY_CONTROLS s = Some c"
  shows "\<exists>s1 s2. handle_wrmsr e s = Some (True, s1) \<and> handle_rdmsr e s1 = Some (True, s2) \<and>
    (let old = mem s (slot m 257); new = push_bit 32 (reg_rdx (regs_of e s)) OR reg_rax (regs_of e s) in
      mem s1 = (mem s)(slot m 257 := new) \<and> mem s2 = mem s1 \<and>
      vmcs_read32 VMCS_32BIT_CONTROL_VMENTRY_CONTROLS s1 =
        Some (if \<not> bit old EFER_LME \<and> bit new EFER_LME then c OR VMCS_VMENTRY_x64_GUEST else c)) \<and>
    reg_rax (regs_of e s2) = take_bit 32 (reg_rax (regs_of e s)) \<and>
    reg_rdx (regs_of e s2) = push_bit 32 (reg_rax (regs_of e s)) \<and>
    tf_rip (env_tf (envs s2 e)) = tf_rip (env_tf (envs s e)) + ucast n + ucast n \<and>
    (\<forall>t. reg_rcx (regs_of e t) \<noteq> ucast EFER_MSR \<longrightarrow>
      handle_wrmsr e t = Some (False, t) \<and> handle_rdmsr e t = Some (False, t))"
proof -
  define new where "new = push_bit 32 (reg_rdx (regs_of e s)) OR reg_rax (regs_of e s)"
  define t where "t = enable_x64 (\<not> bit (mem s (slot m 257)) EFER_LME \<and> bit new EFER_LME) c s"
  define s1 where "s1 = upd_tf e (skip_instr n) (t\<lparr>mem := (mem s)(slot m 257 := new)\<rparr>)"
  have wr: "handle_wrmsr e s = Some (True, s1)"
    using handle_wrmsr_exec [OF assms] unfolding s1_def t_def new_def .
  have s1: "mem s1 = (mem s)(slot m 257 := new)" "regs_of e s1 = regs_of e s"
    "tf_rip (env_tf (envs s1 e)) = tf_rip (env_tf (envs s e)) + ucast n"
    "vmcs_read32 VMCS_32BIT_VMEXIT_INSTRUCTION_LENGTH s1 = Some n"
    using assms(3) enable_x64_simps(2) [OF assms(4)]
    by (simp_all add: s1_def regs_of_def t_def enable_x64_frame)
  have "slot m 256 \<noteq> slot m 257" by (simp add: slot_def)
  then have "efer_area e m s1"
    using assms(1) s1(1) by (auto simp: efer_area_def s1_def t_def enable_x64_frame phys_ok_def)
  then have rd: "handle_rdmsr e s1 = Some (True, upd_tf e (skip_instr n) (upd_regs e (\<lambda>g. g\<lparr>
      reg_rdx := push_bit 32 new, reg_rax := new AND 0xFFFFFFFF\<rparr>) s1))"
    using handle_rdmsr_exec [of e m s1 n] s1 assms(2) by simp
  have other: "handle_wrmsr e t = Some (False, t) \<and> handle_rdmsr e t = Some (False, t)"
    if "reg_rcx (regs_of e t) \<noteq> ucast EFER_MSR" for t
    using that by (simp add: handle_wrmsr_def handle_rdmsr_def)
  have ctl: "vmcs_read32 VMCS_32BIT_CONTROL_VMENTRY_CONTROLS s1 =
      Some (if \<not> bit (mem s (slot m 257)) EFER_LME \<and> bit new EFER_LME then c OR VMCS_VMENTRY_x64_GUEST else c)"
    using enable_x64_simps(1) [OF assms(4)] by (simp add: s1_def t_def)
  show ?thesis
    unfolding Let_def new_def [symmetric]
    by (intro exI conjI, rule wr, rule rd)
      (use s1 ctl other msr_halves [of "reg_rdx (regs_of e s)" "reg_rax (regs_of e s)", folded new_def] in
        \<open>simp_all add: regs_of_def\<close>)
qed

text \<open>A guest that turns long mode on: \<^verbatim>\<open>EFER\<close> was zero, and the guest writes \<^verbatim>\<open>0x100\<close>.\<close>

definition efer_kernel :: kernel where
  "efer_kernel = bss_state\<lparr>npages := 16, mem := (\<lambda>a. if a = slot 3 256 then ucast EFER_MSR else 0), vmcs_cur := Some 0x4000,
     vmcs_data := (\<lambda>_ f. if f = VMCS_32BIT_VMEXIT_INSTRUCTION_LENGTH then 2 else 0),
     envs := (\<lambda>_. zero_env\<lparr>env_type := ENV_TYPE_GUEST,
       env_tf := (env_tf zero_env)\<lparr>tf_regs := (tf_regs (env_tf zero_env))\<lparr>reg_rcx := ucast EFER_MSR, reg_rax := 0x100\<rparr>\<rparr>,
       env_vmxinfo := guest_16M\<lparr>msr_guest_area := slot 3 256 + KERNBASE, msr_count := 1\<rparr>\<rparr>)\<rparr>"

lemma efer_kernel_fields:
  "efer_area 0 3 efer_kernel" "reg_rcx (regs_of 0 efer_kernel) = ucast EFER_MSR"
  "vmcs_read32 VMCS_32BIT_VMEXIT_INSTRUCTION_LENGTH efer_kernel = Some 2"
  "vmcs_read32 VMCS_32BIT_CONTROL_VMENTRY_CONTROLS efer_kernel = Some 0"
  "mem efer_kernel (slot 3 257) = 0" "reg_rax (regs_of 0 efer_kernel) = 0x100" "reg_rdx (regs_of 0 efer_kernel) = 0"
  by (simp_all add: efer_kernel_def efer_area_def phys_ok_def slot_def regs_of_def zero_env_def zero_tf_def zero_regs_def
      vmcs_read32_def vmcs_readl_def vmread_def vmcs_consts enc_hi_def bss_state_def kern_mem_max_eq)

theorem efer_write_read_witness:
  "\<exists>s1 s2. handle_wrmsr 0 efer_kernel = Some (True, s1) \<and> handle_rdmsr 0 s1 = Some (True, s2) \<and>
     vmcs_read32 VMCS_32BIT_CONTROL_VMENTRY_CONTROLS s1 = Some VMCS_VMENTRY_x64_GUEST \<and>
     reg_rax (regs_of 0 s2) = 0x100 \<and> reg_rdx (regs_of 0 s2) = 0x10000000000"
proof -
  have "bit (0x100 :: u64) EFER_LME" by (simp add: EFER_LME_def)
  then show ?thesis
    using efer_write_read [OF efer_kernel_fields(1-4)] by (auto simp: efer_kernel_fields Let_def)
qed

end
