(* ===== verification/Trap.thy ===== *)
theory Trap
  imports Sched
begin

text \<open>
  Traps (\<^verbatim>\<open>kern/trap.c\<close>): the dispatcher and the common entry \<^verbatim>\<open>trap\<close>. The trap frame that the entry code
  pushed is an argument. \<^verbatim>\<open>trap_init\<close> and \<^verbatim>\<open>trap_init_percpu\<close> only write the descriptor tables,
  which are not part of the state. Messages are not modelled.
\<close>

definition IRQ_OFFSET :: u64 where "IRQ_OFFSET = 32"
definition IRQ_SPURIOUS :: u64 where "IRQ_SPURIOUS = 7"
definition T_SYSCALL :: u64 where "T_SYSCALL = 48"

definition excnames :: "string list" where
  "excnames = [''Divide error'', ''Debug'', ''Non-Maskable Interrupt'', ''Breakpoint'', ''Overflow'',
     ''BOUND Range Exceeded'', ''Invalid Opcode'', ''Device Not Available'', ''Double Fault'',
     ''Coprocessor Segment Overrun'', ''Invalid TSS'', ''Segment Not Present'', ''Stack Fault'',
     ''General Protection'', ''Page Fault'', ''(unknown trap)'', ''x87 FPU Floating-Point Error'',
     ''Alignment Check'', ''Machine-Check'', ''SIMD Floating-Point Exception'']"

text \<open>
  \<^verbatim>\<open>trapno\<close> is an \<^verbatim>\<open>int\<close>; the comparison with the size of the table converts it to an unsigned number, so a
  negative one is not below it.
\<close>

definition trapname :: "int \<Rightarrow> string" where
  "trapname trapno =
     (if 0 \<le> trapno \<and> nat trapno < length excnames then excnames ! nat trapno
      else if trapno = uint T_SYSCALL then ''System call''
      else if uint IRQ_OFFSET \<le> trapno \<and> trapno < uint IRQ_OFFSET + 16 then ''Hardware Interrupt''
      else ''(unknown trap)'')"

definition trap_dispatch :: "machine \<Rightarrow> Trapframe \<Rightarrow> kernel \<Rightarrow> (unit exec \<times> kernel) may_panic" where
  "trap_dispatch hw tf s =
     (if tf_trapno tf = IRQ_OFFSET + IRQ_SPURIOUS then Some (Returns (), s)
      else if tf_cs tf = GD_KT then None
      else do { c \<leftarrow> curenv s; env_destroy hw c s })"

text \<open>
  The entry acquires the kernel lock only when it wakes up a halted CPU. \<open>eflags_if\<close> is the interrupt
  flag that \<^verbatim>\<open>trap\<close> asserts to be clear.
\<close>

definition trap :: "machine \<Rightarrow> bool \<Rightarrow> Trapframe \<Rightarrow> kernel \<Rightarrow> (unit exec \<times> kernel) may_panic" where
  "trap hw eflags_if tf s = do {
     let old = cpu_status (thiscpu s);
     let s = upd_thiscpu (cpu_status_update (\<lambda>_. CPU_STARTED)) s;
     s \<leftarrow> (if old = CPU_HALTED then lock_kernel s else Some s);
     guard_panic (\<not> eflags_if);
     (r, s) \<leftarrow>
       (if tf_cs tf AND 3 = 3 then do {
          c \<leftarrow> curenv s;
          (r, s) \<leftarrow>
            (if env_status (envs s c) = ENV_DYING then do {
               s \<leftarrow> env_free c s;
               sched_yield hw (set_curenv None s) }
             else Some (Returns (), s));
          case r of
            Returns _ \<Rightarrow> do {
              c \<leftarrow> curenv s;
              Some (Returns (), upd_env c (env_tf_update (\<lambda>_. tf)) s) }
          | _ \<Rightarrow> Some (r, s) }
        else Some (Returns (), s));
     case r of
       Returns _ \<Rightarrow> do {
         (r, s) \<leftarrow> trap_dispatch hw tf s;
         case r of
           Returns _ \<Rightarrow>
             (case curenv s of
                Some c \<Rightarrow> if env_status (envs s c) = ENV_RUNNING then env_run hw c s else sched_yield hw s
              | None \<Rightarrow> sched_yield hw s)
         | _ \<Rightarrow> Some (r, s) }
     | _ \<Rightarrow> Some (r, s) }"

definition page_fault_handler :: "machine \<Rightarrow> kernel \<Rightarrow> (unit exec \<times> kernel) may_panic" where
  "page_fault_handler hw s = do { c \<leftarrow> curenv s; env_destroy hw c s }"

end
