(* ===== verification/Console.thy ===== *)
theory Console
  imports Trap Vmexits
begin

text \<open>
  The console (\<^verbatim>\<open>kern/console.c\<close>), the interrupt controller (\<^verbatim>\<open>kern/picirq.c\<close>) and the tick counter (\<^verbatim>\<open>kern/time.c\<close>). The devices are a
  parameter: the bus says what a port delivers when it is read and what a write to it does to the state
  of the devices, which is of any type \<open>'d\<close>. Display memory is part of the state; whether there is memory at
  \<^verbatim>\<open>CGA_BUF\<close>, which \<^verbatim>\<open>cga_init\<close> probes, is a parameter too. The messages on the console that
  \<^verbatim>\<open>irq_setmask_8259A\<close>, \<^verbatim>\<open>kbd_proc_data\<close> and \<^verbatim>\<open>cons_init\<close> print are left out.
\<close>

named_theorems cons_consts \<open>numeric constants of the console and the interrupt controller\<close>

section \<open>State\<close>

definition MONO_BASE :: u16 where [cons_consts]: "MONO_BASE = 0x3B4"
definition MONO_BUF :: u64 where [cons_consts]: "MONO_BUF = 0xB0000"
definition CGA_BASE :: u16 where [cons_consts]: "CGA_BASE = 0x3D4"
definition CRT_ROWS :: nat where [cons_consts]: "CRT_ROWS = 25"
definition CRT_COLS :: nat where [cons_consts]: "CRT_COLS = 80"
definition CRT_SIZE :: nat where [cons_consts]: "CRT_SIZE = CRT_ROWS * CRT_COLS"
definition IO_PIC1 :: u16 where [cons_consts]: "IO_PIC1 = 0x20"
definition IO_PIC2 :: u16 where [cons_consts]: "IO_PIC2 = 0xA0"
definition IRQ_SLAVE :: nat where [cons_consts]: "IRQ_SLAVE = 2"
definition COM1 :: u16 where [cons_consts]: "COM1 = 0x3F8"
definition COM_RX :: u16 where [cons_consts]: "COM_RX = 0"
definition COM_TX :: u16 where [cons_consts]: "COM_TX = 0"
definition COM_DLL :: u16 where [cons_consts]: "COM_DLL = 0"
definition COM_DLM :: u16 where [cons_consts]: "COM_DLM = 1"
definition COM_IER :: u16 where [cons_consts]: "COM_IER = 1"
definition COM_IER_RDI :: u8 where [cons_consts]: "COM_IER_RDI = 0x01"
definition COM_IIR :: u16 where [cons_consts]: "COM_IIR = 2"
definition COM_FCR :: u16 where [cons_consts]: "COM_FCR = 2"
definition COM_LCR :: u16 where [cons_consts]: "COM_LCR = 3"
definition COM_LCR_DLAB :: u8 where [cons_consts]: "COM_LCR_DLAB = 0x80"
definition COM_LCR_WLEN8 :: u8 where [cons_consts]: "COM_LCR_WLEN8 = 0x03"
definition COM_MCR :: u16 where [cons_consts]: "COM_MCR = 4"
definition COM_LSR :: u16 where [cons_consts]: "COM_LSR = 5"
definition COM_LSR_DATA :: u8 where [cons_consts]: "COM_LSR_DATA = 0x01"
definition COM_LSR_TXRDY :: u8 where [cons_consts]: "COM_LSR_TXRDY = 0x20"
definition KBSTATP :: u16 where [cons_consts]: "KBSTATP = 0x64"
definition KBS_DIB :: u8 where [cons_consts]: "KBS_DIB = 0x01"
definition KBDATAP :: u16 where [cons_consts]: "KBDATAP = 0x60"
definition KEY_HOME :: u8 where [cons_consts]: "KEY_HOME = 0xE0"
definition KEY_END :: u8 where [cons_consts]: "KEY_END = 0xE1"
definition KEY_UP :: u8 where [cons_consts]: "KEY_UP = 0xE2"
definition KEY_DN :: u8 where [cons_consts]: "KEY_DN = 0xE3"
definition KEY_LF :: u8 where [cons_consts]: "KEY_LF = 0xE4"
definition KEY_RT :: u8 where [cons_consts]: "KEY_RT = 0xE5"
definition KEY_PGUP :: u8 where [cons_consts]: "KEY_PGUP = 0xE6"
definition KEY_PGDN :: u8 where [cons_consts]: "KEY_PGDN = 0xE7"
definition KEY_INS :: u8 where [cons_consts]: "KEY_INS = 0xE8"
definition KEY_DEL :: u8 where [cons_consts]: "KEY_DEL = 0xE9"
definition SHIFT :: u32 where [cons_consts]: "SHIFT = 1"
definition CTL :: u32 where [cons_consts]: "CTL = 2"
definition ALT :: u32 where [cons_consts]: "ALT = 4"
definition CAPSLOCK :: u32 where [cons_consts]: "CAPSLOCK = 8"
definition NUMLOCK :: u32 where [cons_consts]: "NUMLOCK = 16"
definition SCROLLLOCK :: u32 where [cons_consts]: "SCROLLLOCK = 32"
definition E0ESC :: u32 where [cons_consts]: "E0ESC = 64"
definition CONSBUFSIZE :: nat where [cons_consts]: "CONSBUFSIZE = 512"

record 'd io_bus =
  bus_inb :: "u16 \<Rightarrow> 'd \<Rightarrow> u8 \<times> 'd"
  bus_outb :: "u16 \<Rightarrow> u8 \<Rightarrow> 'd \<Rightarrow> 'd"
  cga_ram :: bool

record 'd console =
  devices :: 'd
  vram :: "u64 \<Rightarrow> u16"
  irq_mask_8259A :: u16
  didinit :: bool
  serial_exists :: bool
  addr_6845 :: u16
  crt_buf :: u64
  crt_pos :: u16
  kbd_shift :: u32
  cons_buf :: "u8 list"
  cons_rpos :: u32
  cons_wpos :: u32

definition inb :: "'d io_bus \<Rightarrow> u16 \<Rightarrow> 'd console \<Rightarrow> u8 \<times> 'd console" where
  "inb bus port s = (case bus_inb bus port (devices s) of (v, d) \<Rightarrow> (v, s\<lparr>devices := d\<rparr>))"

definition outb :: "'d io_bus \<Rightarrow> u16 \<Rightarrow> u8 \<Rightarrow> 'd console \<Rightarrow> 'd console" where
  "outb bus port v s = s\<lparr>devices := bus_outb bus port v (devices s)\<rparr>"

section \<open>Interrupt controller\<close>

definition irq_setmask_8259A :: "'d io_bus \<Rightarrow> u16 \<Rightarrow> 'd console \<Rightarrow> 'd console" where
  "irq_setmask_8259A bus msk s =
     (let s = s\<lparr>irq_mask_8259A := msk\<rparr> in
      if \<not> didinit s then s
      else let s = outb bus (IO_PIC1 + 1) (ucast msk) s in
           outb bus (IO_PIC2 + 1) (ucast (drop_bit 8 msk)) s)"

definition pic_init :: "'d io_bus \<Rightarrow> 'd console \<Rightarrow> 'd console" where
  "pic_init bus s =
     (let s = s\<lparr>didinit := True\<rparr>;
          s = outb bus (IO_PIC1 + 1) 0xFF s;
          s = outb bus (IO_PIC2 + 1) 0xFF s;
          s = outb bus IO_PIC1 0x11 s;
          s = outb bus (IO_PIC1 + 1) (ucast IRQ_OFFSET) s;
          s = outb bus (IO_PIC1 + 1) (push_bit IRQ_SLAVE 1) s;
          s = outb bus (IO_PIC1 + 1) 0x3 s;
          s = outb bus IO_PIC2 0x11 s;
          s = outb bus (IO_PIC2 + 1) (ucast (IRQ_OFFSET + 8)) s;
          s = outb bus (IO_PIC2 + 1) (of_nat IRQ_SLAVE) s;
          s = outb bus (IO_PIC2 + 1) 0x01 s;
          s = outb bus IO_PIC1 0x68 s;
          s = outb bus IO_PIC1 0x0a s;
          s = outb bus IO_PIC2 0x68 s;
          s = outb bus IO_PIC2 0x0a s
      in if irq_mask_8259A s \<noteq> 0xFFFF then irq_setmask_8259A bus (irq_mask_8259A s) s else s)"

definition irq_eoi :: "'d io_bus \<Rightarrow> 'd console \<Rightarrow> 'd console" where
  "irq_eoi bus s = (let s = outb bus IO_PIC1 0x20 s in outb bus IO_PIC2 0x20 s)"

section \<open>Input buffer\<close>

text \<open>
  \<^verbatim>\<open>cons_intr\<close> runs as long as the device delivers characters; an access outside the buffer, and a device that
  never stops, have no result.
\<close>

definition cons_put :: "int \<Rightarrow> 'd console \<Rightarrow> 'd console may_panic" where
  "cons_put c s =
     (if unat (cons_wpos s) < length (cons_buf s)
      then let s = s\<lparr>cons_buf := (cons_buf s)[unat (cons_wpos s) := word_of_int c], cons_wpos := cons_wpos s + 1\<rparr> in
           Some (if cons_wpos s = of_nat CONSBUFSIZE then s\<lparr>cons_wpos := 0\<rparr> else s)
      else None)"

partial_function (option) cons_intr ::
    "('d console \<Rightarrow> int \<times> 'd console) \<Rightarrow> 'd console \<Rightarrow> 'd console option" where
  "cons_intr proc s =
     (case proc s of (c, s) \<Rightarrow>
        if c = - 1 then Some s
        else if c = 0 then cons_intr proc s
        else do { s \<leftarrow> cons_put c s; cons_intr proc s })"

section \<open>Serial port\<close>

definition delay :: "'d io_bus \<Rightarrow> 'd console \<Rightarrow> 'd console" where
  "delay bus s =
     (let (_, s) = inb bus 0x84 s; (_, s) = inb bus 0x84 s; (_, s) = inb bus 0x84 s; (_, s) = inb bus 0x84 s in s)"

definition serial_proc_data :: "'d io_bus \<Rightarrow> 'd console \<Rightarrow> int \<times> 'd console" where
  "serial_proc_data bus s =
     (let (lsr, s) = inb bus (COM1 + COM_LSR) s in
      if lsr AND COM_LSR_DATA = 0 then (- 1, s)
      else let (c, s) = inb bus (COM1 + COM_RX) s in (uint c, s))"

definition serial_intr :: "'d io_bus \<Rightarrow> 'd console \<Rightarrow> 'd console option" where
  "serial_intr bus s = (if serial_exists s then cons_intr (serial_proc_data bus) s else Some s)"

text \<open>The loop of \<^verbatim>\<open>serial_putc\<close> and \<^verbatim>\<open>lpt_putc\<close> that waits for a bit of a status port, at most 12800 rounds.\<close>

function wait_bit :: "'d io_bus \<Rightarrow> u16 \<Rightarrow> u8 \<Rightarrow> nat \<Rightarrow> 'd console \<Rightarrow> 'd console" where
  "wait_bit bus port m i s =
     (let (v, s) = inb bus port s in
      if v AND m = 0 \<and> i < 12800 then wait_bit bus port m (i + 1) (delay bus s) else s)"
  by pat_completeness auto
termination
  by (relation "measure (\<lambda>(_, _, _, i, _). 12800 - i)") auto

declare wait_bit.simps [simp del]

definition serial_putc :: "'d io_bus \<Rightarrow> u32 \<Rightarrow> 'd console \<Rightarrow> 'd console" where
  "serial_putc bus c s =
     (let s = wait_bit bus (COM1 + COM_LSR) COM_LSR_TXRDY 0 s in outb bus (COM1 + COM_TX) (ucast c) s)"

definition serial_init :: "'d io_bus \<Rightarrow> 'd console \<Rightarrow> 'd console" where
  "serial_init bus s =
     (let s = outb bus (COM1 + COM_FCR) 0 s;
          s = outb bus (COM1 + COM_LCR) COM_LCR_DLAB s;
          s = outb bus (COM1 + COM_DLL) (115200 div 9600) s;
          s = outb bus (COM1 + COM_DLM) 0 s;
          s = outb bus (COM1 + COM_LCR) (COM_LCR_WLEN8 AND NOT COM_LCR_DLAB) s;
          s = outb bus (COM1 + COM_MCR) 0 s;
          s = outb bus (COM1 + COM_IER) COM_IER_RDI s;
          (lsr, s) = inb bus (COM1 + COM_LSR) s;
          s = s\<lparr>serial_exists := lsr \<noteq> 0xFF\<rparr>;
          (_, s) = inb bus (COM1 + COM_IIR) s;
          (_, s) = inb bus (COM1 + COM_RX) s
      in if serial_exists s then irq_setmask_8259A bus (irq_mask_8259A s AND NOT (push_bit 4 1)) s else s)"

section \<open>Parallel port and display\<close>

definition lpt_putc :: "'d io_bus \<Rightarrow> u32 \<Rightarrow> 'd console \<Rightarrow> 'd console" where
  "lpt_putc bus c s =
     (let s = wait_bit bus (0x378 + 1) 0x80 0 s;
          s = outb bus (0x378 + 0) (ucast c) s;
          s = outb bus (0x378 + 2) (0x08 OR 0x04 OR 0x01) s
      in outb bus (0x378 + 2) 0x08 s)"

definition cga_init :: "'d io_bus \<Rightarrow> 'd console \<Rightarrow> 'd console" where
  "cga_init bus s =
     (let cp = KERNBASE + CGA_BUF;
          was = vram s cp;
          s = s\<lparr>vram := if cga_ram bus then (vram s)(cp := 0xA55A) else vram s\<rparr>;
          (cp, s) = (if vram s cp \<noteq> 0xA55A then (KERNBASE + MONO_BUF, s\<lparr>addr_6845 := MONO_BASE\<rparr>)
                     else (cp, s\<lparr>vram := if cga_ram bus then (vram s)(cp := was) else vram s, addr_6845 := CGA_BASE\<rparr>));
          s = outb bus (addr_6845 s) 14 s;
          (hi, s) = inb bus (addr_6845 s + 1) s;
          pos = push_bit 8 (ucast hi);
          s = outb bus (addr_6845 s) 15 s;
          (lo, s) = inb bus (addr_6845 s + 1) s;
          pos = pos OR (ucast lo :: u32)
      in s\<lparr>crt_buf := cp, crt_pos := ucast pos\<rparr>)"

definition crt_cell :: "'d console \<Rightarrow> nat \<Rightarrow> u64" where
  "crt_cell s i = crt_buf s + 2 * of_nat i"

definition set_cell :: "nat \<Rightarrow> u16 \<Rightarrow> 'd console \<Rightarrow> 'd console" where
  "set_cell i v s = s\<lparr>vram := (vram s)(crt_cell s i := v)\<rparr>"

text \<open>Scrolling by one line: \<^verbatim>\<open>memmove\<close> to a lower address, then blanks in the last line.\<close>

definition crt_scroll :: "'d console \<Rightarrow> 'd console" where
  "crt_scroll s =
     (let s = fold (\<lambda>i s. set_cell i (vram s (crt_cell s (i + CRT_COLS))) s) [0..<CRT_SIZE - CRT_COLS] s;
          s = fold (\<lambda>i s. set_cell i (0x0700 OR 0x20) s) [CRT_SIZE - CRT_COLS..<CRT_SIZE] s
      in s\<lparr>crt_pos := crt_pos s - of_nat CRT_COLS\<rparr>)"

definition crt_cursor :: "'d io_bus \<Rightarrow> 'd console \<Rightarrow> 'd console" where
  "crt_cursor bus s =
     (let s = outb bus (addr_6845 s) 14 s;
          s = outb bus (addr_6845 s + 1) (ucast (drop_bit 8 (crt_pos s))) s;
          s = outb bus (addr_6845 s) 15 s
      in outb bus (addr_6845 s + 1) (ucast (crt_pos s)) s)"

lemma attr_low [simp]: "(c OR 0x700) AND 0xFF = (c AND 0xFF :: u32)"
  by (simp add: bit.conj_disj_distrib2)

function cga_putc :: "'d io_bus \<Rightarrow> u32 \<Rightarrow> 'd console \<Rightarrow> 'd console"
    and cons_putc :: "'d io_bus \<Rightarrow> u32 \<Rightarrow> 'd console \<Rightarrow> 'd console" where
  "cga_putc bus c s =
     (let c = (if c AND NOT 0xFF = 0 then c OR 0x0700 else c);
          s = (if c AND 0xFF = 8 then
                 (if crt_pos s > 0
                  then let s = s\<lparr>crt_pos := crt_pos s - 1\<rparr> in
                       set_cell (unat (crt_pos s)) (ucast ((c AND NOT 0xFF) OR 0x20)) s
                  else s)
               else if c AND 0xFF = 10 then
                 let s = s\<lparr>crt_pos := crt_pos s + of_nat CRT_COLS\<rparr> in
                 s\<lparr>crt_pos := crt_pos s - crt_pos s mod of_nat CRT_COLS\<rparr>
               else if c AND 0xFF = 13 then s\<lparr>crt_pos := crt_pos s - crt_pos s mod of_nat CRT_COLS\<rparr>
               else if c AND 0xFF = 9 then
                 cons_putc bus 0x20 (cons_putc bus 0x20 (cons_putc bus 0x20 (cons_putc bus 0x20 (cons_putc bus 0x20 s))))
               else (set_cell (unat (crt_pos s)) (ucast c) s)\<lparr>crt_pos := crt_pos s + 1\<rparr>);
          s = (if unat (crt_pos s) \<ge> CRT_SIZE then crt_scroll s else s)
      in crt_cursor bus s)"
| "cons_putc bus c s = cga_putc bus c (lpt_putc bus c (serial_putc bus c s))"
  by pat_completeness auto

termination
  by (relation "measure (\<lambda>x. case x of Inl (_, c, _) \<Rightarrow> if c AND 0xFF = 9 then 2 else 0
    | Inr (_, c, _) \<Rightarrow> if c AND 0xFF = 9 then 3 else 1)") (auto split: if_splits)

declare cga_putc.simps [simp del] cons_putc.simps [simp del]

section \<open>Keyboard\<close>

text \<open>
  The translation tables: the values of the initialisers, in ASCII, followed by the designated entries; all other
  entries are 0.
\<close>

definition table_entry :: "u8 list \<Rightarrow> (u8 \<times> u8) list \<Rightarrow> u8 \<Rightarrow> u8" where
  "table_entry xs ds i = (case map_of ds i of Some v \<Rightarrow> v | None \<Rightarrow> if unat i < length xs then xs ! unat i else 0)"

definition shiftcode :: "u8 \<Rightarrow> u8" where
  "shiftcode = table_entry [] [(0x1D, ucast CTL), (0x2A, ucast SHIFT), (0x36, ucast SHIFT), (0x38, ucast ALT),
     (0x9D, ucast CTL), (0xB8, ucast ALT)]"

definition togglecode :: "u8 \<Rightarrow> u8" where
  "togglecode = table_entry [] [(0x3A, ucast CAPSLOCK), (0x45, ucast NUMLOCK), (0x46, ucast SCROLLLOCK)]"

definition normalmap :: "u8 \<Rightarrow> u8" where
  "normalmap = table_entry
     [0, 27, 49, 50, 51, 52, 53, 54, 55, 56, 57, 48, 45, 61, 8, 9, 113, 119, 101, 114, 116, 121, 117,
      105, 111, 112, 91, 93, 10, 0, 97, 115, 100, 102, 103, 104, 106, 107, 108, 59, 39, 96, 0, 92, 122,
      120, 99, 118, 98, 110, 109, 44, 46, 47, 0, 42, 0, 32, 0, 0, 0, 0, 0, 0, 0, 0, 0, 0, 0, 0, 0, 55,
      56, 57, 45, 52, 53, 54, 43, 49, 50, 51, 48, 46, 0, 0, 0, 0]
     [(0xC7, KEY_HOME), (0x9C, 10), (0xB5, 47), (0xC8, KEY_UP), (0xC9, KEY_PGUP), (0xCB, KEY_LF), (0xCD, KEY_RT), (0xCF, KEY_END),
        (0xD0, KEY_DN), (0xD1, KEY_PGDN), (0xD2, KEY_INS), (0xD3, KEY_DEL)]"

definition shiftmap :: "u8 \<Rightarrow> u8" where
  "shiftmap = table_entry
     [0, 27, 33, 64, 35, 36, 37, 94, 38, 42, 40, 41, 95, 43, 8, 9, 81, 87, 69, 82, 84, 89, 85, 73, 79,
      80, 123, 125, 10, 0, 65, 83, 68, 70, 71, 72, 74, 75, 76, 58, 34, 126, 0, 124, 90, 88, 67, 86, 66,
      78, 77, 60, 62, 63, 0, 42, 0, 32, 0, 0, 0, 0, 0, 0, 0, 0, 0, 0, 0, 0, 0, 55, 56, 57, 45, 52, 53,
      54, 43, 49, 50, 51, 48, 46, 0, 0, 0, 0]
     [(0xC7, KEY_HOME), (0x9C, 10), (0xB5, 47), (0xC8, KEY_UP), (0xC9, KEY_PGUP), (0xCB, KEY_LF), (0xCD, KEY_RT), (0xCF, KEY_END),
        (0xD0, KEY_DN), (0xD1, KEY_PGDN), (0xD2, KEY_INS), (0xD3, KEY_DEL)]"

definition ctlmap :: "u8 \<Rightarrow> u8" where
  "ctlmap = table_entry
     [0, 0, 0, 0, 0, 0, 0, 0, 0, 0, 0, 0, 0, 0, 0, 0, 17, 23, 5, 18, 20, 25, 21, 9, 15, 16, 0, 0, 13, 0,
      1, 19, 4, 6, 7, 8, 10, 11, 12, 0, 0, 0, 0, 28, 26, 24, 3, 22, 2, 14, 13, 0, 0, 239, 0, 0]
     [(0x97, KEY_HOME), (0xB5, 47 - 64), (0xC8, KEY_UP), (0xC9, KEY_PGUP), (0xCB, KEY_LF), (0xCD, KEY_RT), (0xCF, KEY_END),
        (0xD0, KEY_DN), (0xD1, KEY_PGDN), (0xD2, KEY_INS), (0xD3, KEY_DEL)]"

definition charcode :: "u32 \<Rightarrow> u8 \<Rightarrow> u8" where
  "charcode i = (if i = 0 then normalmap else if i = 1 then shiftmap else ctlmap)"

text \<open>The part of \<^verbatim>\<open>kbd_proc_data\<close> after a scan code has been read: the character and the new shift state.\<close>

definition kbd_decode :: "u8 \<Rightarrow> u32 \<Rightarrow> int \<times> u32" where
  "kbd_decode data sh =
     (if data = 0xE0 then (0, sh OR E0ESC)
      else if data AND 0x80 \<noteq> 0 then
        let data = (if sh AND E0ESC \<noteq> 0 then data else data AND 0x7F) in
        (0, sh AND NOT (ucast (shiftcode data) OR E0ESC))
      else
        let (data, sh) = (if sh AND E0ESC \<noteq> 0 then (data OR 0x80, sh AND NOT E0ESC) else (data, sh));
            sh = sh OR ucast (shiftcode data);
            sh = sh XOR ucast (togglecode data);
            c = uint (charcode (sh AND (CTL OR SHIFT)) data);
            c = (if sh AND CAPSLOCK \<noteq> 0
                 then if 97 \<le> c \<and> c \<le> 122 then c + (65 - 97) else if 65 \<le> c \<and> c \<le> 90 then c + (97 - 65) else c
                 else c)
        in (c, sh))"

definition kbd_proc_data :: "'d io_bus \<Rightarrow> 'd console \<Rightarrow> int \<times> 'd console" where
  "kbd_proc_data bus s =
     (let (st, s) = inb bus KBSTATP s in
      if st AND KBS_DIB = 0 then (- 1, s)
      else let (data, s) = inb bus KBDATAP s;
               (c, sh) = kbd_decode data (kbd_shift s);
               s = s\<lparr>kbd_shift := sh\<rparr>;
               s = (if data AND 0x80 = 0 \<and> NOT sh AND (CTL OR ALT) = 0 \<and> c = uint KEY_DEL then outb bus 0x92 0x3 s else s)
           in (c, s))"

definition kbd_intr :: "'d io_bus \<Rightarrow> 'd console \<Rightarrow> 'd console option" where
  "kbd_intr bus s = cons_intr (kbd_proc_data bus) s"

definition kbd_init :: "'d io_bus \<Rightarrow> 'd console \<Rightarrow> 'd console option" where
  "kbd_init bus s = do {
     s \<leftarrow> kbd_intr bus s;
     Some (irq_setmask_8259A bus (irq_mask_8259A s AND NOT (push_bit 1 1)) s) }"

section \<open>Console operations\<close>

definition cons_getc :: "'d io_bus \<Rightarrow> 'd console \<Rightarrow> (int \<times> 'd console) option" where
  "cons_getc bus s = do {
     s \<leftarrow> serial_intr bus s;
     s \<leftarrow> kbd_intr bus s;
     if cons_rpos s \<noteq> cons_wpos s then
       if unat (cons_rpos s) < length (cons_buf s)
       then let c = uint (cons_buf s ! unat (cons_rpos s));
                s = s\<lparr>cons_rpos := cons_rpos s + 1\<rparr>
            in Some (c, if cons_rpos s = of_nat CONSBUFSIZE then s\<lparr>cons_rpos := 0\<rparr> else s)
       else None
     else Some (0, s) }"

definition cons_init :: "'d io_bus \<Rightarrow> 'd console \<Rightarrow> 'd console option" where
  "cons_init bus s = do {
     s \<leftarrow> kbd_init bus (cga_init bus s);
     Some (serial_init bus s) }"

definition cputchar :: "'d io_bus \<Rightarrow> u32 \<Rightarrow> 'd console \<Rightarrow> 'd console" where
  "cputchar bus c s = cons_putc bus c s"

partial_function (option) getchar :: "'d io_bus \<Rightarrow> 'd console \<Rightarrow> (int \<times> 'd console) option" where
  "getchar bus s = do {
     (c, s) \<leftarrow> cons_getc bus s;
     if c = 0 then getchar bus s else Some (c, s) }"

definition iscons :: "int \<Rightarrow> int" where
  "iscons fdnum = 1"

section \<open>Time of day\<close>

text \<open>The tick counter of \<^verbatim>\<open>kern/time.c\<close>, whose overflow check compares the wrapped product with the counter.\<close>

definition time_init :: u32 where
  "time_init = 0"

definition time_tick :: "u32 \<Rightarrow> u32 may_panic" where
  "time_tick ticks = (let ticks = ticks + 1 in if ticks * 10 < ticks then None else Some ticks)"

definition time_msec :: "u32 \<Rightarrow> u32" where
  "time_msec ticks = ticks * 10"

end
