(* ===== verification/Console_Correct.thy ===== *)
theory Console_Correct
  imports Console
begin

text \<open>
  Correctness of the console: its input is a queue, its output a terminal of 25 lines of 80 cells.
\<close>

section \<open>The input queue\<close>

definition ring_ok :: "'d console \<Rightarrow> bool" where
  "ring_ok s \<longleftrightarrow> length (cons_buf s) = 512 \<and> unat (cons_rpos s) < 512 \<and> unat (cons_wpos s) < 512"

definition ring_len :: "'d console \<Rightarrow> nat" where
  "ring_len s = (unat (cons_wpos s) + 512 - unat (cons_rpos s)) mod 512"

text \<open>The characters that wait, oldest first.\<close>

definition pending :: "'d console \<Rightarrow> u8 list" where
  "pending s = map (\<lambda>j. cons_buf s ! ((unat (cons_rpos s) + j) mod 512)) [0..<ring_len s]"

text \<open>The 512th waiting character makes the indices equal, and all of them are lost.\<close>

definition enqueue :: "u8 list \<Rightarrow> u8 \<Rightarrow> u8 list" where
  "enqueue q x = (if length q < 511 then q @ [x] else [])"

lemma next_index:
  assumes "unat (w :: u32) < 512"
  shows "(if w + 1 = of_nat CONSBUFSIZE then 0 else w + 1) = of_nat ((unat w + 1) mod 512)"
    "unat (if w + 1 = of_nat CONSBUFSIZE then 0 else w + 1) = (unat w + 1) mod 512"
proof -
  have "w + 1 = of_nat (unat w + 1)" by simp
  moreover have "w + 1 = 512 \<longleftrightarrow> unat w = 511" using assms by (simp add: word_unat_eq_iff unat_word_ariths)
  ultimately show e: "(if w + 1 = of_nat CONSBUFSIZE then 0 else w + 1) = of_nat ((unat w + 1) mod 512)"
    using assms by (auto simp: CONSBUFSIZE_def)
  show "unat (if w + 1 = of_nat CONSBUFSIZE then 0 else w + 1) = (unat w + 1) mod 512"
    unfolding e by (simp add: unat_of_nat)
qed

lemma mod_512: "x < 1024 \<Longrightarrow> x mod 512 = (if x < 512 then x else x - 512 :: nat)"
  using le_mod_geq [of 512 x] by auto

lemma ring_index_inj: "r < 512 \<Longrightarrow> j < 512 \<Longrightarrow> k < 512 \<Longrightarrow> (r + j) mod 512 = (r + k) mod 512 \<longleftrightarrow> j = (k :: nat)"
  by (auto simp: mod_512 split: if_splits)

lemma ring_distance:
  assumes "r < 512" "w < (512 :: nat)"
  shows "((w + 1) mod 512 + 512 - r) mod 512 = (if (w + 512 - r) mod 512 = 511 then 0 else (w + 512 - r) mod 512 + 1)"
    "(r + (w + 512 - r) mod 512) mod 512 = w"
    "r \<noteq> w \<Longrightarrow> 0 < (w + 512 - r) mod 512"
    "r \<noteq> w \<Longrightarrow> (w + 512 - (r + 1) mod 512) mod 512 = (w + 512 - r) mod 512 - 1"
proof -
  have d: "(w + 512 - r) mod 512 = (if r \<le> w then w - r else w + 512 - r)"
    using assms by (auto simp: mod_512)
  show "((w + 1) mod 512 + 512 - r) mod 512 = (if (w + 512 - r) mod 512 = 511 then 0 else (w + 512 - r) mod 512 + 1)"
    using assms unfolding d by (auto simp: mod_512)
  show "(r + (w + 512 - r) mod 512) mod 512 = w" using assms unfolding d by (auto simp: mod_512)
  show "0 < (w + 512 - r) mod 512" if "r \<noteq> w" using assms that unfolding d by auto
  show "(w + 512 - (r + 1) mod 512) mod 512 = (w + 512 - r) mod 512 - 1" if "r \<noteq> w"
    using assms that unfolding d by (auto simp: mod_512)
qed

lemma length_pending [simp]: "length (pending s) = ring_len s"
  by (simp add: pending_def)

lemma ring_len_less [simp]: "ring_len s < 512"
  by (simp add: ring_len_def)

lemma cons_put_queue:
  assumes "ring_ok s"
  shows "\<exists>b w. cons_put c s = Some (s\<lparr>cons_buf := b, cons_wpos := w\<rparr>) \<and> ring_ok (s\<lparr>cons_buf := b, cons_wpos := w\<rparr>) \<and>
    pending (s\<lparr>cons_buf := b, cons_wpos := w\<rparr>) = enqueue (pending s) (word_of_int c)"
proof -
  let ?x = "word_of_int c :: u8" and ?r = "unat (cons_rpos s)" and ?w = "unat (cons_wpos s)"
  let ?b = "(cons_buf s)[?w := ?x]" and ?v = "if cons_wpos s + 1 = of_nat CONSBUFSIZE then 0 else cons_wpos s + 1"
  let ?t = "s\<lparr>cons_buf := ?b, cons_wpos := ?v\<rparr>"
  have ok: "length (cons_buf s) = 512" "?r < 512" "?w < 512" using assms by (simp_all add: ring_ok_def)
  note v = next_index(2) [OF ok(3)] and dist = ring_distance [OF ok(2,3)]
  have run: "cons_put c s = Some ?t" using ok by (simp add: cons_put_def Let_def)
  have len: "ring_len ?t = (if ring_len s = 511 then 0 else ring_len s + 1)"
    unfolding ring_len_def using v dist(1) by simp
  have at: "?b ! ((?r + j) mod 512) = (if j = ring_len s then ?x else cons_buf s ! ((?r + j) mod 512))" if "j \<le> ring_len s" for j
  proof -
    have "(?r + j) mod 512 = ?w \<longleftrightarrow> j = ring_len s"
      using ring_index_inj [OF ok(2), of j "ring_len s"] that ring_len_less [of s] dist(2) by (simp add: ring_len_def)
    moreover have "(?r + j) mod 512 < 512" by simp
    ultimately show ?thesis using ok(1,3) by (cases "j = ring_len s") simp_all
  qed
  have "pending ?t = enqueue (pending s) ?x"
  proof (cases "ring_len s = 511")
    case True
    then show ?thesis using len by (simp add: pending_def enqueue_def)
  next
    case False
    then have l: "ring_len s < 511" using ring_len_less [of s] by linarith
    have "pending ?t = map (\<lambda>j. ?b ! ((?r + j) mod 512)) [0..<ring_len s + 1]" using len False by (simp add: pending_def)
    also have "\<dots> = pending s @ [?x]" using at by (simp add: pending_def)
    finally show ?thesis using l by (simp add: enqueue_def)
  qed
  moreover have "ring_ok ?t" using ok v by (simp add: ring_ok_def)
  ultimately show ?thesis using run by blast
qed

lemma cons_take_queue:
  assumes "ring_ok s" "cons_rpos s \<noteq> cons_wpos s"
  defines "v \<equiv> if cons_rpos s + 1 = of_nat CONSBUFSIZE then 0 else cons_rpos s + 1"
  shows "pending s = cons_buf s ! unat (cons_rpos s) # pending (s\<lparr>cons_rpos := v\<rparr>)" "ring_ok (s\<lparr>cons_rpos := v\<rparr>)"
proof -
  let ?r = "unat (cons_rpos s)" and ?w = "unat (cons_wpos s)"
  have ok: "length (cons_buf s) = 512" "?r < 512" "?w < 512" "?r \<noteq> ?w"
    using assms(1,2) by (simp_all add: ring_ok_def word_unat_eq_iff)
  note v = next_index(2) [OF ok(2), folded v_def] and dist = ring_distance [OF ok(2,3)]
  have len: "ring_len (s\<lparr>cons_rpos := v\<rparr>) = ring_len s - 1" "0 < ring_len s"
    unfolding ring_len_def using v dist(3,4) ok(4) by simp_all
  have idx: "(unat v + j) mod 512 = (?r + Suc j) mod 512" for j
    unfolding v mod_add_left_eq by simp
  have tl: "pending (s\<lparr>cons_rpos := v\<rparr>) = map (\<lambda>j. cons_buf s ! ((?r + Suc j) mod 512)) [0..<ring_len s - 1]"
    unfolding pending_def len(1) using idx by simp
  have "[0..<ring_len s] = 0 # map Suc [0..<ring_len s - 1]"
    using len(2) by (simp add: upt_conv_Cons map_Suc_upt)
  then have "pending s = cons_buf s ! ((?r + 0) mod 512) # map (\<lambda>j. cons_buf s ! ((?r + Suc j) mod 512)) [0..<ring_len s - 1]"
    unfolding pending_def by (simp only: list.map map_map o_def)
  then show "pending s = cons_buf s ! ?r # pending (s\<lparr>cons_rpos := v\<rparr>)"
    unfolding tl using ok(2) by (simp only: add_0_right mod_less)
  show "ring_ok (s\<lparr>cons_rpos := v\<rparr>)" using ok v by (simp add: ring_ok_def)
qed

section \<open>Sources of characters\<close>

text \<open>A device routine that delivers the characters \<open>cs\<close>, one per call, and then has no more.\<close>

fun delivers :: "('s \<Rightarrow> int \<times> 's) \<Rightarrow> 's \<Rightarrow> int list \<Rightarrow> 's \<Rightarrow> bool" where
  "delivers proc s [] s' \<longleftrightarrow> proc s = (- 1, s')"
| "delivers proc s (c # cs) s' \<longleftrightarrow> c \<noteq> - 1 \<and> fst (proc s) = c \<and> delivers proc (snd (proc s)) cs s'"

text \<open>The characters that go into the buffer: a 0 is skipped, and what is stored is a byte.\<close>

definition chars :: "int list \<Rightarrow> u8 list" where
  "chars cs = map word_of_int (filter (\<lambda>c. c \<noteq> 0) cs)"

definition set_ring :: "u8 list \<Rightarrow> u32 \<Rightarrow> u32 \<Rightarrow> 'd console \<Rightarrow> 'd console" where
  "set_ring b r w s = s\<lparr>cons_buf := b, cons_rpos := r, cons_wpos := w\<rparr>"

lemma set_ring_simps [simp]:
  "cons_buf (set_ring b r w s) = b" "cons_rpos (set_ring b r w s) = r" "cons_wpos (set_ring b r w s) = w"
  "devices (set_ring b r w s) = devices s" "kbd_shift (set_ring b r w s) = kbd_shift s"
  "serial_exists (set_ring b r w s) = serial_exists s"
  by (simp_all add: set_ring_def)

text \<open>
  What \<^verbatim>\<open>cons_intr\<close> needs of the routine it is given: it neither looks at the buffer nor changes it.
\<close>

locale char_source =
  fixes proc :: "'d console \<Rightarrow> int \<times> 'd console"
  assumes frame: "proc (set_ring b r w s) = map_prod id (set_ring b r w) (proc s)"
begin

lemma keeps_ring:
  "cons_buf (snd (proc s)) = cons_buf s" "cons_rpos (snd (proc s)) = cons_rpos s" "cons_wpos (snd (proc s)) = cons_wpos s"
proof -
  have "set_ring (cons_buf s) (cons_rpos s) (cons_wpos s) s = s" by (simp add: set_ring_def)
  then have e: "snd (proc s) = set_ring (cons_buf s) (cons_rpos s) (cons_wpos s) (snd (proc s))"
    using arg_cong [OF frame [of "cons_buf s" "cons_rpos s" "cons_wpos s" s], of snd] by simp
  show "cons_buf (snd (proc s)) = cons_buf s" "cons_rpos (snd (proc s)) = cons_rpos s"
    "cons_wpos (snd (proc s)) = cons_wpos s"
    using arg_cong [OF e, of cons_buf] arg_cong [OF e, of cons_rpos] arg_cong [OF e, of cons_wpos] by simp_all
qed

lemma delivers_ring: "delivers proc s cs s' \<Longrightarrow> delivers proc (set_ring b r w s) cs (set_ring b r w s')"
  by (induction cs arbitrary: s) (simp_all add: frame)

lemma cons_intr_feeds:
  assumes "delivers proc s cs s'" "ring_ok s"
  shows "\<exists>b w. cons_intr proc s = Some (set_ring b (cons_rpos s) w s') \<and>
    ring_ok (set_ring b (cons_rpos s) w s') \<and> pending (set_ring b (cons_rpos s) w s') = foldl enqueue (pending s) (chars cs)"
  using assms
proof (induction cs arbitrary: s s')
  case Nil
  have "cons_buf s' = cons_buf s" "cons_rpos s' = cons_rpos s" "cons_wpos s' = cons_wpos s"
    using keeps_ring [of s] Nil(1) by simp_all
  then have "set_ring (cons_buf s) (cons_rpos s) (cons_wpos s) s' = s'" "pending s' = pending s" "ring_ok s' = ring_ok s"
    by (simp_all add: set_ring_def pending_def ring_len_def ring_ok_def)
  then show ?case
    using Nil by (intro exI [of _ "cons_buf s"] exI [of _ "cons_wpos s"]) (simp add: cons_intr.simps chars_def)
next
  case (Cons c cs)
  obtain t where c: "proc s = (c, t)" "c \<noteq> - 1" "delivers proc t cs s'"
    using Cons.prems(1) by (cases "proc s") auto
  note ring = keeps_ring [of s, unfolded c(1) snd_conv]
  have t: "ring_ok t" "pending t = pending s"
    using Cons.prems(2) ring by (simp_all add: ring_ok_def pending_def ring_len_def)
  show ?case
  proof (cases "c = 0")
    case True
    then have "cons_intr proc s = cons_intr proc t" "chars (c # cs) = chars cs"
      by (simp_all add: cons_intr.simps [of proc s] c(1) True chars_def)
    then show ?thesis using Cons.IH [OF c(3) t(1)] t(2) ring(2) by simp
  next
    case False
    obtain b w where put: "cons_put c t = Some (t\<lparr>cons_buf := b, cons_wpos := w\<rparr>)"
      "ring_ok (t\<lparr>cons_buf := b, cons_wpos := w\<rparr>)"
      "pending (t\<lparr>cons_buf := b, cons_wpos := w\<rparr>) = enqueue (pending s) (word_of_int c)"
      using cons_put_queue [OF t(1), of c] t(2) by auto
    have u: "t\<lparr>cons_buf := b, cons_wpos := w\<rparr> = set_ring b (cons_rpos s) w t"
      using ring(2) by (simp add: set_ring_def)
    have "cons_intr proc s = cons_intr proc (set_ring b (cons_rpos s) w t)"
      using put(1) False c(2) unfolding u by (simp add: cons_intr.simps [of proc s] c(1))
    moreover have "chars (c # cs) = word_of_int c # chars cs" using False by (simp add: chars_def)
    moreover have "set_ring b' r w' (set_ring b'' r'' w'' s') = set_ring b' r w' s'" for b' r w' b'' r'' w'' 
      by (simp add: set_ring_def)
    ultimately show ?thesis
      using Cons.IH [OF delivers_ring [OF c(3)], of b "cons_rpos s" w] put(2,3) unfolding u by simp
  qed
qed

end

lemma inb_ring: "inb bus port (set_ring b r w s) = map_prod id (set_ring b r w) (inb bus port s)"
  by (simp add: inb_def set_ring_def split: prod.split)

lemma outb_ring: "outb bus port v (set_ring b r w s) = set_ring b r w (outb bus port v s)"
  by (simp add: outb_def set_ring_def)

interpretation serial: char_source "serial_proc_data bus" for bus
  by unfold_locales (simp add: serial_proc_data_def inb_ring split: prod.split)

interpretation kbd: char_source "kbd_proc_data bus" for bus
proof unfold_locales
  fix b r w and s :: "'a console"
  have "(set_ring b r w s)\<lparr>kbd_shift := sh\<rparr> = set_ring b r w (s\<lparr>kbd_shift := sh\<rparr>)" for sh and s :: "'a console"
    by (simp add: set_ring_def)
  then show "kbd_proc_data bus (set_ring b r w s) = map_prod id (set_ring b r w) (kbd_proc_data bus s)"
    by (simp add: kbd_proc_data_def inb_ring outb_ring Let_def split: prod.split)
qed

section \<open>Reading a character\<close>

text \<open>
  A queue that is fed more characters than it has room for: each time 512 characters have piled up they are lost,
  and what follows remains.
\<close>

definition feed :: "u8 list \<Rightarrow> u8 list \<Rightarrow> u8 list" where
  "feed q xs = drop (512 * ((length q + length xs) div 512)) (q @ xs)"

lemma foldl_enqueue: "length q < 512 \<Longrightarrow> foldl enqueue q xs = feed q xs"
proof (induction xs arbitrary: q)
  case Nil
  then show ?case by (simp add: feed_def)
next
  case (Cons x xs)
  show ?case
  proof (cases "length q = 511")
    case True
    have "(length q + length (x # xs)) div 512 = Suc (length xs div 512)"
      using True div_add_self1 [of 512 "length xs"] by simp
    then have "feed q (x # xs) = drop (512 * (length xs div 512)) (drop 512 ((q @ [x]) @ xs))"
      unfolding feed_def drop_drop by (simp add: add.commute del: drop_append)
    also have "drop 512 ((q @ [x]) @ xs) = xs" using True by (subst drop_append) simp
    finally show ?thesis using Cons.IH [of "[]"] True by (simp add: enqueue_def feed_def)
  next
    case False
    then have "enqueue q x = q @ [x]" "length (q @ [x]) < 512" using Cons.prems by (simp_all add: enqueue_def)
    then show ?thesis using Cons.IH [of "q @ [x]"] by (simp add: feed_def)
  qed
qed

text \<open>
  C15. The console input is a queue. Let the serial port, if there is one, deliver the characters \<open>cs\<close> and then the keyboard
  the characters \<open>ks\<close> before both run dry. Then \<^verbatim>\<open>cons_getc\<close> returns, with the oldest of the waiting characters
  and the new ones, in this order, or 0 when there is none, and leaves the rest of them waiting; each time 512 characters have
  piled up, these are lost. Null characters are skipped and the indices of the circular buffer stay in range.
\<close>

theorem cons_getc_fifo:
  assumes ok: "ring_ok s"
    and ser: "if serial_exists s then delivers (serial_proc_data bus) s cs s1 else cs = [] \<and> s1 = s"
    and kb: "delivers (kbd_proc_data bus) s1 ks s2"
  defines "q \<equiv> feed (pending s) (chars cs @ chars ks)"
  shows "\<exists>t. cons_getc bus s = Some (if q = [] then 0 else uint (hd q), t) \<and> ring_ok t \<and> pending t = tl q"
proof -
  obtain b r w where 1: "serial_intr bus s = Some (set_ring b r w s1)" "ring_ok (set_ring b r w s1)"
    "pending (set_ring b r w s1) = foldl enqueue (pending s) (chars cs)"
  proof (cases "serial_exists s")
    case True
    then show thesis using serial.cons_intr_feeds [of bus s cs s1] ser ok that by (auto simp: serial_intr_def)
  next
    case False
    then show thesis using that [of "cons_buf s" "cons_rpos s" "cons_wpos s"] ser ok
      by (simp add: serial_intr_def set_ring_def chars_def)
  qed
  obtain b' r' w' where 2: "kbd_intr bus (set_ring b r w s1) = Some (set_ring b' r' w' s2)" "ring_ok (set_ring b' r' w' s2)"
    "pending (set_ring b' r' w' s2) = foldl enqueue (pending (set_ring b r w s1)) (chars ks)"
    using kbd.cons_intr_feeds [OF kbd.delivers_ring [OF kb, of b r w] 1(2)] by (auto simp: kbd_intr_def set_ring_def)
  let ?t = "set_ring b' r' w' s2"
  let ?v = "if r' + 1 = of_nat CONSBUFSIZE then 0 else r' + 1"
  have q: "pending ?t = q"
    unfolding 2(3) 1(3) q_def foldl_append [symmetric] by (rule foldl_enqueue) simp
  show ?thesis
  proof (cases "r' = w'")
    case True
    then have "q = []" unfolding q [symmetric] by (simp add: pending_def ring_len_def)
    then show ?thesis using 1(1) 2 True q by (simp add: cons_getc_def)
  next
    case False
    have b: "unat r' < length b'" using 2(2) by (simp add: ring_ok_def)
    note hd = cons_take_queue [OF 2(2)]
    have "cons_getc bus s = Some (uint (b' ! unat r'), ?t\<lparr>cons_rpos := ?v\<rparr>)"
      using 1(1) 2(1) False b by (simp add: cons_getc_def Let_def)
    then show ?thesis using hd False q by auto
  qed
qed

text \<open>A machine with a keyboard whose controller holds the scan codes in the list, and nothing else.\<close>

definition kbd_bus :: "u8 list io_bus" where
  "kbd_bus = \<lparr>bus_inb = (\<lambda>p d. if p = KBSTATP then (of_bool (d \<noteq> []), d) else if p = KBDATAP then (hd d, tl d) else (0, d)),
     bus_outb = (\<lambda>_ _ d. d), cga_ram = True\<rparr>"

definition kbd_console :: "u8 list \<Rightarrow> u32 \<Rightarrow> u8 list console" where
  "kbd_console d sh = \<lparr>devices = d, vram = (\<lambda>_. 0), irq_mask_8259A = 0xFFFB, didinit = False, serial_exists = False,
     addr_6845 = CGA_BASE, crt_buf = KERNBASE + CGA_BUF, crt_pos = 0, kbd_shift = sh, cons_buf = replicate 512 0,
     cons_rpos = 0, cons_wpos = 0\<rparr>"

lemma kbd_console_simps:
  "ring_ok (kbd_console d sh)" "pending (kbd_console d sh) = []" "\<not> serial_exists (kbd_console d sh)"
  "kbd_proc_data kbd_bus (kbd_console [] sh) = (- 1, kbd_console [] sh)"
  "kbd_proc_data kbd_bus (kbd_console (x # d) sh) = (fst (kbd_decode x sh), kbd_console d (snd (kbd_decode x sh)))"
  by (simp_all add: kbd_console_def ring_ok_def pending_def ring_len_def kbd_proc_data_def kbd_bus_def inb_def outb_def
      cons_consts case_prod_beta Let_def)

text \<open>Shift pressed, a key pressed and released, shift released, the key pressed again.\<close>

theorem cons_getc_fifo_witness:
  "\<exists>t. cons_getc kbd_bus (kbd_console [0x2A, 0x1E, 0x9E, 0xAA, 0x1E] 0) = Some (65, t) \<and> pending t = [97]"
proof -
  let ?s = "kbd_console [0x2A, 0x1E, 0x9E, 0xAA, 0x1E] 0"
  have "kbd_decode 0x2A 0 = (0, 1)" "kbd_decode 0x1E 1 = (65, 1)" "kbd_decode 0x9E 1 = (0, 1)" "kbd_decode 0xAA 1 = (0, 0)"
    "kbd_decode 0x1E 0 = (97, 0)"
    by code_simp+
  then have "delivers (kbd_proc_data kbd_bus) ?s [0, 65, 0, 0, 97] (kbd_console [] 0)"
    by (simp add: kbd_console_simps)
  then show ?thesis
    using cons_getc_fifo [of ?s kbd_bus "[]" ?s "[0, 65, 0, 0, 97]" "kbd_console [] 0"]
    by (auto simp: kbd_console_simps feed_def chars_def)
qed

section \<open>The display\<close>

definition screen :: "'d console \<Rightarrow> u16 list" where
  "screen s = map (\<lambda>i. vram s (crt_cell s i)) [0..<CRT_SIZE]"

lemma length_screen [simp]: "length (screen s) = CRT_SIZE"
  by (simp add: screen_def)

lemma CRT_SIZE_eq: "CRT_SIZE = 2000" "CRT_COLS = 80"
  by (simp_all add: cons_consts)

lemma crt_cell_inj:
  assumes "i < CRT_SIZE" "j < CRT_SIZE"
  shows "crt_cell s i = crt_cell s j \<longleftrightarrow> i = j"
proof
  assume "crt_cell s i = crt_cell s j"
  then have "(of_nat (2 * i) :: u64) = of_nat (2 * j)" by (simp add: crt_cell_def)
  moreover have "2 * i < 2 ^ 64" "2 * j < 2 ^ 64" using assms by (simp_all add: CRT_SIZE_eq)
  ultimately have "2 * i = 2 * j" 
    using of_nat_inverse [of "2 * i" "of_nat (2 * j) :: u64"] of_nat_inverse [of "2 * j" "of_nat (2 * j) :: u64"] by simp
  then show "i = j" by simp
qed simp

text \<open>Operations that write only cells of the display memory and leave the place of it and the cursor alone.\<close>

definition paints :: "('d console \<Rightarrow> 'd console) \<Rightarrow> bool" where
  "paints f \<longleftrightarrow> (\<forall>s. crt_buf (f s) = crt_buf s \<and> crt_pos (f s) = crt_pos s \<and>
     (\<forall>a. (\<forall>i < CRT_SIZE. a \<noteq> crt_cell s i) \<longrightarrow> vram (f s) a = vram s a))"

lemma crt_cell_buf: "crt_buf t = crt_buf s \<Longrightarrow> crt_cell t i = crt_cell s i"
  by (simp add: crt_cell_def)

lemma set_cell_screen:
  assumes "i < CRT_SIZE"
  shows "screen (set_cell i v s) = (screen s)[i := v]" "paints (set_cell i v)"
proof -
  have c: "crt_cell (set_cell i v s) j = crt_cell s j" for j by (simp add: set_cell_def crt_cell_def)
  show "screen (set_cell i v s) = (screen s)[i := v]"
    by (rule nth_equalityI)
      (auto simp: screen_def c nth_list_update, auto simp: set_cell_def crt_cell_inj assms)
  show "paints (set_cell i v)" using assms by (auto simp: paints_def set_cell_def)
qed

lemma paints_fold: "(\<And>i. i \<in> set xs \<Longrightarrow> paints (f i)) \<Longrightarrow> paints (fold f xs)"
proof (induction xs)
  case (Cons x xs)
  then have "paints (f x)" "paints (fold f xs)" by simp_all
  then show ?case unfolding paints_def by (simp add: crt_cell_def)
qed (simp add: paints_def)

lemma fold_shift:
  "k + d \<le> length xs \<Longrightarrow> fold (\<lambda>i xs. xs[i := xs ! (i + d)]) [0..<k] xs = take k (drop d xs) @ drop k xs"
proof (induction k)
  case (Suc k)
  then have "fold (\<lambda>i xs. xs[i := xs ! (i + d)]) [0..<Suc k] xs = (take k (drop d xs) @ drop k xs)[k := (take k (drop d xs) @ drop k xs) ! (k + d)]"
    by simp
  also have "(take k (drop d xs) @ drop k xs) ! (k + d) = xs ! (k + d)" using Suc.prems by (simp add: nth_append)
  also have "(take k (drop d xs) @ drop k xs)[k := xs ! (k + d)] = take (Suc k) (drop d xs) @ drop (Suc k) xs"
    using Suc.prems Cons_nth_drop_Suc [of k xs]
    by (simp add: list_update_append take_Suc_conv_app_nth add.commute upd_conv_take_nth_drop)
  finally show ?case .
qed simp

lemma fold_fill:
  "m + k \<le> length xs \<Longrightarrow> fold (\<lambda>i xs. xs[i := b]) [m..<m + k] xs = take m xs @ replicate k b @ drop (m + k) xs"
proof (induction k)
  case (Suc k)
  then show ?case
    by (simp add: list_update_append Cons_nth_drop_Suc [symmetric] replicate_append_same [symmetric])
qed simp

lemma screen_fold:
  "(\<And>i s. i \<in> set is \<Longrightarrow> screen (f i s) = g i (screen s)) \<Longrightarrow> screen (fold f is s) = fold g is (screen s)"
  by (induction "is" arbitrary: s) simp_all

text \<open>The terminal as it appears: the cells and the position of the cursor.\<close>

type_synonym terminal = "u16 list \<times> nat"

definition view :: "'d console \<Rightarrow> terminal" where
  "view s = (screen s, unat (crt_pos s))"

definition term_scroll :: "terminal \<Rightarrow> terminal" where
  "term_scroll v = (case v of (xs, p) \<Rightarrow> if CRT_SIZE \<le> p then (drop CRT_COLS xs @ replicate CRT_COLS 0x720, p - CRT_COLS) else (xs, p))"

definition term_step :: "u32 \<Rightarrow> terminal \<Rightarrow> terminal" where
  "term_step c v = (case v of (xs, p) \<Rightarrow>
     if c AND 0xFF = 8 then (if 0 < p then (xs[p - 1 := ucast ((c AND NOT 0xFF) OR 0x20)], p - 1) else (xs, p))
     else if c AND 0xFF = 10 then (xs, CRT_COLS * (p div CRT_COLS + 1))
     else if c AND 0xFF = 13 then (xs, CRT_COLS * (p div CRT_COLS))
     else (xs[p := ucast c], p + 1))"

definition term_plain :: "u32 \<Rightarrow> terminal \<Rightarrow> terminal" where
  "term_plain c v = term_scroll (term_step (if c AND NOT 0xFF = 0 then c OR 0x0700 else c) v)"

definition term_putc :: "u32 \<Rightarrow> terminal \<Rightarrow> terminal" where
  "term_putc c v = (if c AND 0xFF = 9 then (term_plain 0x20 ^^ 5) v else term_plain c v)"

text \<open>A state of the console that shows the view \<open>v\<close>, with the display memory of \<open>s\<close> outside the screen.\<close>

definition displays :: "'d console \<Rightarrow> terminal \<Rightarrow> 'd console \<Rightarrow> bool" where
  "displays s v t \<longleftrightarrow> view t = v \<and> crt_buf t = crt_buf s \<and>
     (\<forall>a. (\<forall>i < CRT_SIZE. a \<noteq> crt_cell s i) \<longrightarrow> vram t a = vram s a)"

lemma displays_cursor: "displays s v t \<Longrightarrow> unat (crt_pos t) = snd v"
  by (auto simp: displays_def view_def)

lemma displays_paints:
  "displays s v t \<Longrightarrow> paints f \<Longrightarrow> screen (f t) = xs \<Longrightarrow> displays s (xs, snd v) (f t)"
  by (auto simp: displays_def paints_def view_def crt_cell_def)

lemma screen_copy:
  assumes "k + CRT_COLS \<le> CRT_SIZE"
  defines "f \<equiv> \<lambda>i s. set_cell i (vram s (crt_cell s (i + CRT_COLS))) s"
  shows "screen (fold f [0..<k] s) = take k (drop CRT_COLS (screen s)) @ drop k (screen s)" "paints (fold f [0..<k])"
proof -
  have "screen (f i s) = (screen s)[i := screen s ! (i + CRT_COLS)]" if "i < k" for i s
    using that assms(1) by (simp add: f_def set_cell_screen) (simp add: screen_def)
  then have "screen (fold f [0..<k] s) = fold (\<lambda>i xs. xs[i := xs ! (i + CRT_COLS)]) [0..<k] (screen s)"
    by (intro screen_fold) simp
  then show "screen (fold f [0..<k] s) = take k (drop CRT_COLS (screen s)) @ drop k (screen s)"
    using fold_shift [of k CRT_COLS "screen s"] assms(1) by simp
  have "paints (f i)" if "i < k" for i
    using set_cell_screen(2) [of i] that assms(1) unfolding f_def paints_def by auto
  then show "paints (fold f [0..<k])" by (intro paints_fold) simp
qed

lemma screen_fill:
  assumes "m + k \<le> CRT_SIZE"
  shows "screen (fold (\<lambda>i s. set_cell i v s) [m..<m + k] s) = take m (screen s) @ replicate k v @ drop (m + k) (screen s)"
    "paints (fold (\<lambda>i s. set_cell i v s) [m..<m + k])"
proof -
  have "screen (fold (\<lambda>i s. set_cell i v s) [m..<m + k] s) = fold (\<lambda>i xs. xs[i := v]) [m..<m + k] (screen s)"
    using assms by (intro screen_fold) (auto simp: set_cell_screen)
  then show "screen (fold (\<lambda>i s. set_cell i v s) [m..<m + k] s) = take m (screen s) @ replicate k v @ drop (m + k) (screen s)"
    using fold_fill [of m k "screen s"] assms by simp
  show "paints (fold (\<lambda>i s. set_cell i v s) [m..<m + k])"
    using assms by (intro paints_fold set_cell_screen(2)) auto
qed

lemma crt_scroll_displays:
  assumes "displays s (xs, p) t" "CRT_SIZE \<le> p"
  shows "displays s (drop CRT_COLS xs @ replicate CRT_COLS 0x720, p - CRT_COLS) (crt_scroll t)"
proof -
  let ?k = "CRT_SIZE - CRT_COLS"
  let ?t1 = "fold (\<lambda>i s. set_cell i (vram s (crt_cell s (i + CRT_COLS))) s) [0..<?k] t"
  let ?t2 = "fold (\<lambda>i s. set_cell i (0x0700 OR 0x20) s) [?k..<?k + CRT_COLS] ?t1"
  have k: "?k + CRT_COLS = CRT_SIZE" "?k + CRT_COLS \<le> CRT_SIZE" by (simp_all add: CRT_SIZE_eq)
  have xs: "screen t = xs" "length xs = CRT_SIZE" "unat (crt_pos t) = p"
    using assms(1) length_screen [of t] by (auto simp: displays_def view_def)
  have 1: "screen ?t1 = drop CRT_COLS xs @ drop ?k xs" unfolding screen_copy(1) [OF k(2)] xs(1) using xs(2) by simp
  have 2: "screen ?t2 = drop CRT_COLS xs @ replicate CRT_COLS 0x720"
    using screen_fill(1) [OF k(2), of "0x0700 OR 0x20" ?t1] xs(2) unfolding 1 k(1) by simp
  have "displays s (screen ?t1, p) ?t1"
    using displays_paints [OF assms(1) screen_copy(2) [OF k(2)] refl] by simp
  then have d: "displays s (screen ?t2, p) ?t2"
    using displays_paints [OF _ screen_fill(2) [OF k(2)] refl] by fastforce
  then have "unat (crt_pos ?t2 - of_nat CRT_COLS) = p - CRT_COLS"
    using assms(2) by (simp add: displays_def view_def CRT_SIZE_eq unat_sub word_le_nat_alt)
  moreover have "crt_scroll t = ?t2\<lparr>crt_pos := crt_pos ?t2 - of_nat CRT_COLS\<rparr>"
    unfolding crt_scroll_def Let_def k(1) ..
  ultimately show ?thesis
    using d 2 by (auto simp: displays_def view_def screen_def crt_cell_def)
qed

text \<open>Operations on the devices leave the display memory alone.\<close>

definition io_only :: "('d console \<Rightarrow> 'd console) \<Rightarrow> bool" where
  "io_only f \<longleftrightarrow> (\<forall>s. \<exists>d. f s = s\<lparr>devices := d\<rparr>)"

lemma io_onlyE:
  assumes "io_only f"
  obtains d where "f s = s\<lparr>devices := d\<rparr>"
  using spec [OF assms [unfolded io_only_def], of s] by (rule exE)

lemma io_only_intros:
  "io_only (outb bus p v)" "io_only (\<lambda>s. snd (inb bus p s))" "io_only f \<Longrightarrow> io_only g \<Longrightarrow> io_only (\<lambda>s. g (f s))"
proof -
  show "io_only (outb bus p v)" "io_only (\<lambda>s. snd (inb bus p s))"
    by (auto simp: io_only_def outb_def inb_def split: prod.split)
  show "io_only (\<lambda>s. g (f s))" if hf: "io_only f" and hg: "io_only g"
    unfolding io_only_def
  proof
    fix s
    obtain d where f: "f s = s\<lparr>devices := d\<rparr>" using hf by (rule io_onlyE)
    obtain d' where "g (f s) = (f s)\<lparr>devices := d'\<rparr>" using hg by (rule io_onlyE)
    then show "\<exists>d. g (f s) = s\<lparr>devices := d\<rparr>" unfolding f by auto
  qed
qed

lemma io_only_displays:
  assumes "io_only f"
  shows "displays s v (f t) = displays s v t"
proof -
  obtain d where "f t = t\<lparr>devices := d\<rparr>" using assms by (rule io_onlyE)
  then show ?thesis by (simp add: displays_def view_def screen_def crt_cell_def)
qed

lemmas io_then = io_only_intros(3)

lemma io_only_delay: "io_only (delay bus)"
proof -
  have "delay bus = (\<lambda>s. snd (inb bus 0x84 (snd (inb bus 0x84 (snd (inb bus 0x84 (snd (inb bus 0x84 s))))))))"
    by (simp add: fun_eq_iff delay_def case_prod_beta Let_def)
  moreover note i = io_only_intros(2) [of bus "0x84"]
  ultimately show ?thesis using io_then [OF i io_then [OF i io_then [OF i i]]] by simp
qed

lemma io_only_wait_bit: "io_only (wait_bit bus port m i)"
proof (induction "12800 - i" arbitrary: i rule: less_induct)
  case less
  let ?f = "\<lambda>s. snd (inb bus port s)"
  have "io_only (\<lambda>s. wait_bit bus port m (i + 1) (delay bus (?f s)))" if "i < 12800"
    using that by (intro io_then [OF io_only_intros(2)] io_then [OF io_only_delay] less) simp
  then have more: "i < 12800 \<Longrightarrow> \<exists>d. wait_bit bus port m (i + 1) (delay bus (?f s)) = s\<lparr>devices := d\<rparr>" for s
    by (simp add: io_only_def)
  have stop: "\<exists>d. ?f s = s\<lparr>devices := d\<rparr>" for s using io_only_intros(2) [of bus port] by (simp add: io_only_def)
  have step: "wait_bit bus port m i s =
      (if fst (inb bus port s) AND m = 0 \<and> i < 12800 then wait_bit bus port m (i + 1) (delay bus (?f s)) else ?f s)" for s
    by (subst wait_bit.simps) (simp add: case_prod_beta Let_def)
  show ?case
    unfolding io_only_def
  proof
    fix s
    show "\<exists>d. wait_bit bus port m i s = s\<lparr>devices := d\<rparr>"
      using more [of s] stop [of s] unfolding step [of s] by (cases "fst (inb bus port s) AND m = 0 \<and> i < 12800") auto
  qed
qed

lemma io_only_putc: "io_only (serial_putc bus c)" "io_only (lpt_putc bus c)" "io_only (crt_cursor bus)"
proof -
  have "serial_putc bus c = (\<lambda>s. outb bus (COM1 + COM_TX) (ucast c) (wait_bit bus (COM1 + COM_LSR) COM_LSR_TXRDY 0 s))"
    by (simp add: fun_eq_iff serial_putc_def)
  then show "io_only (serial_putc bus c)" using io_then [OF io_only_wait_bit io_only_intros(1)] by simp
  have "lpt_putc bus c = (\<lambda>s. outb bus (0x378 + 2) 0x08 (outb bus (0x378 + 2) (0x08 OR 0x04 OR 0x01)
      (outb bus (0x378 + 0) (ucast c) (wait_bit bus (0x378 + 1) 0x80 0 s))))"
    by (simp add: fun_eq_iff lpt_putc_def)
  then show "io_only (lpt_putc bus c)"
    using io_then [OF io_then [OF io_then [OF io_only_wait_bit io_only_intros(1)] io_only_intros(1)] io_only_intros(1)] by simp
  show "io_only (crt_cursor bus)" by (auto simp: io_only_def crt_cursor_def outb_def Let_def)
qed

section \<open>Printing a character\<close>

lemma unat_line: "unat (x - x mod of_nat CRT_COLS :: u16) = CRT_COLS * (unat x div CRT_COLS)"
proof -
  have "unat (x mod of_nat CRT_COLS) = unat x mod CRT_COLS" by (simp add: unat_mod CRT_SIZE_eq)
  moreover from this have "x mod of_nat CRT_COLS \<le> x" by (simp add: word_le_nat_alt)
  ultimately have "unat (x - x mod of_nat CRT_COLS) = unat x - unat x mod CRT_COLS" by (simp only: unat_sub)
  then show ?thesis by (simp only: minus_mod_eq_mult_div)
qed

lemma unat_pos_add: "unat (x :: u16) < CRT_SIZE \<Longrightarrow> unat (x + 1) = unat x + 1"
    "unat (x :: u16) < CRT_SIZE \<Longrightarrow> unat (x + of_nat CRT_COLS) = unat x + CRT_COLS"
  by (simp_all add: unat_word_ariths CRT_SIZE_eq)

lemma displays_pos: "displays s (xs, p) t \<Longrightarrow> displays s (xs, unat q) (t\<lparr>crt_pos := q\<rparr>)"
  by (auto simp: displays_def view_def screen_def crt_cell_def)

lemma displays_cell: "displays s (xs, p) t \<Longrightarrow> i < CRT_SIZE \<Longrightarrow> displays s (xs[i := v], p) (set_cell i v t)"
  using displays_paints [of s "(xs, p)" t "set_cell i v"] set_cell_screen [of i v]
  by (auto simp: displays_def view_def)

definition cga_step :: "u32 \<Rightarrow> 'd console \<Rightarrow> 'd console" where
  "cga_step c s =
     (if c AND 0xFF = 8 then
        (if crt_pos s > 0
         then set_cell (unat (crt_pos s - 1)) (ucast ((c AND NOT 0xFF) OR 0x20)) (s\<lparr>crt_pos := crt_pos s - 1\<rparr>)
         else s)
      else if c AND 0xFF = 10 then
        s\<lparr>crt_pos := (crt_pos s + of_nat CRT_COLS) - (crt_pos s + of_nat CRT_COLS) mod of_nat CRT_COLS\<rparr>
      else if c AND 0xFF = 13 then s\<lparr>crt_pos := crt_pos s - crt_pos s mod of_nat CRT_COLS\<rparr>
      else (set_cell (unat (crt_pos s)) (ucast c) s)\<lparr>crt_pos := crt_pos s + 1\<rparr>)"

lemma cga_step_displays:
  assumes "displays s (xs, p) t" "p < CRT_SIZE"
  shows "displays s (term_step c (xs, p)) (cga_step c t)"
proof -
  have p: "unat (crt_pos t) = p" using assms(1) by (simp add: displays_def view_def)
  note pos = displays_pos [OF assms(1)] and cell = displays_cell [OF assms(1), THEN displays_pos]
  have left: "displays s (xs[p - 1 := v], p - 1) (set_cell (unat (crt_pos t - 1)) v (t\<lparr>crt_pos := crt_pos t - 1\<rparr>))" if "0 < p" for v
  proof -
    have "unat (crt_pos t - 1) = p - 1" using that p by (simp add: unat_sub word_le_nat_alt)
    then show ?thesis using displays_cell [OF pos [of "crt_pos t - 1"], of "p - 1" v] assms(2) by simp
  qed
  have nl: "unat ((crt_pos t + of_nat CRT_COLS) - (crt_pos t + of_nat CRT_COLS) mod of_nat CRT_COLS) = CRT_COLS * (p div CRT_COLS + 1)"
    unfolding unat_line using unat_pos_add(2) [of "crt_pos t"] p assms(2) div_add_self2 [of 80 p] by (simp add: CRT_SIZE_eq)
  have cr: "unat (crt_pos t - crt_pos t mod of_nat CRT_COLS) = CRT_COLS * (p div CRT_COLS)"
    using unat_line [of "crt_pos t"] p by simp
  have right: "unat (crt_pos t + 1) = p + 1" using unat_pos_add(1) [of "crt_pos t"] p assms(2) by simp
  have gt: "crt_pos t > 0 \<longleftrightarrow> 0 < p" using p by (simp add: word_less_nat_alt)
  show ?thesis
    using assms(1) left p
      pos [of "(crt_pos t + of_nat CRT_COLS) - (crt_pos t + of_nat CRT_COLS) mod of_nat CRT_COLS", unfolded nl]
      pos [of "crt_pos t - crt_pos t mod of_nat CRT_COLS", unfolded cr]
      cell [OF assms(2), of "ucast c" "crt_pos t + 1", unfolded right]
    by (cases "0 < p") (simp_all add: term_step_def cga_step_def gt)
qed

lemma term_plain_bound: "p < CRT_SIZE \<Longrightarrow> snd (term_plain c (xs, p)) < CRT_SIZE"
proof -
  assume p: "p < CRT_SIZE"
  have "80 * (p div 80) \<le> p" by simp
  then show ?thesis
    using p by (auto simp: term_plain_def term_step_def term_scroll_def CRT_SIZE_eq)
qed

lemma cga_putc_plain:
  assumes "displays s v t" "snd v < CRT_SIZE" "c AND 0xFF \<noteq> 9"
  shows "displays s (term_plain c v) (cga_putc bus c t)"
proof -
  let ?c = "if c AND NOT 0xFF = 0 then c OR 0x0700 else c"
  let ?t = "cga_step ?c t"
  obtain xs p where v: "v = (xs, p)" by (cases v)
  have low: "?c AND 0xFF = c AND 0xFF" by simp
  have d: "displays s (term_step ?c v) ?t" using cga_step_displays [of s xs p t ?c] assms(1,2) v by simp
  obtain ys q where w: "term_step ?c v = (ys, q)" by fastforce
  have q: "unat (crt_pos ?t) = q" using d w by (simp add: displays_def view_def)
  have "displays s (term_plain c v) (if CRT_SIZE \<le> unat (crt_pos ?t) then crt_scroll ?t else ?t)"
    using d crt_scroll_displays [of s ys q ?t] unfolding term_plain_def w q by (simp add: term_scroll_def)
  moreover have "cga_putc bus c t = crt_cursor bus (if CRT_SIZE \<le> unat (crt_pos ?t) then crt_scroll ?t else ?t)"
    using assms(3) low by (simp add: cga_putc.simps [of bus c t] cga_step_def Let_def)
  ultimately show ?thesis using io_only_displays [OF io_only_putc(3)] by metis
qed

lemma cons_putc_plain:
  assumes "displays s v t" "snd v < CRT_SIZE" "c AND 0xFF \<noteq> 9"
  shows "displays s (term_plain c v) (cons_putc bus c t)" "snd (term_plain c v) < CRT_SIZE"
proof -
  have "displays s v (lpt_putc bus c (serial_putc bus c t))"
    using assms(1) by (simp add: io_only_displays io_only_putc)
  then show "displays s (term_plain c v) (cons_putc bus c t)"
    unfolding cons_putc.simps [of bus c t] by (rule cga_putc_plain [OF _ assms(2,3)])
  show "snd (term_plain c v) < CRT_SIZE" using term_plain_bound [of "snd v" c "fst v"] assms(2) by simp
qed

lemma cga_putc_tab:
  assumes "displays s v t" "snd v < CRT_SIZE" "c AND 0xFF = 9"
  shows "displays s ((term_plain 0x20 ^^ 5) v) (cga_putc bus c t)" "snd ((term_plain 0x20 ^^ 5) v) < CRT_SIZE"
proof -
  let ?p = "cons_putc bus 0x20"
  have sp: "(0x20 :: u32) AND 0xFF \<noteq> 9" by simp
  have "displays s ((term_plain 0x20 ^^ n) v) ((?p ^^ n) t) \<and> snd ((term_plain 0x20 ^^ n) v) < CRT_SIZE" for n
  proof (induction n)
    case (Suc n)
    then show ?case using cons_putc_plain [OF conjunct1 [OF Suc.IH] conjunct2 [OF Suc.IH] sp] by simp
  qed (use assms(1,2) in simp)
  from this [of 5] have d: "displays s ((term_plain 0x20 ^^ 5) v) ((?p ^^ 5) t)"
    and b: "snd ((term_plain 0x20 ^^ 5) v) < CRT_SIZE" by blast+
  have "unat (crt_pos ((?p ^^ 5) t)) < CRT_SIZE" using displays_cursor [OF d] b by simp
  moreover have "(?p ^^ 5) t = ?p (?p (?p (?p (?p t))))" by (simp add: numeral_eq_Suc)
  ultimately have "cga_putc bus c t = crt_cursor bus ((?p ^^ 5) t)"
    using assms(3) by (simp add: cga_putc.simps [of bus c t] Let_def)
  then show "displays s ((term_plain 0x20 ^^ 5) v) (cga_putc bus c t)"
    using d io_only_displays [OF io_only_putc(3)] by metis
  show "snd ((term_plain 0x20 ^^ 5) v) < CRT_SIZE" by (fact b)
qed

text \<open>
  C16. The console output is a terminal of 25 lines of 80 cells. Whatever the devices answer, \<^verbatim>\<open>cons_putc\<close> changes the screen and
  the cursor as the terminal does: a backspace blanks the cell before the cursor, a line feed and a carriage return move it to the
  start of the next and of the current line, a tab prints five blanks, any other character is written at the cursor; at the
  end of the last line the screen moves up by a line. The cursor stays on the screen, and no cell outside it is written.
\<close>

theorem cons_putc_terminal:
  assumes "unat (crt_pos s) < CRT_SIZE"
  shows "view (cons_putc bus c s) = term_putc c (view s) \<and> unat (crt_pos (cons_putc bus c s)) < CRT_SIZE \<and>
    crt_buf (cons_putc bus c s) = crt_buf s \<and>
    (\<forall>a. (\<forall>i < CRT_SIZE. a \<noteq> crt_cell s i) \<longrightarrow> vram (cons_putc bus c s) a = vram s a)"
proof -
  have s: "displays s (view s) s" "snd (view s) < CRT_SIZE" using assms by (simp_all add: displays_def view_def)
  have d: "displays s (term_putc c (view s)) (cons_putc bus c s) \<and> snd (term_putc c (view s)) < CRT_SIZE"
  proof (cases "c AND 0xFF = 9")
    case True
    have "displays s (view s) (lpt_putc bus c (serial_putc bus c s))"
      using s(1) by (simp add: io_only_displays io_only_putc)
    from cga_putc_tab [OF this s(2) True] show ?thesis
      using True by (simp add: term_putc_def cons_putc.simps [of bus c s])
  next
    case False
    then show ?thesis using cons_putc_plain [OF s False] by (simp add: term_putc_def)
  qed
  then have "unat (crt_pos (cons_putc bus c s)) < CRT_SIZE" using displays_cursor by metis
  then show ?thesis using d by (auto simp: displays_def)
qed

text \<open>A character in the last cell of the last line.\<close>

theorem cons_putc_terminal_witness:
  "view (cons_putc kbd_bus 0x41 ((kbd_console [] 0)\<lparr>crt_pos := 1999\<rparr>)) =
     (replicate 1919 0 @ [0x741] @ replicate 80 0x720, 1920)"
proof -
  let ?s = "(kbd_console [] 0)\<lparr>crt_pos := 1999\<rparr>"
  have v: "view ?s = (replicate 1999 0 @ [0], 1999)"
    using replicate_add [of 1999 1 "0 :: u16"]
    by (simp add: view_def screen_def kbd_console_def map_replicate_const CRT_SIZE_eq)
  have "term_putc 0x41 (replicate 1999 0 @ [0], 1999) = (replicate 1919 0 @ [0x741] @ replicate 80 0x720, 1920)"
    by (simp add: term_putc_def term_plain_def term_step_def term_scroll_def CRT_SIZE_eq list_update_append)
  moreover have "unat (crt_pos ?s) < CRT_SIZE" by (simp add: CRT_SIZE_eq)
  ultimately show ?thesis using cons_putc_terminal [of ?s kbd_bus "0x41"] v by metis
qed

section \<open>Keyboard and time\<close>

text \<open>What the keyboard routine delivers is a byte, so it never ends a loop of \<^verbatim>\<open>cons_intr\<close> early.\<close>

lemma kbd_decode_byte: "0 \<le> fst (kbd_decode x sh) \<and> fst (kbd_decode x sh) < 256"
proof -
  have "0 \<le> uint (y :: u8)" "uint y < 256" for y :: u8 using uint_bounded [of y] by simp_all
  then show ?thesis by (auto simp: kbd_decode_def Let_def case_prod_beta)
qed

text \<open>A control key together with the key that \<^verbatim>\<open>normalmap\<close> and \<^verbatim>\<open>shiftmap\<close> translate to \<^verbatim>\<open>KEY_HOME\<close> yields nothing.\<close>

lemma ctlmap_home: "normalmap 0xC7 = KEY_HOME" "shiftmap 0xC7 = KEY_HOME" "ctlmap 0xC7 = 0"
  by code_simp+

text \<open>The overflow check of \<^verbatim>\<open>time_tick\<close> is exact: since the counter grows by one, the first product that wraps is caught.\<close>

fun ticks_after :: "nat \<Rightarrow> u32 may_panic" where
  "ticks_after 0 = Some time_init"
| "ticks_after (Suc n) = do { t \<leftarrow> ticks_after n; time_tick t }"

lemma ticks_after_eq:
  "ticks_after n = (if n \<le> 429496729 then Some (of_nat n) else None)"
proof (induction n)
  case (Suc n)
  have "unat (of_nat (Suc n) :: u32) = Suc n" "unat (of_nat (Suc n) * 10 :: u32) = Suc n * 10 mod 2 ^ 32" if "n \<le> 429496729"
    using that by (simp_all add: unat_of_nat unat_word_ariths)
  then have "time_tick (of_nat n) = (if n < 429496729 then Some (of_nat (Suc n)) else None)" if "n \<le> 429496729"
    using that by (auto simp: time_tick_def Let_def word_less_nat_alt add.commute)
  then show ?case using Suc by auto
qed (simp add: time_init_def)

end
