(* ===== verification/Str_Lib.thy ===== *)
theory Str_Lib
  imports Prelude
begin

text \<open>
  The string routines of \<^verbatim>\<open>lib/string.c\<close>, shared by the kernel and user programs, over a memory of bytes. A routine
  that looks for the end of a string has no result when there is none. The assembly versions of \<^verbatim>\<open>memset\<close> and
  \<^verbatim>\<open>memmove\<close> are modelled, with the string instructions as loops over their count register.
\<close>

type_synonym bmem = "u64 \<Rightarrow> u8"

section \<open>Length and copying\<close>

partial_function (option) strlen_loop :: "bmem \<Rightarrow> u64 \<Rightarrow> u32 \<Rightarrow> u32 option" where
  "strlen_loop m s n = (if m s \<noteq> 0 then strlen_loop m (s + 1) (n + 1) else Some n)"

definition strlen :: "bmem \<Rightarrow> u64 \<Rightarrow> u32 option" where
  "strlen m s = strlen_loop m s 0"

function strnlen_loop :: "bmem \<Rightarrow> u64 \<Rightarrow> u64 \<Rightarrow> u32 \<Rightarrow> u32" where
  "strnlen_loop m s sz n = (if sz > 0 \<and> m s \<noteq> 0 then strnlen_loop m (s + 1) (sz - 1) (n + 1) else n)"
  by pat_completeness auto
termination
  by (relation "measure (\<lambda>(_, _, sz, _). unat sz)") (auto intro: measure_unat)

definition strnlen :: "bmem \<Rightarrow> u64 \<Rightarrow> u64 \<Rightarrow> u32" where
  "strnlen m s sz = strnlen_loop m s sz 0"

partial_function (option) strcpy_loop :: "bmem \<Rightarrow> u64 \<Rightarrow> u64 \<Rightarrow> bmem option" where
  "strcpy_loop m dst src =
     (let c = m src; m = m(dst := c) in if c \<noteq> 0 then strcpy_loop m (dst + 1) (src + 1) else Some m)"

definition strcpy :: "bmem \<Rightarrow> u64 \<Rightarrow> u64 \<Rightarrow> (u64 \<times> bmem) option" where
  "strcpy m dst src = do { m \<leftarrow> strcpy_loop m dst src; Some (dst, m) }"

definition strcat :: "bmem \<Rightarrow> u64 \<Rightarrow> u64 \<Rightarrow> (u64 \<times> bmem) option" where
  "strcat m dst src = do {
     len \<leftarrow> strlen m dst;
     (_, m) \<leftarrow> strcpy m (dst + scast len) src;
     Some (dst, m) }"

text \<open>The counter of \<^verbatim>\<open>strncpy\<close> runs upwards; here it is the number of bytes that are left.\<close>

function strncpy_loop :: "bmem \<Rightarrow> u64 \<Rightarrow> u64 \<Rightarrow> u64 \<Rightarrow> bmem" where
  "strncpy_loop m dst src left =
     (if left > 0
      then let m = m(dst := m src) in strncpy_loop m (dst + 1) (if m src \<noteq> 0 then src + 1 else src) (left - 1)
      else m)"
  by pat_completeness auto
termination
  by (relation "measure (\<lambda>(_, _, _, left). unat left)") (auto intro: measure_unat)

definition strncpy :: "bmem \<Rightarrow> u64 \<Rightarrow> u64 \<Rightarrow> u64 \<Rightarrow> u64 \<times> bmem" where
  "strncpy m dst src sz = (dst, strncpy_loop m dst src sz)"

text \<open>The loop of \<^verbatim>\<open>strlcpy\<close>, with the value of \<^verbatim>\<open>size\<close> after the decrement in its condition.\<close>

function strlcpy_loop :: "bmem \<Rightarrow> u64 \<Rightarrow> u64 \<Rightarrow> u64 \<Rightarrow> u64 \<times> bmem" where
  "strlcpy_loop m dst src sz =
     (if sz > 0 \<and> m src \<noteq> 0 then strlcpy_loop (m(dst := m src)) (dst + 1) (src + 1) (sz - 1)
      else (dst, m(dst := 0)))"
  by pat_completeness auto
termination
  by (relation "measure (\<lambda>(_, _, _, sz). unat sz)") (auto intro: measure_unat)

definition strlcpy :: "bmem \<Rightarrow> u64 \<Rightarrow> u64 \<Rightarrow> u64 \<Rightarrow> u64 \<times> bmem" where
  "strlcpy m dst src sz =
     (if sz > 0 then let (d, m) = strlcpy_loop m dst src (sz - 1) in (d - dst, m) else (0, m))"

section \<open>Comparison and search\<close>

partial_function (option) strcmp :: "bmem \<Rightarrow> u64 \<Rightarrow> u64 \<Rightarrow> int option" where
  "strcmp m p q =
     (if m p \<noteq> 0 \<and> m p = m q then strcmp m (p + 1) (q + 1) else Some (uint (m p) - uint (m q)))"

function strncmp :: "bmem \<Rightarrow> u64 \<Rightarrow> u64 \<Rightarrow> u64 \<Rightarrow> int" where
  "strncmp m p q n =
     (if n > 0 \<and> m p \<noteq> 0 \<and> m p = m q then strncmp m (p + 1) (q + 1) (n - 1)
      else if n = 0 then 0 else uint (m p) - uint (m q))"
  by pat_completeness auto
termination
  by (relation "measure (\<lambda>(_, _, _, n). unat n)") (auto intro: measure_unat)

partial_function (option) strchr :: "bmem \<Rightarrow> u64 \<Rightarrow> u8 \<Rightarrow> u64 option" where
  "strchr m s c = (if m s \<noteq> 0 then if m s = c then Some s else strchr m (s + 1) c else Some 0)"

partial_function (option) strfind :: "bmem \<Rightarrow> u64 \<Rightarrow> u8 \<Rightarrow> u64 option" where
  "strfind m s c = (if m s \<noteq> 0 then if m s = c then Some s else strfind m (s + 1) c else Some s)"

function memcmp :: "bmem \<Rightarrow> u64 \<Rightarrow> u64 \<Rightarrow> u64 \<Rightarrow> int" where
  "memcmp m s1 s2 n =
     (if n > 0 then if m s1 \<noteq> m s2 then uint (m s1) - uint (m s2) else memcmp m (s1 + 1) (s2 + 1) (n - 1) else 0)"
  by pat_completeness auto
termination
  by (relation "measure (\<lambda>(_, _, _, n). unat n)") (auto intro: measure_unat)

function memfind_loop :: "bmem \<Rightarrow> u64 \<Rightarrow> u32 \<Rightarrow> u64 \<Rightarrow> u64" where
  "memfind_loop m s c ends =
     (if s < ends then if m s = ucast c then s else memfind_loop m (s + 1) c ends else s)"
  by pat_completeness auto
termination
proof (relation "measure (\<lambda>(_, s, _, ends). unat (ends - s))")
  fix m :: bmem and s ends :: u64 and c :: u32
  assume "s < ends"
  then have "unat (ends - s - 1) < unat (ends - s)" by (intro measure_unat) auto
  then have "unat (ends - (s + 1)) < unat (ends - s)" by (simp only: diff_diff_eq)
  then show "((m, s + 1, c, ends), m, s, c, ends) \<in> measure (\<lambda>(_, s, _, ends). unat (ends - s))"
    by simp
qed simp

declare strnlen_loop.simps [simp del] strncpy_loop.simps [simp del] strlcpy_loop.simps [simp del] strncmp.simps [simp del]
  memcmp.simps [simp del] memfind_loop.simps [simp del]

definition memfind :: "bmem \<Rightarrow> u64 \<Rightarrow> u32 \<Rightarrow> u64 \<Rightarrow> u64" where
  "memfind m s c n = memfind_loop m s c (s + n)"

partial_function (option) strstr_loop :: "bmem \<Rightarrow> u64 \<Rightarrow> u8 \<Rightarrow> u64 \<Rightarrow> u64 \<Rightarrow> u64 option" where
  "strstr_loop m p c str len =
     (let sc = m p; p = p + 1 in
      if sc = 0 then Some 0
      else if sc \<noteq> c then strstr_loop m p c str len
      else if strncmp m p str len \<noteq> 0 then strstr_loop m p c str len
      else Some (p - 1))"

definition strstr :: "bmem \<Rightarrow> u64 \<Rightarrow> u64 \<Rightarrow> u64 option" where
  "strstr m p str =
     (let c = m str; str = str + 1 in
      if c = 0 then Some p else do { len \<leftarrow> strlen m str; strstr_loop m p c str (scast len) })"

section \<open>Block operations\<close>

text \<open>
  The string instructions with a repeat prefix: \<open>k\<close> is the count register, \<open>step\<close> what each round adds to the
  address registers.
\<close>

definition load4 :: "bmem \<Rightarrow> u64 \<Rightarrow> u8 list" where
  "load4 m s = [m s, m (s + 1), m (s + 2), m (s + 3)]"

definition store4 :: "u64 \<Rightarrow> u8 list \<Rightarrow> bmem \<Rightarrow> bmem" where
  "store4 d v m = m(d := v ! 0, d + 1 := v ! 1, d + 2 := v ! 2, d + 3 := v ! 3)"

definition bytes4 :: "u32 \<Rightarrow> u8 list" where
  "bytes4 v = [ucast v, ucast (drop_bit 8 v), ucast (drop_bit 16 v), ucast (drop_bit 24 v)]"

fun stosb :: "bmem \<Rightarrow> u64 \<Rightarrow> u8 \<Rightarrow> nat \<Rightarrow> bmem" where
  "stosb m d v 0 = m"
| "stosb m d v (Suc k) = stosb (m(d := v)) (d + 1) v k"

fun stosl :: "bmem \<Rightarrow> u64 \<Rightarrow> u32 \<Rightarrow> nat \<Rightarrow> bmem" where
  "stosl m d v 0 = m"
| "stosl m d v (Suc k) = stosl (store4 d (bytes4 v) m) (d + 4) v k"

fun movsb :: "bmem \<Rightarrow> u64 \<Rightarrow> u64 \<Rightarrow> u64 \<Rightarrow> nat \<Rightarrow> bmem" where
  "movsb m d s step 0 = m"
| "movsb m d s step (Suc k) = movsb (m(d := m s)) (d + step) (s + step) step k"

fun movsl :: "bmem \<Rightarrow> u64 \<Rightarrow> u64 \<Rightarrow> u64 \<Rightarrow> nat \<Rightarrow> bmem" where
  "movsl m d s step 0 = m"
| "movsl m d s step (Suc k) = movsl (store4 d (load4 m s) m) (d + step) (s + step) step k"

definition memset :: "bmem \<Rightarrow> u64 \<Rightarrow> u32 \<Rightarrow> u64 \<Rightarrow> u64 \<times> bmem" where
  "memset m v c n =
     (if n = 0 then (v, m)
      else if v mod 4 = 0 \<and> n mod 4 = 0
      then let c = c AND 0xFF; c = push_bit 24 c OR push_bit 16 c OR push_bit 8 c OR c in
           (v, stosl m v c (unat (n div 4)))
      else (v, stosb m v (ucast c) (unat n)))"

definition memmove :: "bmem \<Rightarrow> u64 \<Rightarrow> u64 \<Rightarrow> u64 \<Rightarrow> u64 \<times> bmem" where
  "memmove m dst src n =
     (let s = src; d = dst in
      if s < d \<and> s + n > d
      then let s = s + n; d = d + n in
           if s mod 4 = 0 \<and> d mod 4 = 0 \<and> n mod 4 = 0
           then (dst, movsl m (d - 4) (s - 4) (- 4) (unat (n div 4)))
           else (dst, movsb m (d - 1) (s - 1) (- 1) (unat n))
      else if s mod 4 = 0 \<and> d mod 4 = 0 \<and> n mod 4 = 0
           then (dst, movsl m d s 4 (unat (n div 4)))
           else (dst, movsb m d s 1 (unat n)))"

definition memcpy :: "bmem \<Rightarrow> u64 \<Rightarrow> u64 \<Rightarrow> u64 \<Rightarrow> u64 \<times> bmem" where
  "memcpy m dst src n = memmove m dst src n"

section \<open>Numbers\<close>

definition digit :: "u8 \<Rightarrow> int option" where
  "digit c =
     (if 48 \<le> c \<and> c \<le> 57 then Some (uint c - 48)
      else if 97 \<le> c \<and> c \<le> 122 then Some (uint c - 97 + 10)
      else if 65 \<le> c \<and> c \<le> 90 then Some (uint c - 65 + 10)
      else None)"

partial_function (option) skip_blanks :: "bmem \<Rightarrow> u64 \<Rightarrow> u64 option" where
  "skip_blanks m s = (if m s = 32 \<or> m s = 9 then skip_blanks m (s + 1) else Some s)"

partial_function (option) strtol_digits :: "bmem \<Rightarrow> u64 \<Rightarrow> int \<Rightarrow> u64 \<Rightarrow> (u64 \<times> u64) option" where
  "strtol_digits m s base val =
     (case digit (m s) of
        None \<Rightarrow> Some (val, s)
      | Some dig \<Rightarrow>
          if dig \<ge> base then Some (val, s)
          else strtol_digits m (s + 1) base (val * word_of_int base + word_of_int dig))"

text \<open>The result, a \<^verbatim>\<open>long\<close> in two's complement, and the end pointer.\<close>

definition strtol :: "bmem \<Rightarrow> u64 \<Rightarrow> int \<Rightarrow> (u64 \<times> u64) option" where
  "strtol m s base = do {
     s \<leftarrow> skip_blanks m s;
     let (s, neg) = (if m s = 43 then (s + 1, False) else if m s = 45 then (s + 1, True) else (s, False));
     let (s, base) =
       (if (base = 0 \<or> base = 16) \<and> m s = 48 \<and> m (s + 1) = 120 then (s + 2, 16)
        else if base = 0 \<and> m s = 48 then (s + 1, 8)
        else if base = 0 then (s, 10) else (s, base));
     (val, s) \<leftarrow> strtol_digits m s base 0;
     Some (if neg then - val else val, s) }"

end
