(* ===== verification/Print_Fmt.thy ===== *)
theory Print_Fmt
  imports Str_Lib Console
begin

text \<open>
  Formatted output: \<^verbatim>\<open>lib/printfmt.c\<close>, the kernel's \<^verbatim>\<open>cprintf\<close> of \<^verbatim>\<open>kern/printf.c\<close>, and the buffered output
  of user programs in \<^verbatim>\<open>lib/printf.c\<close> and \<^verbatim>\<open>lib/fprintf.c\<close>. The function \<^verbatim>\<open>putch\<close> and its \<^verbatim>\<open>putdat\<close>
  are a function on a state. Format strings and string arguments are values, the bytes before the terminating null: the code
  never writes to them. A number is an argument slot of 64 bits. \<open>None\<close> stands for arguments that do not fit the format, for an
  index outside \<^verbatim>\<open>error_string\<close> and for the infinite recursion of \<^verbatim>\<open>printnum\<close> at a base below two.
\<close>

abbreviation c8 :: "char \<Rightarrow> u8" where
  "c8 \<equiv> of_char"

abbreviation str :: "string \<Rightarrow> u8 list" where
  "str \<equiv> List.map of_char"

section \<open>Arguments\<close>

datatype va_item = Va_Int u64 | Va_Str "u8 list option"

fun va_int :: "va_item list \<Rightarrow> (u64 \<times> va_item list) option" where
  "va_int (Va_Int x # ap) = Some (x, ap)"
| "va_int _ = None"

fun va_str :: "va_item list \<Rightarrow> (u8 list option \<times> va_item list) option" where
  "va_str (Va_Str p # ap) = Some (p, ap)"
| "va_str _ = None"

definition getuint :: "va_item list \<Rightarrow> int \<Rightarrow> (u64 \<times> va_item list) option" where
  "getuint ap lflag = do {
     (x, ap) \<leftarrow> va_int ap;
     Some (if lflag \<ge> 2 then x else if lflag \<noteq> 0 then x else ucast (ucast x :: u32), ap) }"

definition getint :: "va_item list \<Rightarrow> int \<Rightarrow> (u64 \<times> va_item list) option" where
  "getint ap lflag = do {
     (x, ap) \<leftarrow> va_int ap;
     Some (if lflag \<ge> 2 then x else if lflag \<noteq> 0 then x else scast (ucast x :: u32), ap) }"

definition MAXERROR :: int where
  "MAXERROR = 22"

definition error_string :: "u8 list option list" where
  "error_string =
    [None,
     Some (str ''unspecified error''),
     Some (str ''bad environment''),
     Some (str ''invalid parameter''),
     Some (str ''out of memory''),
     Some (str ''out of environments''),
     Some (str ''segmentation fault''),
     None,
     Some (str ''env is not recving''),
     Some (str ''unexpected end of file''),
     Some (str ''no free space on disk''),
     Some (str ''too many files are open''),
     Some (str ''file or block not found''),
     Some (str ''invalid path''),
     Some (str ''file already exists''),
     Some (str ''file is not a valid executable''),
     Some (str ''operation not supported''),
     None, None, None, None, None]"

section \<open>Numbers and strings\<close>

definition digit_chars :: "u8 list" where
  "digit_chars = str ''0123456789abcdef''"

function pad_before :: "(u32 \<Rightarrow> 's \<Rightarrow> 's) \<Rightarrow> u8 \<Rightarrow> int \<Rightarrow> 's \<Rightarrow> 's" where
  \<comment> \<open>\<^verbatim>\<open>while (--width > 0) putch(padc, putdat)\<close>\<close>
  "pad_before putch padc width s =
     (let width = width - 1 in if width > 0 then pad_before putch padc width (putch (ucast padc) s) else s)"
  by pat_completeness auto
termination
  by (relation "measure (\<lambda>(_, _, width, _). nat width)") auto

partial_function (option) printnum ::
    "(u32 \<Rightarrow> 's \<Rightarrow> 's) \<Rightarrow> u64 \<Rightarrow> u64 \<Rightarrow> int \<Rightarrow> u8 \<Rightarrow> 's \<Rightarrow> 's option" where
  "printnum putch num base width padc s =
     (if base = 0 then None
      else do {
        s \<leftarrow> (if num \<ge> base then printnum putch (num div base) base (width - 1) padc s
              else Some (pad_before putch padc width s));
        if unat (num mod base) < length digit_chars
        then Some (putch (ucast (digit_chars ! unat (num mod base))) s) else None })"

function pad_loop :: "(u32 \<Rightarrow> 's \<Rightarrow> 's) \<Rightarrow> u8 \<Rightarrow> int \<Rightarrow> 's \<Rightarrow> int \<times> 's" where
  \<comment> \<open>\<^verbatim>\<open>for (; width > 0; width--) putch(c, putdat)\<close>\<close>
  "pad_loop putch c width s = (if width > 0 then pad_loop putch c (width - 1) (putch (ucast c) s) else (width, s))"
  by pat_completeness auto
termination
  by (relation "measure (\<lambda>(_, _, width, _). nat width)") auto

declare pad_before.simps [simp del] pad_loop.simps [simp del]

fun put_chars :: "(u32 \<Rightarrow> 's \<Rightarrow> 's) \<Rightarrow> bool \<Rightarrow> int \<Rightarrow> int \<Rightarrow> u8 list \<Rightarrow> 's \<Rightarrow> int \<times> 's" where
  "put_chars putch alt precision width [] s = (width, s)"
| "put_chars putch alt precision width (ch # p) s =
     (if ch \<noteq> 0 \<and> (precision < 0 \<or> precision - 1 \<ge> 0)
      then put_chars putch alt (if precision < 0 then precision else precision - 1) (width - 1) p
             (putch (if alt \<and> (ch < c8 CHR '' '' \<or> ch > c8 CHR ''~'') then ucast (c8 CHR ''?'') else scast ch) s)
      else (width, s))"

section \<open>The format interpreter\<close>

record flags =
  padc :: u8
  width :: int
  precision :: int
  lflag :: int
  altflag :: bool

definition no_flags :: flags where
  "no_flags = \<lparr>padc = c8 CHR '' '', width = - 1, precision = - 1, lflag = 0, altflag = False\<rparr>"

definition process_precision :: "flags \<Rightarrow> flags" where
  "process_precision f = (if width f < 0 then f\<lparr>width := precision f, precision := - 1\<rparr> else f)"

fun scan_number :: "int \<Rightarrow> u8 \<Rightarrow> u8 list \<Rightarrow> int \<times> u8 list" where
  "scan_number prec ch [] = (prec * 10 + uint ch - 48, [])"
| "scan_number prec ch (c # fmt) =
     (let prec = prec * 10 + uint ch - 48 in
      if c < c8 CHR ''0'' \<or> c > c8 CHR ''9'' then (prec, c # fmt) else scan_number prec c fmt)"

lemma length_scan_number: "length (snd (scan_number prec ch fmt)) \<le> length fmt"
  by (induction prec ch fmt rule: scan_number.induct) (auto simp: Let_def)

text \<open>From the label \<^verbatim>\<open>reswitch\<close> to a conversion character, with the format and the arguments that are left.\<close>

function reswitch :: "u8 list \<Rightarrow> va_item list \<Rightarrow> flags \<Rightarrow> (u8 \<times> u8 list \<times> va_item list \<times> flags) option" where
  "reswitch [] ap f = Some (0, [], ap, f)"
| "reswitch (ch # fmt) ap f =
     (if ch = c8 CHR ''-'' then reswitch fmt ap (f\<lparr>padc := c8 CHR ''-''\<rparr>)
      else if ch = c8 CHR ''0'' then reswitch fmt ap (f\<lparr>padc := c8 CHR ''0''\<rparr>)
      else if c8 CHR ''1'' \<le> ch \<and> ch \<le> c8 CHR ''9'' then
        reswitch (snd (scan_number 0 ch fmt)) ap (process_precision (f\<lparr>precision := fst (scan_number 0 ch fmt)\<rparr>))
      else if ch = c8 CHR ''*'' then do {
        (x, ap) \<leftarrow> va_int ap;
        reswitch fmt ap (process_precision (f\<lparr>precision := sint (ucast x :: u32)\<rparr>)) }
      else if ch = c8 CHR ''.'' then reswitch fmt ap (if width f < 0 then f\<lparr>width := 0\<rparr> else f)
      else if ch = c8 CHR ''#'' then reswitch fmt ap (f\<lparr>altflag := True\<rparr>)
      else if ch = c8 CHR ''l'' then reswitch fmt ap (f\<lparr>lflag := lflag f + 1\<rparr>)
      else Some (ch, fmt, ap, f))"
  by pat_completeness auto
termination
  by (relation "measure (\<lambda>(fmt, _, _). length fmt)") (auto simp: less_Suc_eq_le length_scan_number)

definition put_string :: "(u32 \<Rightarrow> 's \<Rightarrow> 's) \<Rightarrow> flags \<Rightarrow> u8 list option \<Rightarrow> 's \<Rightarrow> 's" where
  "put_string putch f p s =
     (let p = (case p of None \<Rightarrow> str ''(null)'' | Some p \<Rightarrow> p);
          n = int (length (takeWhile (\<lambda>c. c \<noteq> 0) p));
          n = (if precision f < 0 then n else min n (precision f));
          (w, s) = (if width f > 0 \<and> padc f \<noteq> c8 CHR ''-'' then pad_loop putch (padc f) (width f - n) s else (width f, s));
          (w, s) = put_chars putch (altflag f) (precision f) w p s
      in snd (pad_loop putch (c8 CHR '' '') w s))"

text \<open>
  The cases of the switch other than \<^verbatim>\<open>e\<close>: the format, the arguments and the state with which the loop goes on. An unknown
  conversion prints the percent sign and goes back to the character after it. The characters in between are flags, so the percent
  sign that the code looks for is the one of this escape sequence, and \<open>fmt\<close> is the text behind it.
\<close>

definition convert ::
    "(u32 \<Rightarrow> 's \<Rightarrow> 's) \<Rightarrow> u8 list \<Rightarrow> u8 \<Rightarrow> u8 list \<Rightarrow> va_item list \<Rightarrow> flags \<Rightarrow> 's \<Rightarrow> (u8 list \<times> va_item list \<times> 's) option" where
  "convert putch fmt ch rest ap f s =
     (if ch = c8 CHR ''c'' then do {
        (x, ap) \<leftarrow> va_int ap;
        Some (rest, ap, putch (ucast x) s) }
      else if ch = c8 CHR ''s'' then do {
        (p, ap) \<leftarrow> va_str ap;
        Some (rest, ap, put_string putch f p s) }
      else if ch = c8 CHR ''d'' then do {
        (num, ap) \<leftarrow> getint ap 3;
        s \<leftarrow> (if sint num < 0 then printnum putch (- num) 10 (width f) (padc f) (putch (ucast (c8 CHR ''-'')) s)
              else printnum putch num 10 (width f) (padc f) s);
        Some (rest, ap, s) }
      else if ch = c8 CHR ''u'' then do {
        (num, ap) \<leftarrow> getuint ap 3;
        s \<leftarrow> printnum putch num 10 (width f) (padc f) s;
        Some (rest, ap, s) }
      else if ch = c8 CHR ''o'' then
        Some (rest, ap, putch (ucast (c8 CHR ''X'')) (putch (ucast (c8 CHR ''X'')) (putch (ucast (c8 CHR ''X'')) s)))
      else if ch = c8 CHR ''p'' then do {
        (num, ap) \<leftarrow> va_int ap;
        s \<leftarrow> printnum putch num 16 (width f) (padc f) (putch (ucast (c8 CHR ''x'')) (putch (ucast (c8 CHR ''0'')) s));
        Some (rest, ap, s) }
      else if ch = c8 CHR ''x'' then do {
        (num, ap) \<leftarrow> getuint ap 3;
        s \<leftarrow> printnum putch num 16 (width f) (padc f) s;
        Some (rest, ap, s) }
      else if ch = c8 CHR ''%'' then Some (rest, ap, putch (ucast ch) s)
      else Some (fmt, ap, putch (ucast (c8 CHR ''%'')) s))"

definition error_text :: "u32 \<Rightarrow> u8 list option option" where
  "error_text err =
     (if sint err \<ge> MAXERROR then Some None
      else if sint err < 0 then None
      else Some (error_string ! nat (sint err)))"

partial_function (option) vprintfmt ::
    "(u32 \<Rightarrow> 's \<Rightarrow> 's) \<Rightarrow> u8 list \<Rightarrow> va_item list \<Rightarrow> 's \<Rightarrow> 's option" where
  "vprintfmt putch fmt ap s =
     (case fmt of
        [] \<Rightarrow> Some s
      | ch # fmt \<Rightarrow>
          if ch = 0 then Some s
          else if ch \<noteq> c8 CHR ''%'' then vprintfmt putch fmt ap (putch (ucast ch) s)
          else do {
            (ch, rest, ap, f) \<leftarrow> reswitch fmt ap no_flags;
            (fmt, ap, s) \<leftarrow>
              (if ch = c8 CHR ''e'' then do {
                 (x, ap) \<leftarrow> va_int ap;
                 let err = (ucast x :: u32);
                 let err = (if sint err < 0 then - err else err);
                 p \<leftarrow> error_text err;
                 s \<leftarrow> (case p of
                         None \<Rightarrow> vprintfmt putch (str ''error %d'') [Va_Int (scast err)] s
                       | Some _ \<Rightarrow> vprintfmt putch (str ''%s'') [Va_Str p] s);
                 Some (rest, ap, s) }
               else convert putch fmt ch rest ap f s);
            vprintfmt putch fmt ap s })"

section \<open>Printing into a buffer\<close>

record sprintbuf =
  sb_mem :: bmem
  sb_buf :: u64
  sb_ebuf :: u64
  sb_cnt :: u32

definition sprintputch :: "u32 \<Rightarrow> sprintbuf \<Rightarrow> sprintbuf" where
  "sprintputch ch b =
     (let b = b\<lparr>sb_cnt := sb_cnt b + 1\<rparr> in
      if sb_buf b < sb_ebuf b
      then b\<lparr>sb_mem := (sb_mem b)(sb_buf b := ucast ch), sb_buf := sb_buf b + 1\<rparr> else b)"

definition vsnprintf :: "bmem \<Rightarrow> u64 \<Rightarrow> int \<Rightarrow> u8 list \<Rightarrow> va_item list \<Rightarrow> (int \<times> bmem) option" where
  "vsnprintf m buf n fmt ap =
     (let b = \<lparr>sb_mem = m, sb_buf = buf, sb_ebuf = buf + word_of_int n - 1, sb_cnt = 0\<rparr> in
      if buf = 0 \<or> n < 1 then Some (- E_INVAL, m)
      else do {
        b \<leftarrow> vprintfmt sprintputch fmt ap b;
        Some (sint (sb_cnt b), (sb_mem b)(sb_buf b := 0)) })"

definition snprintf :: "bmem \<Rightarrow> u64 \<Rightarrow> int \<Rightarrow> u8 list \<Rightarrow> va_item list \<Rightarrow> (int \<times> bmem) option" where
  "snprintf m buf n fmt ap = vsnprintf m buf n fmt ap"

section \<open>Printing to the console\<close>

text \<open>The kernel's \<^verbatim>\<open>putch\<close> advances its pointer to the counter and not the counter.\<close>

definition kern_putch :: "'d io_bus \<Rightarrow> u32 \<Rightarrow> 'd console \<times> u32 \<Rightarrow> 'd console \<times> u32" where
  "kern_putch bus ch = (\<lambda>(s, cnt). (cputchar bus ch s, cnt))"

definition vcprintf :: "'d io_bus \<Rightarrow> u8 list \<Rightarrow> va_item list \<Rightarrow> 'd console \<Rightarrow> (u32 \<times> 'd console) option" where
  "vcprintf bus fmt ap s = do { (s, cnt) \<leftarrow> vprintfmt (kern_putch bus) fmt ap (s, 0); Some (cnt, s) }"

definition cprintf :: "'d io_bus \<Rightarrow> u8 list \<Rightarrow> va_item list \<Rightarrow> 'd console \<Rightarrow> (u32 \<times> 'd console) option" where
  "cprintf bus fmt ap s = vcprintf bus fmt ap s"

text \<open>
  The console system calls. The string that \<^verbatim>\<open>sys_cputs\<close> prints is given by its bytes; the code does not check the pointer.
\<close>

definition sys_cputs :: "'d io_bus \<Rightarrow> u8 list \<Rightarrow> u64 \<Rightarrow> 'd console \<Rightarrow> 'd console option" where
  "sys_cputs bus p len s = do {
     (_, s) \<leftarrow> cprintf bus (str ''%.*s'') [Va_Int len, Va_Str (Some p)] s;
     Some s }"

definition sys_cgetc :: "'d io_bus \<Rightarrow> 'd console \<Rightarrow> (int \<times> 'd console) option" where
  "sys_cgetc bus s = cons_getc bus s"

text \<open>
  User programs collect characters in a buffer of 256 bytes. The part of the buffer below the index is the list \<open>pb_buf\<close>; the
  system call that prints it is the function \<open>cputs\<close> on the state \<open>'w\<close> of the rest of the system.
\<close>

record 'w printbuf =
  pb_buf :: "u8 list"
  pb_cnt :: u32
  pb_sys :: 'w

definition user_putch :: "(u8 list \<Rightarrow> 'w \<Rightarrow> 'w) \<Rightarrow> u32 \<Rightarrow> 'w printbuf \<Rightarrow> 'w printbuf" where
  "user_putch cputs ch b =
     (let b = b\<lparr>pb_buf := pb_buf b @ [ucast ch]\<rparr>;
          b = (if length (pb_buf b) = 256 - 1 then b\<lparr>pb_sys := cputs (pb_buf b) (pb_sys b), pb_buf := []\<rparr> else b)
      in b\<lparr>pb_cnt := pb_cnt b + 1\<rparr>)"

definition user_vcprintf ::
    "(u8 list \<Rightarrow> 'w \<Rightarrow> 'w) \<Rightarrow> u8 list \<Rightarrow> va_item list \<Rightarrow> 'w \<Rightarrow> (u32 \<times> 'w) option" where
  "user_vcprintf cputs fmt ap w = do {
     b \<leftarrow> vprintfmt (user_putch cputs) fmt ap \<lparr>pb_buf = [], pb_cnt = 0, pb_sys = w\<rparr>;
     Some (pb_cnt b, cputs (pb_buf b) (pb_sys b)) }"

text \<open>Output to a file descriptor; \<open>write\<close> delivers its result and the state of the rest of the system.\<close>

record 'w filebuf =
  fb_buf :: "u8 list"
  fb_result :: int
  fb_error :: int
  fb_sys :: 'w

definition writebuf :: "(u8 list \<Rightarrow> 'w \<Rightarrow> int \<times> 'w) \<Rightarrow> 'w filebuf \<Rightarrow> 'w filebuf" where
  "writebuf write b =
     (if fb_error b > 0
      then let (result, w) = write (fb_buf b) (fb_sys b);
               b = b\<lparr>fb_sys := w\<rparr>;
               b = (if result > 0 then b\<lparr>fb_result := fb_result b + result\<rparr> else b)
           in if result \<noteq> int (length (fb_buf b)) then b\<lparr>fb_error := if result < 0 then result else 0\<rparr> else b
      else b)"

definition file_putch :: "(u8 list \<Rightarrow> 'w \<Rightarrow> int \<times> 'w) \<Rightarrow> u32 \<Rightarrow> 'w filebuf \<Rightarrow> 'w filebuf" where
  "file_putch write ch b =
     (let b = b\<lparr>fb_buf := fb_buf b @ [ucast ch]\<rparr> in
      if length (fb_buf b) = 256 then (writebuf write b)\<lparr>fb_buf := []\<rparr> else b)"

definition vfprintf ::
    "(u8 list \<Rightarrow> 'w \<Rightarrow> int \<times> 'w) \<Rightarrow> u8 list \<Rightarrow> va_item list \<Rightarrow> 'w \<Rightarrow> (int \<times> 'w) option" where
  "vfprintf write fmt ap w = do {
     b \<leftarrow> vprintfmt (file_putch write) fmt ap \<lparr>fb_buf = [], fb_result = 0, fb_error = 1, fb_sys = w\<rparr>;
     let b = (if length (fb_buf b) > 0 then writebuf write b else b);
     Some (if fb_result b \<noteq> 0 then fb_result b else fb_error b, fb_sys b) }"

end
