(* ===== verification/Str_Correct.thy ===== *)
theory Str_Correct
  imports Str_Lib
begin

text \<open>
  Correctness of the string routines: \<^verbatim>\<open>memmove\<close> and \<^verbatim>\<open>memset\<close> against their definition as functions on memory, and the
  routines on null-terminated strings against lists of bytes.
\<close>

section \<open>Copying byte by byte\<close>

definition copy_at :: "u64 \<Rightarrow> u64 \<Rightarrow> nat \<Rightarrow> bmem \<Rightarrow> bmem" where
  "copy_at d s i m = m(d + of_nat i := m (s + of_nat i))"

text \<open>No byte that is written is read later.\<close>

definition no_clobber :: "u64 \<Rightarrow> u64 \<Rightarrow> nat \<Rightarrow> nat \<Rightarrow> bool" where
  "no_clobber d s i j \<longleftrightarrow> d + of_nat i \<noteq> s + of_nat j \<and> (of_nat i :: u64) \<noteq> of_nat j"

lemma fold_copy:
  "sorted_wrt (no_clobber d s) is \<Longrightarrow>
    fold (copy_at d s) is m = (\<lambda>a. if \<exists>i\<in>set is. a = d + of_nat i then m (s + (a - d)) else m a)"
proof (induction "is" arbitrary: m)
  case (Cons i "is")
  let ?m = "copy_at d s i m"
  have c: "s + of_nat j \<noteq> d + of_nat i" "(of_nat j :: u64) \<noteq> of_nat i" if "j \<in> set is" for j
    using Cons.prems that unfolding no_clobber_def by fastforce+
  have "fold (copy_at d s) (i # is) m = (\<lambda>a. if \<exists>j\<in>set is. a = d + of_nat j then ?m (s + (a - d)) else ?m a)"
    using Cons by simp
  also have "\<dots> = (\<lambda>a. if \<exists>j\<in>set (i # is). a = d + of_nat j then m (s + (a - d)) else m a)"
    using c by (auto simp: fun_eq_iff copy_at_def)
  finally show ?case .
qed simp

lemma copy_at_Suc: "copy_at (d + 1) (s + 1) i = copy_at d s (Suc i)"
  by (simp add: fun_eq_iff copy_at_def add.assoc)

lemma upt_0_Suc: "[0..<Suc k] = 0 # map Suc [0..<k]"
  by (simp add: map_Suc_upt upt_conv_Cons del: upt_Suc)

lemma movsb_up: "movsb m d s 1 k = fold (copy_at d s) [0..<k] m"
proof (induction k arbitrary: m d s)
  case (Suc k)
  have "m(d := m s) = copy_at d s 0 m" by (simp add: copy_at_def)
  then show ?case unfolding upt_0_Suc by (simp add: Suc fold_map comp_def copy_at_Suc)
qed simp

lemma movsb_down: "movsb m (d + of_nat k - 1) (s + of_nat k - 1) (- 1) k = fold (copy_at d s) (rev [0..<k]) m"
proof (induction k arbitrary: m)
  case (Suc k)
  have "m(d + of_nat k := m (s + of_nat k)) = copy_at d s k m" by (simp add: copy_at_def)
  then show ?case using Suc by simp
qed simp

section \<open>Copying four bytes at a time\<close>

lemma unat_mod_4: "(d :: u64) mod 4 = 0 \<longleftrightarrow> unat d mod 4 = 0"
  by (simp add: word_unat_eq_iff unat_mod)

lemma unat_add_mod_4: "unat (d + e :: u64) mod 4 = (unat d + unat e) mod 4"
  by (simp add: unat_word_ariths mod_mod_cancel)

lemma mod_4_add:
  assumes "(d :: u64) mod 4 = 0" "i < 4"
  shows "unat (d + of_nat i) mod 4 = i"
proof -
  have "unat (of_nat i :: u64) = i" using assms(2) by (simp add: unat_of_nat)
  then show ?thesis
    using assms mod_add_left_eq [of "unat d" 4 i] by (simp add: unat_mod_4 unat_add_mod_4)
qed

lemma aligned_eq:
  assumes "(d :: u64) mod 4 = 0" "s mod 4 = 0" "i < 4" "j < 4" "d + of_nat i = s + of_nat j"
  shows "i = j"
  using mod_4_add [OF assms(1,3)] mod_4_add [OF assms(2,4)] assms(5) by simp

lemma store4_copy:
  assumes "(d :: u64) mod 4 = 0" "s mod 4 = 0"
  shows "store4 d (load4 m s) m = fold (copy_at d s) [0, 1, 2, 3] m"
    "store4 d (load4 m s) m = fold (copy_at d s) [3, 2, 1, 0] m"
proof -
  have ne: "s + of_nat j \<noteq> d + of_nat i" if "i \<noteq> j" "i < 4" "j < 4" for i j
    using aligned_eq [OF assms that(2,3)] that(1) by metis
  note this [of 0 1, simplified] this [of 0 2, simplified] this [of 0 3, simplified] this [of 1 2, simplified]
    this [of 1 3, simplified] this [of 2 3, simplified] this [of 1 0, simplified] this [of 2 0, simplified]
    this [of 3 0, simplified] this [of 2 1, simplified] this [of 3 1, simplified] this [of 3 2, simplified]
  note n = this
  show "store4 d (load4 m s) m = fold (copy_at d s) [0, 1, 2, 3] m"
    using n by (simp add: store4_def load4_def copy_at_def)
  have "d + 1 \<noteq> d" "d + 2 \<noteq> d" "d + 3 \<noteq> d" "d + 2 \<noteq> d + 1" "d + 3 \<noteq> d + 1" "d + 3 \<noteq> d + 2" by simp_all
  then show "store4 d (load4 m s) m = fold (copy_at d s) [3, 2, 1, 0] m"
    using n by (auto simp: fun_eq_iff store4_def load4_def copy_at_def)
qed

lemma copy_at_shift: "copy_at (d + of_nat k) (s + of_nat k) i = copy_at d s (k + i)"
  by (simp add: fun_eq_iff copy_at_def add.assoc)

lemma aligned_shift: "(d :: u64) mod 4 = 0 \<Longrightarrow> (d + 4) mod 4 = 0"
  by (simp add: unat_mod_4 unat_add_mod_4)

lemma movsl_up:
  "(d :: u64) mod 4 = 0 \<Longrightarrow> s mod 4 = 0 \<Longrightarrow> movsl m d s 4 k = fold (copy_at d s) [0..<4 * k] m"
proof (induction k arbitrary: m d s)
  case (Suc k)
  have l: "[0..<4 * Suc k] = [0, 1, 2, 3] @ map (\<lambda>i. 4 + i) [0..<4 * k]"
  proof -
    have "[0..<4 * Suc k] = [0..<4] @ [4..<4 + 4 * k]" using upt_add_eq_append [of 0 4 "4 * k"] by simp
    moreover have "[4..<4 + 4 * k] = map (\<lambda>i. 4 + i) [0..<4 * k]" using map_add_upt [of 4 "4 * k"] by (simp add: add.commute)
    ultimately show ?thesis by (simp add: upt_rec)
  qed
  have "movsl m d s 4 (Suc k) = fold (copy_at (d + 4) (s + 4)) [0..<4 * k] (store4 d (load4 m s) m)"
    using Suc by (simp add: aligned_shift)
  also have "\<dots> = fold (copy_at d s) (map (\<lambda>i. 4 + i) [0..<4 * k]) (fold (copy_at d s) [0, 1, 2, 3] m)"
  proof -
    have "copy_at (d + 4) (s + 4) = (\<lambda>i. copy_at d s (4 + i))" using copy_at_shift [of d 4 s] by (simp add: fun_eq_iff)
    then show ?thesis using store4_copy(1) [OF Suc.prems] by (simp add: fold_map comp_def)
  qed
  finally show ?case unfolding l fold_append by simp
qed simp

lemma movsl_down:
  assumes "(d :: u64) mod 4 = 0" "s mod 4 = 0"
  shows "movsl m (d + of_nat (4 * k) - 4) (s + of_nat (4 * k) - 4) (- 4) k = fold (copy_at d s) (rev [0..<4 * k]) m"
proof (induction k arbitrary: m)
  case (Suc k)
  let ?d = "d + of_nat (4 * k)" and ?s = "s + of_nat (4 * k)"
  have al: "?d mod 4 = 0" "?s mod 4 = 0"
  proof -
    have "unat (of_nat (4 * k) :: u64) mod 4 = 0" unfolding unat_of_nat by (simp add: mod_mod_cancel del: of_nat_mult)
    then show "?d mod 4 = 0" "?s mod 4 = 0"
      using assms mod_add_eq [of "unat d" 4] mod_add_eq [of "unat s" 4] by (simp_all only: unat_mod_4 unat_add_mod_4) (metis add_0 mod_0)+
  qed
  have l: "rev [0..<4 * Suc k] = [4 * k + 3, 4 * k + 2, 4 * k + 1, 4 * k] @ rev [0..<4 * k]"
    by (simp add: numeral_eq_Suc)
  have "store4 ?d (load4 m ?s) m = fold (copy_at d s) [4 * k + 3, 4 * k + 2, 4 * k + 1, 4 * k] m"
    using store4_copy(2) [OF al] copy_at_shift [of d "4 * k" s] by simp
  then show ?case using Suc unfolding l fold_append by (simp add: algebra_simps)
qed simp

section \<open>memmove\<close>

text \<open>The block of \<open>n\<close> bytes at \<open>d\<close> becomes a copy of that at \<open>s\<close>, as it was before.\<close>

definition block_copied :: "bmem \<Rightarrow> u64 \<Rightarrow> u64 \<Rightarrow> u64 \<Rightarrow> bmem" where
  "block_copied m d s n = (\<lambda>a. if a - d < n then m (s + (a - d)) else m a)"

lemma unat_u64: "unat (x :: u64) < 2 ^ 64"
  using unsigned_less [of x, where 'a = nat] by simp

lemma in_block: "(\<exists>i<unat n. a = d + of_nat i) \<longleftrightarrow> a - d < (n :: u64)"
proof
  assume "\<exists>i<unat n. a = d + of_nat i"
  then obtain i where "i < unat n" "a - d = of_nat i" by auto
  moreover from this have "unat (of_nat i :: u64) = i" using unat_u64 [of n] by (simp add: unat_of_nat)
  ultimately show "a - d < n" by (simp add: word_less_nat_alt)
next
  assume "a - d < n"
  then show "\<exists>i<unat n. a = d + of_nat i"
    by (intro exI [of _ "unat (a - d)"]) (simp add: word_less_nat_alt)
qed

lemma fold_copy_block:
  assumes "sorted_wrt (no_clobber d s) is" "set is = {0..<unat n}"
  shows "fold (copy_at d s) is m = block_copied m d s n"
  unfolding fold_copy [OF assms(1)] block_copied_def assms(2) using in_block [of n _ d] by (auto simp: Bex_def)

lemma of_nat_distinct: "i < unat (n :: u64) \<Longrightarrow> j < unat n \<Longrightarrow> (of_nat i :: u64) = of_nat j \<longleftrightarrow> i = j"
  using unat_u64 [of n] of_nat_inverse [of i "of_nat j :: u64"] of_nat_inverse [of j "of_nat j :: u64"] by auto

lemma unat_offset: "unat (a :: u64) + unat n < 2 ^ 64 \<Longrightarrow> i \<le> unat n \<Longrightarrow> unat (a + of_nat i) = unat a + i"
  by (simp add: unat_word_ariths unat_of_nat)

lemma no_clobber_up:
  assumes "unat d + unat n < 2 ^ 64" "unat s + unat n < 2 ^ 64" "\<not> (s < d \<and> s + n > d)"
  shows "sorted_wrt (no_clobber d s) [0..<unat n]"
  unfolding sorted_wrt_iff_nth_less
proof (intro allI impI)
  fix i j
  assume ij: "i < j" "j < length [0..<unat n]"
  have "unat (s + n) = unat s + unat n" using unat_offset [OF assms(2), of "unat n"] by simp
  then have "unat d \<le> unat s \<or> unat s + unat n \<le> unat d" using assms(3) by (auto simp: word_less_nat_alt)
  then have "unat (d + of_nat i) \<noteq> unat (s + of_nat j)"
    using ij unat_offset [OF assms(1), of i] unat_offset [OF assms(2), of j] by auto
  then show "no_clobber d s ([0..<unat n] ! i) ([0..<unat n] ! j)"
    using ij of_nat_distinct [of i n j] unfolding no_clobber_def by auto
qed

lemma no_clobber_down:
  fixes n :: u64
  assumes "unat d + unat n < 2 ^ 64" "unat s + unat n < 2 ^ 64" "s < d"
  shows "sorted_wrt (no_clobber d s) (rev [0..<unat n])"
proof -
  have "no_clobber d s j i" if "i < j" "j < unat n" for i j
  proof -
    have "unat (d + of_nat j) \<noteq> unat (s + of_nat i)"
      using assms(3) that unat_offset [OF assms(1), of j] unat_offset [OF assms(2), of i] by (auto simp: word_less_nat_alt)
    then show ?thesis using that of_nat_distinct [of i n j] unfolding no_clobber_def by auto
  qed
  then show ?thesis unfolding sorted_wrt_rev by (simp add: sorted_wrt_iff_nth_less)
qed

text \<open>
  C17. \<^verbatim>\<open>memmove\<close> copies a block even when the two blocks overlap, in either direction, and whether it moves bytes or
  groups of four: for blocks that do not wrap around the address space the target block becomes what the source block was, and no
  other byte changes.
\<close>

theorem memmove_correct:
  assumes "unat dst + unat n < 2 ^ 64" "unat src + unat n < 2 ^ 64"
  shows "memmove m dst src n = (dst, \<lambda>a. if a - dst < n then m (src + (a - dst)) else m a)"
proof -
  have n4: "4 * unat (n div 4) = unat n" "of_nat (4 * unat (n div 4)) = n" if "n mod 4 = 0"
  proof -
    show "4 * unat (n div 4) = unat n" using that by (simp add: unat_div unat_mod_4 mod_0_imp_dvd)
    then show "of_nat (4 * unat (n div 4)) = n" by simp
  qed
  have "snd (memmove m dst src n) = block_copied m dst src n"
  proof (cases "src < dst \<and> src + n > dst")
    case True
    note down = fold_copy_block [OF no_clobber_down [OF assms], where n = n and m = m] movsb_down [of m dst "unat n" src]
    have "movsl m (dst + n - 4) (src + n - 4) (- 4) (unat (n div 4)) = block_copied m dst src n"
      if "(src + n) mod 4 = 0" "(dst + n) mod 4 = 0" "n mod 4 = 0"
    proof -
      have "dst mod 4 = 0" "src mod 4 = 0"
        using that mod_add_right_eq [of "unat dst" "unat n" 4] mod_add_right_eq [of "unat src" "unat n" 4]
        by (simp_all add: unat_mod_4 unat_add_mod_4)
      from movsl_down [OF this, of m "unat (n div 4)"] show ?thesis
        using n4 [OF that(3)] down(1) True by (simp del: of_nat_mult)
    qed
    then show ?thesis using True down by (simp add: memmove_def Let_def)
  next
    case False
    note up = fold_copy_block [OF no_clobber_up [OF assms False], where n = n and m = m] movsb_up [of m dst src "unat n"]
    have "movsl m dst src 4 (unat (n div 4)) = block_copied m dst src n" if "src mod 4 = 0" "dst mod 4 = 0" "n mod 4 = 0"
      using movsl_up [OF that(2,1), of m "unat (n div 4)"] n4 [OF that(3)] up(1) by simp
    then show ?thesis unfolding memmove_def Let_def if_not_P [OF False] using up by simp
  qed
  moreover have "fst (memmove m dst src n) = dst" by (simp add: memmove_def Let_def)
  ultimately show ?thesis by (simp add: block_copied_def prod_eq_iff)
qed

theorem memmove_correct_witness:
  "snd (memmove (\<lambda>a. ucast a) 0x1004 0x1000 8) 0x1008 = 0x04"
  using memmove_correct [of "0x1004" 8 "0x1000" "\<lambda>a. ucast a"] by simp

section \<open>memset\<close>

definition filled :: "bmem \<Rightarrow> u64 \<Rightarrow> u8 \<Rightarrow> nat \<Rightarrow> bmem" where
  "filled m d v k = (\<lambda>a. if \<exists>i<k. a = d + of_nat i then v else m a)"

lemma filled_Suc: "filled m d v (Suc k) = filled (m(d := v)) (d + 1) v k"
proof -
  have "(\<exists>i<Suc k. a = d + of_nat i) \<longleftrightarrow> a = d \<or> (\<exists>i<k. a = d + 1 + of_nat i)" for a
    by (auto simp: less_Suc_eq_0_disj add.assoc)
  then show ?thesis by (auto simp: filled_def fun_eq_iff)
qed

lemma stosb_filled: "stosb m d v k = filled m d v k"
  by (induction k arbitrary: m d) (simp_all add: filled_Suc, simp add: filled_def)

lemma stosl_filled: "bytes4 v = replicate 4 b \<Longrightarrow> stosl m d v k = filled m d b (4 * k)"
proof (induction k arbitrary: m d)
  case (Suc k)
  have "filled m d b (4 * Suc k) = filled (m(d := b, d + 1 := b, d + 2 := b, d + 3 := b)) (d + 4) b (4 * k)"
  proof -
    have "4 * Suc k = Suc (Suc (Suc (Suc (4 * k))))" by simp
    then show ?thesis by (simp only: filled_Suc add.assoc) simp
  qed
  moreover have "store4 d (bytes4 v) m = m(d := b, d + 1 := b, d + 2 := b, d + 3 := b)"
    by (simp add: store4_def Suc.prems numeral_eq_Suc)
  ultimately show ?case using Suc by simp
qed (simp add: filled_def)

lemma bytes4_repeat:
  fixes c :: u32
  shows "bytes4 (push_bit 24 (c AND 0xFF) OR push_bit 16 (c AND 0xFF) OR push_bit 8 (c AND 0xFF) OR (c AND 0xFF)) =
    replicate 4 (ucast c)"
proof -
  have m: "c AND 0xFF = take_bit 8 c" by (simp add: take_bit_eq_mask mask_eq_exp_minus_1)
  define b where "b = take_bit 8 c"
  have b: "bit b n \<longleftrightarrow> n < 8 \<and> bit c n" for n by (simp add: b_def bit_take_bit_iff)
  let ?x = "push_bit 24 b OR push_bit 16 b OR push_bit 8 b OR b"
  have "(ucast (drop_bit 24 ?x) :: u8) = ucast c"
    by (rule bit_word_eqI) (simp add: bit_ucast_iff bit_drop_bit_eq bit_or_iff bit_push_bit_iff b)
  moreover have "(ucast (drop_bit 16 ?x) :: u8) = ucast c"
    by (rule bit_word_eqI) (simp add: bit_ucast_iff bit_drop_bit_eq bit_or_iff bit_push_bit_iff b)
  moreover have "(ucast (drop_bit 8 ?x) :: u8) = ucast c"
    by (rule bit_word_eqI) (simp add: bit_ucast_iff bit_drop_bit_eq bit_or_iff bit_push_bit_iff b)
  moreover have "(ucast ?x :: u8) = ucast c"
    by (rule bit_word_eqI) (simp add: bit_ucast_iff bit_drop_bit_eq bit_or_iff bit_push_bit_iff b)
  ultimately show ?thesis unfolding m b_def [symmetric] by (simp add: bytes4_def numeral_eq_Suc)
qed

lemma memset_eq: "memset m v c n = (v, \<lambda>a. if a - v < n then ucast c else m a)"
proof -
  have f: "filled m v b (unat n) = (\<lambda>a. if a - v < n then b else m a)" for b
    using in_block [of n _ v] by (simp add: filled_def)
  have "4 * unat (n div 4) = unat n" if "n mod 4 = 0" using that by (simp add: unat_div unat_mod_4 mod_0_imp_dvd)
  then show ?thesis
    using stosl_filled [OF bytes4_repeat [of c], of m v "unat (n div 4)"] f stosb_filled [of m v "ucast c" "unat n"]
    by (auto simp: memset_def Let_def)
qed

section \<open>Null-terminated strings\<close>

fun str_at :: "bmem \<Rightarrow> u64 \<Rightarrow> u8 list \<Rightarrow> bool" where
  "str_at m a [] \<longleftrightarrow> m a = 0"
| "str_at m a (x # xs) \<longleftrightarrow> x \<noteq> 0 \<and> m a = x \<and> str_at m (a + 1) xs"

lemma strlen_loop_eq: "str_at m a xs \<Longrightarrow> strlen_loop m a n = Some (n + of_nat (length xs))"
proof (induction xs arbitrary: a n)
  case (Cons x xs)
  then show ?case by (simp add: strlen_loop.simps [of m a] add.assoc)
qed (simp add: strlen_loop.simps)

lemma strlen_eq: "str_at m a xs \<Longrightarrow> strlen m a = Some (of_nat (length xs))"
  by (simp add: strlen_def strlen_loop_eq)

text \<open>The sign of the result of \<^verbatim>\<open>strcmp\<close> is the lexicographic order of the strings as unsigned bytes.\<close>

lemma uint_pos: "x \<noteq> 0 \<Longrightarrow> 0 < uint (x :: u8)"
  using uint_0_iff [of x] by (simp add: order_less_le)

lemma strcmp_eq:
  assumes "str_at m p xs" "str_at m q ys"
  shows "\<exists>r. strcmp m p q = Some r \<and> (r = 0 \<longleftrightarrow> xs = ys) \<and> (r < 0 \<longleftrightarrow> ord_class.lexordp xs ys)"
  using assms
proof (induction xs arbitrary: p q ys)
  case Nil
  then show ?case by (cases ys) (auto simp: strcmp.simps [of m p] uint_pos uint_0_iff)
next
  case (Cons x xs)
  then have p: "m p = x" "x \<noteq> 0" by simp_all
  show ?case
  proof (cases ys)
    case Nil
    then show ?thesis using Cons.prems uint_pos [OF p(2)] by (simp add: strcmp.simps [of m p])
  next
    case y: (Cons y ys')
    show ?thesis
    proof (cases "x = y")
      case True
      then show ?thesis
        using Cons.IH [of "p + 1" "q + 1" ys'] Cons.prems y by (simp add: strcmp.simps [of m p])
    next
      case False
      have run: "strcmp m p q = Some (uint x - uint y)" using Cons.prems y False by (simp add: strcmp.simps [of m p])
      have "uint x - uint y < 0 \<longleftrightarrow> x < y" "uint x - uint y \<noteq> 0"
        using False by (simp_all add: word_less_def word_uint_eq_iff)
      then show ?thesis using run False unfolding y by (cases x y rule: linorder_cases) simp_all
    qed
  qed
qed

end
