(* ===== verification/Print_Correct.thy ===== *)
theory Print_Correct
  imports Print_Fmt Str_Correct
begin

text \<open>
  Formatted output. What is printed is a list of characters that depends on the format and its arguments only, whatever function
  prints them; from that follow the bounds of \<^verbatim>\<open>snprintf\<close>, the round trip of numbers through \<^verbatim>\<open>strtol\<close>, and that the
  buffered output of user programs reaches the console unchanged.
\<close>

section \<open>Output of the parts\<close>

lemma pad_before_eq: "pad_before putch c w s = fold putch (replicate (nat (w - 1)) (ucast c)) s"
proof (induction putch c w s rule: pad_before.induct)
  case (1 putch c w s)
  show ?case
  proof (cases "w - 1 > 0")
    case True
    then have "nat (w - 1) = Suc (nat (w - 1 - 1))" by simp
    then show ?thesis using 1 [OF refl True] True by (simp add: pad_before.simps [of putch c w] Let_def)
  next
    case False
    then show ?thesis by (simp add: pad_before.simps [of putch c w])
  qed
qed

lemma pad_loop_eq: "pad_loop putch c w s = (min w 0, fold putch (replicate (nat w) (ucast c)) s)"
proof (induction putch c w s rule: pad_loop.induct)
  case (1 putch c w s)
  show ?case
  proof (cases "w > 0")
    case True
    then have "nat w = Suc (nat (w - 1))" by simp
    then show ?thesis using 1 [OF True] True by (simp add: pad_loop.simps [of putch c w])
  next
    case False
    then show ?thesis by (simp add: pad_loop.simps [of putch c w])
  qed
qed

fun digits :: "nat \<Rightarrow> nat \<Rightarrow> nat list" where
  "digits b n = (if n < b \<or> b < 2 then [n] else digits b (n div b) @ [n mod b])"

declare digits.simps [simp del]

definition number_out :: "nat \<Rightarrow> nat \<Rightarrow> int \<Rightarrow> u8 \<Rightarrow> u32 list" where
  "number_out b n w c =
     (let ds = digits b n in
      replicate (nat (w - int (length ds))) (ucast c) @ List.map (\<lambda>d. ucast (digit_chars ! d)) ds)"

lemma length_digit_chars: "length digit_chars = 16"
  by (simp add: digit_chars_def)

lemma printnum_eq:
  assumes "2 \<le> unat base" "unat base \<le> 16"
  shows "printnum putch num base w c s = Some (fold putch (number_out (unat base) (unat num) w c) s)"
proof (induction "unat num" arbitrary: num w s rule: less_induct)
  case less
  have b: "base \<noteq> 0" using assms by auto
  have "unat (num mod base) < unat base" using assms by (simp add: unat_mod)
  then have d: "unat (num mod base) < length digit_chars" using assms by (simp add: length_digit_chars)
  show ?case
  proof (cases "num \<ge> base")
    case True
    then have "unat num > 0" using assms by (simp add: word_le_nat_alt)
    then have l: "unat (num div base) < unat num" using assms by (simp add: unat_div)
    have "digits (unat base) (unat num) = digits (unat base) (unat num div unat base) @ [unat num mod unat base]"
      using True assms by (subst digits.simps) (simp add: word_le_nat_alt)
    then show ?thesis
      using less [OF l] True b d
      by (simp add: printnum.simps [of putch num] number_out_def Let_def unat_div unat_mod algebra_simps)
  next
    case False
    then have "digits (unat base) (unat num) = [unat num]" "num mod base = num"
      using assms by (simp_all add: digits.simps word_le_nat_alt word_arith_nat_mod)
    then show ?thesis using False b d by (simp add: printnum.simps [of putch num] number_out_def pad_before_eq)
  qed
qed

lemmas printnum_10 = printnum_eq [of 10, simplified] and printnum_16 = printnum_eq [of 16, simplified]

fun chars_out :: "bool \<Rightarrow> int \<Rightarrow> u8 list \<Rightarrow> u32 list" where
  "chars_out alt prec [] = []"
| "chars_out alt prec (ch # p) =
     (if ch \<noteq> 0 \<and> (prec < 0 \<or> prec - 1 \<ge> 0)
      then (if alt \<and> (ch < c8 CHR '' '' \<or> ch > c8 CHR ''~'') then ucast (c8 CHR ''?'') else scast ch) #
           chars_out alt (if prec < 0 then prec else prec - 1) p
      else [])"

lemma put_chars_eq:
  "put_chars putch alt prec w p s = (w - int (length (chars_out alt prec p)), fold putch (chars_out alt prec p) s)"
  by (induction putch alt prec w p s rule: put_chars.induct) simp_all

definition string_out :: "flags \<Rightarrow> u8 list option \<Rightarrow> u32 list" where
  "string_out f p =
     (let p = (case p of None \<Rightarrow> str ''(null)'' | Some p \<Rightarrow> p);
          n = int (length (takeWhile (\<lambda>c. c \<noteq> 0) p));
          n = (if precision f < 0 then n else min n (precision f));
          (w, pre) = (if width f > 0 \<and> padc f \<noteq> c8 CHR ''-''
                      then (min (width f - n) 0, replicate (nat (width f - n)) (ucast (padc f))) else (width f, []));
          out = chars_out (altflag f) (precision f) p
      in pre @ out @ replicate (nat (w - int (length out))) (ucast (c8 CHR '' '')))"

lemma put_string_eq: "put_string putch f p s = fold putch (string_out f p) s"
  unfolding put_string_def string_out_def Let_def pad_loop_eq put_chars_eq by simp

section \<open>Independence of the output function\<close>

text \<open>The output as a list, and that every other output function sees the same list.\<close>

abbreviation snoc :: "u32 \<Rightarrow> u32 list \<Rightarrow> u32 list" where
  "snoc c out \<equiv> out @ [c]"

lemma fold_snoc [simp]: "fold snoc out acc = acc @ out"
  by (induction out arbitrary: acc) simp_all

lemma convert_eq:
  "convert putch fmt ch rest ap f s =
     map_option (\<lambda>(r, ap, out). (r, ap, fold putch out s)) (convert snoc fmt ch rest ap f [])"
proof -
  have *: "fold putch out (putch a s) = fold putch (a # out) s" for a out s by simp
  show ?thesis
    unfolding convert_def printnum_10 printnum_16 put_string_eq
    by (cases "va_int ap"; cases "va_str ap"; cases "getint ap 3"; cases "getuint ap 3") (simp_all split: prod.split)
qed

lemma vprintfmt_escape:
  "vprintfmt putch (c8 CHR ''%'' # fmt) ap s =
     (case reswitch fmt ap no_flags of
        None \<Rightarrow> None
      | Some (ch, rest, ap, f) \<Rightarrow>
          if ch = c8 CHR ''e'' then do {
            (x, ap) \<leftarrow> va_int ap;
            let err = (if sint (ucast x :: u32) < 0 then - ucast x else ucast x);
            p \<leftarrow> error_text err;
            s \<leftarrow> (case p of
                    None \<Rightarrow> vprintfmt putch (str ''error %d'') [Va_Int (scast err)] s
                  | Some _ \<Rightarrow> vprintfmt putch (str ''%s'') [Va_Str p] s);
            vprintfmt putch rest ap s }
          else do {
            (fmt, ap, out) \<leftarrow> convert snoc fmt ch rest ap f [];
            vprintfmt putch fmt ap (fold putch out s) })"
  by (subst vprintfmt.simps)
    (auto simp: convert_eq [of putch] Let_def split: option.split prod.split bind_splits)

lemma escape_fold:
  fixes putch :: "u32 \<Rightarrow> 's \<Rightarrow> 's" and putch' :: "u32 \<Rightarrow> 't \<Rightarrow> 't"
  assumes IH: "\<And>fmt ap s y. v fmt ap s = Some y \<Longrightarrow>
      \<exists>out. y = fold putch out s \<and> (\<forall>s'. vprintfmt putch' fmt ap s' = Some (fold putch' out s'))"
    and step: "do {
      (ch, rest, ap, f) \<leftarrow> reswitch fmt ap no_flags;
      (fmt, ap, s) \<leftarrow>
        (if ch = c8 CHR ''e'' then do {
           (x, ap) \<leftarrow> va_int ap;
           let err = (ucast x :: u32);
           let err = (if sint err < 0 then - err else err);
           p \<leftarrow> error_text err;
           s \<leftarrow> (case p of
                   None \<Rightarrow> v (str ''error %d'') [Va_Int (scast err)] s
                 | Some _ \<Rightarrow> v (str ''%s'') [Va_Str p] s);
           Some (rest, ap, s) }
         else convert putch fmt ch rest ap f s);
      v fmt ap s } = Some y"
  shows "\<exists>out. y = fold putch out s \<and> (\<forall>s'. vprintfmt putch' (c8 CHR ''%'' # fmt) ap s' = Some (fold putch' out s'))"
proof -
  obtain ch rest ap2 f where r: "reswitch fmt ap no_flags = Some (ch, rest, ap2, f)"
    using step by (auto simp: bind_Some_iff)
  show ?thesis
  proof (cases "ch = c8 CHR ''e''")
    case True
    let ?err = "\<lambda>x :: u64. if sint (ucast x :: u32) < 0 then - ucast x else ucast x :: u32"
    obtain x ap3 p s1 where x: "va_int ap2 = Some (x, ap3)" "error_text (?err x) = Some p" "v rest ap3 s1 = Some y"
        "(case p of None \<Rightarrow> v (str ''error %d'') [Va_Int (scast (?err x))] s | Some _ \<Rightarrow> v (str ''%s'') [Va_Str p] s) = Some s1"
      using step r True by (auto simp: bind_Some_iff Let_def)
    obtain out1 where o1: "s1 = fold putch out1 s"
        "\<And>s'. (case p of None \<Rightarrow> vprintfmt putch' (str ''error %d'') [Va_Int (scast (?err x))] s'
           | Some _ \<Rightarrow> vprintfmt putch' (str ''%s'') [Va_Str p] s') = Some (fold putch' out1 s')"
      using x(4) IH by (cases p) (simp_all, blast+)
    obtain out2 where "y = fold putch out2 s1" "\<And>s'. vprintfmt putch' rest ap3 s' = Some (fold putch' out2 s')"
      using IH [OF x(3)] by blast
    then show ?thesis unfolding vprintfmt_escape using r True x o1
      by (intro exI [of _ "out1 @ out2"]) (simp add: Let_def)
  next
    case False
    then obtain fmt2 ap3 out1 where c: "convert snoc fmt ch rest ap2 f [] = Some (fmt2, ap3, out1)"
        "v fmt2 ap3 (fold putch out1 s) = Some y"
      using step r by (auto simp: bind_Some_iff convert_eq [of putch])
    obtain out2 where "y = fold putch out2 (fold putch out1 s)" "\<And>s'. vprintfmt putch' fmt2 ap3 s' = Some (fold putch' out2 s')"
      using IH [OF c(2)] by blast
    then show ?thesis unfolding vprintfmt_escape using r False c by (intro exI [of _ "out1 @ out2"]) simp
  qed
qed

lemma vprintfmt_fold:
  fixes putch :: "u32 \<Rightarrow> 's \<Rightarrow> 's" and putch' :: "u32 \<Rightarrow> 't \<Rightarrow> 't"
  assumes "vprintfmt putch fmt ap s = Some y"
  shows "\<exists>out. y = fold putch out s \<and> (\<forall>s'. vprintfmt putch' fmt ap s' = Some (fold putch' out s'))"
proof (rule vprintfmt.raw_induct
    [where P = "\<lambda>putch fmt ap s y. \<exists>out. y = fold putch out s \<and> (\<forall>s'. vprintfmt putch' fmt ap s' = Some (fold putch' out s'))",
     OF _ assms], goal_cases)
  case (1 v putch fmt ap s y)
  note IH = 1(1) and step = 1(2)
  show ?case
  proof (cases fmt)
    case Nil
    then show ?thesis using step by (auto simp: vprintfmt.simps [of putch'] intro: exI [of _ "[]"])
  next
    case (Cons ch fmt')
    consider "ch = 0" | "ch \<noteq> 0" "ch \<noteq> c8 CHR ''%''" | "ch = c8 CHR ''%''" by blast
    then show ?thesis
    proof cases
      case 1
      then show ?thesis using step Cons by (auto simp: vprintfmt.simps [of putch'] intro: exI [of _ "[]"])
    next
      case 2
      then have "v putch fmt' ap (putch (ucast ch) s) = Some y" using step Cons by simp
      from IH [OF this] obtain out where "y = fold putch out (putch (ucast ch) s)"
          "\<And>s'. vprintfmt putch' fmt' ap s' = Some (fold putch' out s')" by blast
      then show ?thesis using 2 Cons by (intro exI [of _ "ucast ch # out"]) (simp add: vprintfmt.simps [of putch' "ch # _"])
    next
      case 3
      show ?thesis unfolding Cons 3 by (rule escape_fold [where v = "v putch", OF IH]) (use step Cons 3 in simp_all)
    qed
  qed
qed

definition formatted :: "u8 list \<Rightarrow> va_item list \<Rightarrow> u32 list option" where
  "formatted fmt ap = vprintfmt snoc fmt ap []"

lemma vprintfmt_eq: "vprintfmt putch fmt ap s = map_option (\<lambda>out. fold putch out s) (formatted fmt ap)"
proof (cases "vprintfmt putch fmt ap s")
  case None
  have "formatted fmt ap = None"
  proof (rule ccontr)
    assume "formatted fmt ap \<noteq> None"
    then obtain y where "vprintfmt snoc fmt ap [] = Some y" unfolding formatted_def by blast
    from vprintfmt_fold [OF this, of putch] show False using None by auto
  qed
  then show ?thesis using None by simp
next
  case (Some y)
  from vprintfmt_fold [OF this, of snoc] Some show ?thesis by (auto simp: formatted_def)
qed

section \<open>Printing into a buffer\<close>

definition buffered :: "bmem \<Rightarrow> u64 \<Rightarrow> u32 list \<Rightarrow> nat \<Rightarrow> bmem" where
  "buffered m buf out k = (\<lambda>a. if a - buf < of_nat k then ucast (out ! unat (a - buf)) else m a)"

lemma buffered_0 [simp]: "buffered m buf out 0 = m"
  by (simp add: buffered_def)

lemma buffered_Suc:
  assumes "Suc k < 2 ^ 64"
  shows "buffered m buf out (Suc k) = (buffered m buf out k)(buf + of_nat k := ucast (out ! k))"
proof
  fix a
  have k: "unat (of_nat k :: u64) = k" "unat (1 + of_nat k :: u64) = Suc k"
    using assms unat_of_nat [of "Suc k", where 'a = 64] by (simp_all add: unat_of_nat)
  have "a - buf < of_nat (Suc k) \<longleftrightarrow> a - buf < of_nat k \<or> a - buf = of_nat k"
    by (simp add: word_less_nat_alt k word_unat_eq_iff less_Suc_eq)
  moreover have "a - buf = of_nat k \<longleftrightarrow> a = buf + of_nat k" by (simp add: diff_eq_eq add.commute)
  ultimately show "buffered m buf out (Suc k) a = ((buffered m buf out k)(buf + of_nat k := ucast (out ! k))) a"
    using k by (auto simp: buffered_def)
qed

lemma fold_sprintputch:
  assumes "unat buf + n < 2 ^ 64"
  shows "fold sprintputch out \<lparr>sb_mem = m, sb_buf = buf, sb_ebuf = buf + of_nat n, sb_cnt = c\<rparr> =
    \<lparr>sb_mem = buffered m buf out (min (length out) n), sb_buf = buf + of_nat (min (length out) n),
      sb_ebuf = buf + of_nat n, sb_cnt = c + of_nat (length out)\<rparr>"
proof (induction out rule: rev_induct)
  case (snoc x out)
  let ?k = "min (length out) n"
  have u: "unat (buf + of_nat i) = unat buf + i" if "i \<le> n" for i
    using assms that by (simp add: unat_word_ariths unat_of_nat)
  have old: "buffered m buf (out @ [x]) ?k = buffered m buf out ?k"
  proof -
    have "unat (a - buf) < length out" if "a - buf < of_nat ?k" for a
      using that assms by (simp add: word_less_nat_alt unat_of_nat)
    then show ?thesis by (auto simp: buffered_def nth_append)
  qed
  show ?case
  proof (cases "length out < n")
    case True
    then have "buffered m buf (out @ [x]) (Suc (length out)) = (buffered m buf out ?k)(buf + of_nat (length out) := ucast x)"
      using assms old buffered_Suc [of "length out" m buf "out @ [x]"] by simp
    moreover have "buf + of_nat (length out) < buf + of_nat n" using True u [of "length out"] u [of n] by (simp add: word_less_nat_alt)
    ultimately show ?thesis using True snoc by (simp add: sprintputch_def Let_def fun_upd_def add.assoc add.commute)
  next
    case False
    then show ?thesis using snoc old by (simp add: sprintputch_def Let_def add.assoc add.commute)
  qed
qed simp

lemma snprintf_eq:
  assumes "buf \<noteq> 0" "unat buf + j < 2 ^ 64"
  shows "snprintf m buf (int j + 1) fmt ap =
    map_option (\<lambda>out. (sint (of_nat (length out) :: u32),
        (buffered m buf out (min (length out) j))(buf + of_nat (min (length out) j) := 0)))
      (formatted fmt ap)"
  using assms unfolding snprintf_def vsnprintf_def Let_def vprintfmt_eq
  by (cases "formatted fmt ap") (simp_all add: fold_sprintputch)

text \<open>
  C18. \<^verbatim>\<open>snprintf\<close> prints what every other use of the format prints, up to \<open>n - 1\<close> characters of it followed by a null, writes to no
  byte outside the buffer, and returns the length that the whole output has. Without a buffer or with a size below one it
  writes nothing and reports an error.
\<close>

theorem snprintf_bounded:
  assumes "unat buf + nat n \<le> 2 ^ 64"
  shows "snprintf m buf n fmt ap =
    (if buf = 0 \<or> n < 1 then Some (- E_INVAL, m)
     else case formatted fmt ap of
       None \<Rightarrow> None
     | Some out \<Rightarrow> let k = min (length out) (nat n - 1) in
         Some (sint (of_nat (length out) :: u32),
           \<lambda>a. if a - buf < of_nat k then ucast (out ! unat (a - buf)) else if a - buf = of_nat k then 0 else m a))"
proof (cases "buf = 0 \<or> n < 1")
  case True
  then show ?thesis by (auto simp: snprintf_def vsnprintf_def Let_def)
next
  case False
  define j where "j = nat n - 1"
  have n: "n = int j + 1" "nat n - 1 = j" using False unfolding j_def by arith+
  have z: "(buffered m buf out k)(buf + of_nat k := 0) =
      (\<lambda>a. if a - buf < of_nat k then ucast (out ! unat (a - buf)) else if a - buf = of_nat k then 0 else m a)" for out k
    by (auto simp: buffered_def fun_eq_iff diff_eq_eq add.commute)
  show ?thesis
    using snprintf_eq [of buf j m fmt ap] False assms n
    by (cases "formatted fmt ap") (simp_all add: Let_def z)
qed

section \<open>Numbers: printing and reading back\<close>

lemma formatted_decimal:
  "formatted (str ''%d'') [Va_Int x] =
    Some ((if sint x < 0 then [ucast (c8 CHR ''-'')] else []) @
      List.map (\<lambda>d. ucast (digit_chars ! d)) (digits 10 (unat (if sint x < 0 then - x else x))))"
  unfolding formatted_def
  by (simp add: vprintfmt.simps no_flags_def convert_def getint_def printnum_10 number_out_def)

theorem snprintf_bounded_witness:
  "map_option (\<lambda>(r, m). (r, List.map m [0x0FFF, 0x1000, 0x1001, 0x1002, 0x1003]))
     (snprintf (\<lambda>_. 7) 0x1000 3 (str ''%d'') [Va_Int (- 12)]) = Some (3, [7, 45, 49, 0, 7])"
  using snprintf_bounded [where buf = "0x1000" and n = 3 and m = "\<lambda>_. 7" and fmt = "str ''%d''" and ap = "[Va_Int (- 12)]"] formatted_decimal [of "- 12"]
  by (simp add: digits.simps digit_chars_def)

lemma digits_10: "digits 10 n = (if n < 10 then [n] else digits 10 (n div 10) @ [n mod 10])"
  by (subst digits.simps) simp

lemma digits_nonempty: "digits 10 n \<noteq> []"
  by (subst digits_10) simp

lemma length_digits: "n < 10 ^ Suc k \<Longrightarrow> length (digits 10 n) \<le> Suc k"
proof (induction k arbitrary: n)
  case (Suc k)
  then have "n div 10 < 10 ^ Suc k" by (simp add: less_mult_imp_div_less)
  from Suc.IH [OF this] show ?case by (simp add: digits_10 [of n])
qed (simp add: digits_10)

lemma digits_less: "d \<in> set (digits 10 n) \<Longrightarrow> d < 10"
proof (induction n rule: less_induct)
  case (less n)
  then show ?case using less.IH [of "n div 10"] by (cases "n < 10") (auto simp: digits_10 [of n])
qed

lemma digits_value: "foldl (\<lambda>v d. v * 10 + d) 0 (digits 10 n) = n"
proof (induction n rule: less_induct)
  case (less n)
  then show ?case by (cases "n < 10") (simp_all add: digits_10 [of n])
qed

lemma digit_char: "d < 10 \<Longrightarrow> digit_chars ! d = 48 + of_nat d" "d < 10 \<Longrightarrow> digit (48 + of_nat d) = Some (int d)"
proof -
  assume "d < 10"
  then have d: "d \<in> {0, 1, 2, 3, 4, 5, 6, 7, 8, 9}" by auto
  then show "digit_chars ! d = 48 + of_nat d" unfolding digit_chars_def by (elim insertE) simp_all
  show "digit (48 + of_nat d) = Some (int d)" using d unfolding digit_def by (elim insertE) simp_all
qed

lemma digit_char_noteq: "d < 10 \<Longrightarrow> digit_chars ! d \<notin> {0, 9, 32, 43, 45}"
proof -
  assume "d < 10"
  then have "d \<in> {0, 1, 2, 3, 4, 5, 6, 7, 8, 9}" by auto
  then show ?thesis unfolding digit_chars_def by (elim insertE) simp_all
qed

lemma strtol_digits_eq:
  "\<forall>d\<in>set ds. d < 10 \<Longrightarrow> str_at m a (List.map (\<lambda>d. digit_chars ! d) ds) \<Longrightarrow>
    strtol_digits m a 10 v = Some (foldl (\<lambda>v d. v * 10 + of_nat d) v ds, a + of_nat (length ds))"
proof (induction ds arbitrary: a v)
  case Nil
  then show ?case by (simp add: strtol_digits.simps [of m a] digit_def)
next
  case (Cons d ds)
  then have "digit (m a) = Some (int d)" "d < 10" by (simp_all add: digit_char)
  then show ?case using Cons by (simp add: strtol_digits.simps [of m a] add.assoc)
qed

lemma foldl_of_nat: "foldl (\<lambda>v d. v * 10 + of_nat d) (of_nat v :: u64) ds = of_nat (foldl (\<lambda>v d. v * 10 + d) v ds)"
proof (induction ds arbitrary: v)
  case (Cons d ds)
  from Cons [of "v * 10 + d"] show ?case by simp
qed simp

lemma digits_word: "foldl (\<lambda>v d. v * 10 + of_nat d) (0 :: u64) (digits 10 (unat x)) = x"
  using foldl_of_nat [of 0 "digits 10 (unat x)"] by (simp add: digits_value)

lemma str_at_nth:
  "\<forall>i<length xs. m (a + of_nat i) = xs ! i \<Longrightarrow> m (a + of_nat (length xs)) = 0 \<Longrightarrow> 0 \<notin> set xs \<Longrightarrow> str_at m a xs"
proof (induction xs arbitrary: a)
  case (Cons x xs)
  then have "\<forall>i<length xs. m (a + 1 + of_nat i) = xs ! i" by (auto simp: add.assoc)
  with Cons show ?case by (auto simp: add.assoc)
qed simp

lemma str_at_buffered:
  assumes "length out < 2 ^ 64" "0 \<notin> set (List.map ucast out :: u8 list)"
  shows "str_at ((buffered m buf out (length out))(buf + of_nat (length out) := 0)) buf (List.map ucast out)"
proof (rule str_at_nth)
  have u: "unat (of_nat i :: u64) = i" if "i \<le> length out" for i using that assms(1) by (simp add: unat_of_nat)
  have "(of_nat i :: u64) < of_nat (length out)" "(of_nat i :: u64) \<noteq> of_nat (length out)" if "i < length out" for i
    using that u [of i] u [of "length out"] by (auto simp: word_less_nat_alt)
  then show "\<forall>i<length (List.map ucast out :: u8 list).
      ((buffered m buf out (length out))(buf + of_nat (length out) := 0)) (buf + of_nat i) = List.map ucast out ! i"
    using u by (auto simp: buffered_def)
qed (use assms in auto)

lemma strtol_decimal:
  assumes "str_at m a ((if neg then [c8 CHR ''-''] else []) @ List.map (\<lambda>d. digit_chars ! d) (digits 10 (unat x)))"
  shows "strtol m a 10 = Some (if neg then - x else x, a + of_nat (of_bool neg + length (digits 10 (unat x))))"
proof -
  let ?ds = "digits 10 (unat x)"
  have ds: "\<forall>d\<in>set ?ds. d < 10" using digits_less by blast
  obtain d ds' where d: "?ds = d # ds'" using digits_nonempty [of "unat x"] by (auto simp: neq_Nil_conv)
  then have first: "digit_chars ! d \<notin> {0, 9, 32, 43, 45}" using ds digit_char_noteq [of d] by simp
  have run: "strtol_digits m b 10 0 = Some (x, b + of_nat (length ?ds))" if "str_at m b (List.map (\<lambda>d. digit_chars ! d) ?ds)" for b
    using strtol_digits_eq [OF ds that, of 0] unfolding digits_word .
  show ?thesis
  proof (cases neg)
    case True
    then have a: "m a = 45" "str_at m (a + 1) (List.map (\<lambda>d. digit_chars ! d) ?ds)" using assms by simp_all
    then have "skip_blanks m a = Some a" by (simp add: skip_blanks.simps [of m a])
    then show ?thesis using True a(1) run [OF a(2)] by (simp add: strtol_def add.assoc)
  next
    case False
    then have a: "str_at m a (List.map (\<lambda>d. digit_chars ! d) ?ds)" using assms by simp
    have m: "m a \<notin> {0, 9, 32, 43, 45}" using first a unfolding d by simp
    then have "skip_blanks m a = Some a" by (simp add: skip_blanks.simps [of m a])
    then show ?thesis using False m run [OF a] by (simp add: strtol_def)
  qed
qed

lemma ucast_byte: "ucast (ucast b :: u32) = (b :: u8)"
  by (rule bit_word_eqI) (simp add: bit_ucast_iff)

lemma magnitude_bound: "unat (if sint x < 0 then - x else x) < 10 ^ 19" for x :: u64
proof -
  have r: "- (2 ^ 63) \<le> sint x" "sint x < 2 ^ 63" using sint_ge [of x] sint_lt [of x] by simp_all
  have u: "uint x = sint x mod 2 ^ 64" by (subst uint_sint) (simp add: take_bit_eq_mod)
  have "uint (- x) = - sint x mod 2 ^ 64" by (simp only: uint_word_ariths(4) u) (simp add: mod_minus_eq)
  then have "uint (if sint x < 0 then - x else x) = \<bar>sint x\<bar>"
    using r u by (cases "sint x < 0") (simp_all only: if_True if_False, simp_all)
  then show ?thesis using r by (simp only: unat_eq_nat_uint) simp
qed

text \<open>
  C19. Every 64-bit number, the most negative one included, that is printed with \<^verbatim>\<open>%d\<close> into a buffer of at least 21 bytes is read
  back by \<^verbatim>\<open>strtol\<close>, which stops at the end of the string.
\<close>

theorem number_roundtrip:
  assumes "buf \<noteq> 0" "21 \<le> n" "unat buf + nat n \<le> 2 ^ 64"
  shows "\<exists>r m'. snprintf m buf n (str ''%d'') [Va_Int x] = Some (r, m') \<and> strtol m' buf 10 = Some (x, buf + word_of_int r)"
proof -
  define y where "y = (if sint x < 0 then - x else x)"
  let ?ds = "digits 10 (unat y)" and ?sign = "if sint x < 0 then [c8 CHR ''-''] else []"
  define out :: "u32 list" where "out = List.map ucast (?sign @ List.map (\<lambda>d. digit_chars ! d) ?ds)"
  have f: "formatted (str ''%d'') [Va_Int x] = Some out"
    unfolding formatted_decimal y_def [symmetric] out_def by simp
  have len: "length out = of_bool (sint x < 0) + length ?ds" by (simp add: out_def)
  have "unat y < 10 ^ Suc 18" using magnitude_bound [of x] by (simp add: y_def)
  then have "length ?ds \<le> 19" using length_digits [of "unat y" 18] by simp
  then have "length out \<le> 20" unfolding len by (simp add: of_bool_def)
  moreover define j where "j = nat n - 1"
  ultimately have l: "length out \<le> j" "length out < 2 ^ 31" and n: "n = int j + 1" "unat buf + j < 2 ^ 64"
    using assms by simp_all
  have bytes: "List.map ucast out = ?sign @ List.map (\<lambda>d. digit_chars ! d) ?ds"
    by (simp add: out_def comp_def ucast_byte)
  have "0 \<notin> set (List.map ucast out :: u8 list)"
    unfolding bytes using digits_less digit_char_noteq by fastforce
  let ?m = "(buffered m buf out (length out))(buf + of_nat (length out) := 0)"
  have "str_at ?m buf (?sign @ List.map (\<lambda>d. digit_chars ! d) ?ds)"
    using str_at_buffered [of out m buf] l \<open>0 \<notin> _\<close> unfolding bytes by simp
  then have "strtol ?m buf 10 = Some (if sint x < 0 then - y else y, buf + of_nat (length out))"
    unfolding len by (rule strtol_decimal)
  moreover have "snprintf m buf n (str ''%d'') [Va_Int x] = Some (int (length out), ?m)"
    using snprintf_eq [OF assms(1) n(2), of m "str ''%d''" "[Va_Int x]"] l
    unfolding f n(1) by (simp add: signed_of_nat signed_take_bit_int_eq_self)
  ultimately show ?thesis by (simp add: y_def)
qed

theorem number_roundtrip_witness:
  "\<exists>r m'. snprintf (\<lambda>_. 0) 0x1000 21 (str ''%d'') [Va_Int 0x8000000000000000] = Some (r, m') \<and>
    strtol m' 0x1000 10 = Some (0x8000000000000000, 0x1000 + word_of_int r)"
  by (rule number_roundtrip) simp_all

section \<open>Printing to the console\<close>

lemma cprintf_eq: "cprintf bus fmt ap s = map_option (\<lambda>out. (0, fold (cons_putc bus) out s)) (formatted fmt ap)"
proof -
  have "fold (kern_putch bus) out (s, cnt) = (fold (cons_putc bus) out s, cnt)" for out cnt s
    by (induction out arbitrary: s) (simp_all add: kern_putch_def cputchar_def)
  then show ?thesis
    unfolding cprintf_def vcprintf_def vprintfmt_eq by (cases "formatted fmt ap") simp_all
qed

text \<open>
  A system call that prints a chunk of at most 256 bytes, none of them null, as if its bytes were printed one by one.
\<close>

locale byte_sink =
  fixes cputs :: "u8 list \<Rightarrow> 'w \<Rightarrow> 'w" and emit :: "u8 \<Rightarrow> 'w \<Rightarrow> 'w"
  assumes cputs_emit: "0 \<notin> set p \<Longrightarrow> length p \<le> 256 \<Longrightarrow> cputs p w = fold emit p w"
begin

lemma fold_user_putch:
  assumes "length (pb_buf b) < 255" "0 \<notin> set (pb_buf b)" "0 \<notin> set (List.map ucast out :: u8 list)"
  shows "let b' = fold (user_putch cputs) out b in
    length (pb_buf b') < 255 \<and> 0 \<notin> set (pb_buf b') \<and> pb_cnt b' = pb_cnt b + of_nat (length out) \<and>
    fold emit (pb_buf b') (pb_sys b') = fold emit (List.map ucast out) (fold emit (pb_buf b) (pb_sys b))"
  using assms
proof (induction out arbitrary: b)
  case (Cons c out)
  let ?b = "user_putch cputs c b"
  have b: "length (pb_buf ?b) < 255" "0 \<notin> set (pb_buf ?b)" "pb_cnt ?b = pb_cnt b + 1"
      "fold emit (pb_buf ?b) (pb_sys ?b) = emit (ucast c) (fold emit (pb_buf b) (pb_sys b))"
    using Cons.prems cputs_emit [of "pb_buf b @ [ucast c]"] by (auto simp: user_putch_def Let_def)
  have "0 \<notin> set (List.map ucast out :: u8 list)" using Cons.prems by simp
  from Cons.IH [OF b(1,2) this] show ?case by (simp add: Let_def b add.assoc)
qed simp

lemma user_vcprintf_eq:
  assumes "formatted fmt ap = Some out" "0 \<notin> set (List.map ucast out :: u8 list)"
  shows "user_vcprintf cputs fmt ap w = Some (of_nat (length out), fold emit (List.map ucast out) w)"
  using fold_user_putch [of "\<lparr>pb_buf = [], pb_cnt = 0, pb_sys = w\<rparr>" out] assms
  by (simp add: user_vcprintf_def vprintfmt_eq Let_def cputs_emit)

end

text \<open>The console calls of the kernel are such a system call.\<close>

lemma chars_out_all: "0 \<notin> set p \<Longrightarrow> int (length p) \<le> prec \<Longrightarrow> chars_out False prec p = List.map scast p"
  by (induction p arbitrary: prec) auto

lemma sys_cputs_eq:
  assumes "0 \<notin> set p" "length p \<le> 256"
  shows "sys_cputs bus p (of_nat (length p)) s = Some (fold (cons_putc bus) (List.map scast p) s)"
proof -
  have "sint (ucast (of_nat (length p) :: u64) :: u32) = int (length p)"
    using assms(2) by (simp add: signed_of_nat signed_take_bit_int_eq_self unsigned_of_nat take_bit_nat_eq_self)
  then have "formatted (str ''%.*s'') [Va_Int (of_nat (length p)), Va_Str (Some p)] = Some (List.map scast p)"
    using chars_out_all [OF assms(1), of "int (length p)"] unfolding formatted_def
    by (simp add: vprintfmt.simps no_flags_def process_precision_def convert_def put_string_eq string_out_def)
  then show ?thesis by (simp add: sys_cputs_def cprintf_eq)
qed

lemma fold_map_option: "fold (\<lambda>c. map_option (f c)) p w = map_option (fold f p) w"
  by (induction p arbitrary: w) (simp_all add: option.map_comp option.map_id0)

interpretation console_sink: byte_sink
    "\<lambda>p w. Option.bind w (sys_cputs bus p (of_nat (length p)))" "\<lambda>c. map_option (cons_putc bus (scast c))" for bus
proof
  fix p :: "u8 list" and w :: "'a console option"
  assume p: "0 \<notin> set p" "length p \<le> 256"
  show "Option.bind w (sys_cputs bus p (of_nat (length p))) = fold (\<lambda>c. map_option (cons_putc bus (scast c))) p w"
    using p by (cases w) (simp_all add: sys_cputs_eq fold_map_option [of "\<lambda>c. cons_putc bus (scast c)"] fold_map comp_def)
qed

lemma ascii_byte:
  assumes "0 < c" "c < (128 :: u32)"
  shows "scast (ucast c :: u8) = c" "(ucast c :: u8) \<noteq> 0"
proof -
  have "take_bit 7 c = c" using assms(2) by (simp add: take_bit_eq_mod word_arith_nat_mod word_less_nat_alt)
  then have b: "bit c n \<Longrightarrow> n < 7" for n by (metis bit_take_bit_iff)
  show s: "scast (ucast c :: u8) = c" by (rule bit_word_eqI) (auto simp: bit_signed_iff bit_ucast_iff min_def dest!: b)
  show "(ucast c :: u8) \<noteq> 0" using s assms(1) by auto
qed



section \<open>Printing to a file\<close>

text \<open>When every write is complete, the calls write the text in pieces and the result is its length; for no text it is 1.\<close>

lemma vfprintf_complete:
  assumes w: "\<And>p w. p \<noteq> [] \<Longrightarrow> write p w = (int (length p), fold emit p w)" and f: "formatted fmt ap = Some out"
  shows "vfprintf write fmt ap w = Some (if out = [] then 1 else int (length out), fold emit (List.map ucast out) w)"
proof -
  let ?b = "\<lparr>fb_buf = [], fb_result = 0, fb_error = 1, fb_sys = w\<rparr>"
  have "let b = fold (file_putch write) out ?b in
      fb_error b = 1 \<and> fb_result b + int (length (fb_buf b)) = int (length out) \<and>
      fold emit (fb_buf b) (fb_sys b) = fold emit (List.map ucast out) w \<and> fb_result b \<ge> 0"
  proof (induction out rule: rev_induct)
    case (snoc c out)
    then show ?case by (auto simp: Let_def file_putch_def writebuf_def w split: prod.splits)
  qed simp
  then show ?thesis using f
    by (auto simp: vfprintf_def vprintfmt_eq Let_def writebuf_def w)
qed

end
