(* ===== verification/Spec2Isabelle.thy ===== *)
theory Spec2Isabelle
  imports Syscall_Correct Vmexits_Correct Console_Correct Print_Correct
begin

text \<open>
  A verification of the JOS kernel with an Intel VT-x virtual machine monitor, \<^verbatim>\<open>src/lab8\<close>, in its host build
  (\<^verbatim>\<open>VMM_HOST\<close>, \<^verbatim>\<open>LAB=8\<close>, \<^verbatim>\<open>DEBUG_SPINLOCK\<close>, \<^verbatim>\<open>TEST_EPT_MAP=1\<close>). This theory imports all others.

  \<^bold>\<open>The program.\<close> The kernel owns physical memory through an array of page descriptors with a free list and reference counts
  (\<^verbatim>\<open>kern/pmap.c\<close>). Page tables are built from such pages, for user environments and, with other permission bits, as extended
  page tables (EPT) of guests (\<^verbatim>\<open>vmm/ept.c\<close>). The environment table (\<^verbatim>\<open>kern/env.c\<close>) has a slot for each user program and
  each guest; the scheduler (\<^verbatim>\<open>kern/sched.c\<close>) runs one of them, a guest by way of \<^verbatim>\<open>vmx_vmrun\<close> (\<^verbatim>\<open>vmm/vmx.c\<close>), which
  fills the guest's control structure (VMCS) and enters it. A guest comes back by a VM exit, whose handler (\<^verbatim>\<open>vmm/vmexits.c\<close>)
  emulates an instruction or gives the guest memory; a user program comes back by a trap (\<^verbatim>\<open>kern/trap.c\<close>) or a system call
  (\<^verbatim>\<open>kern/syscall.c\<close>). One lock (\<^verbatim>\<open>kern/spinlock.c\<close>) guards the kernel. Console, string and formatting routines serve all
  of it.

  \<^bold>\<open>How it is modelled.\<close> C functions are HOL functions on the record \<open>kernel\<close> (\<open>Kernel_State\<close>), which has the kernel's
  globals, the registers it writes, the VMCS regions and physical memory in cells of eight bytes. Structures are records, pointers
  into the arrays \<^verbatim>\<open>pages\<close> and \<^verbatim>\<open>envs\<close> are indices, integers are words of their width. A panic, a failed assertion or a fault
  in kernel mode is \<open>None\<close>; an error code is a value. A function that leaves the kernel delivers a value of type \<open>exec\<close> that
  says where control goes.

  \<^bold>\<open>Theories and sources.\<close>

  \<^item> \<open>Prelude\<close>, \<open>Mmu\<close>: integer types, rounding macros, the panic monad, linked lists; constants and address macros of
    \<^verbatim>\<open>inc/mmu.h\<close>, \<^verbatim>\<open>inc/memlayout.h\<close>, \<^verbatim>\<open>inc/error.h\<close>, \<^verbatim>\<open>inc/ept.h\<close>, \<^verbatim>\<open>vmm/ept.h\<close>.
  \<^item> \<open>Page_Alloc\<close>, \<open>Page_Table\<close>, \<open>Page_Walk\<close>, \<open>Page_Map\<close>: \<^verbatim>\<open>kern/pmap.c\<close>. The allocator is a stack of free pages (locale
    \<open>free_list\<close>); each level of a walk refines a reference function on tables (locale \<open>table_walk\<close>, interpreted on each level
    from the level below); insertion, lookup, removal, reference counts, and the check of user pointers.
  \<^item> \<open>Ept\<close>: \<^verbatim>\<open>vmm/ept.c\<close>. Lookup with the permissions it grants, insertion, release of a guest's memory.
  \<^item> \<open>Vmcs\<close>: \<^verbatim>\<open>vmm/vmx.h\<close>. The field encodings, with their widths and kinds, and the accessors (locale \<open>field_store\<close>).
  \<^item> \<open>Spinlock\<close>: \<^verbatim>\<open>kern/spinlock.c\<close>. The operations, and the memory accesses of any number of CPUs as a step relation, with
    mutual exclusion and progress.
  \<^item> \<open>Vmx\<close>, \<open>Vmx_Correct\<close>, \<open>Vmx_Run\<close>: \<^verbatim>\<open>vmm/vmx.c\<close>, \<^verbatim>\<open>vmm/vmx_asm.h\<close>. Entering VMX operation with each failure, the host,
    guest and control fields, the I/O bitmaps and MSR areas, the first and later runs of a guest.
  \<^item> \<open>Env_Table\<close>, \<open>Env_Correct\<close>, \<open>Env_Invariant\<close>, \<open>Env_Create\<close>, \<open>Guest_Create\<close>: \<^verbatim>\<open>kern/env.c\<close>. Ids, the invariant of the
    table under any sequence of operations, what each allocator delivers or gives back.
  \<^item> \<open>Sched\<close>, \<open>Sched_Correct\<close>: \<^verbatim>\<open>kern/sched.c\<close>, \<^verbatim>\<open>env_run\<close> and \<^verbatim>\<open>env_destroy\<close>. Round robin, and who runs next.
  \<^item> \<open>Vmexits\<close>, \<open>Vmexits_Correct\<close>: \<^verbatim>\<open>vmm/vmexits.c\<close>. All exit handlers; the emulated real-time clock, \<^verbatim>\<open>cpuid\<close> and EFER.
  \<^item> \<open>Syscall\<close>, \<open>Syscall_Correct\<close>: \<^verbatim>\<open>kern/syscall.c\<close>. The calls that create a guest and map memory into it, with all outcomes,
    and the menu of guests.
  \<^item> \<open>Trap\<close>: \<^verbatim>\<open>kern/trap.c\<close>. The common entry and the dispatcher.
  \<^item> \<open>Boot_Mem\<close>, \<open>Boot_Correct\<close>: the boot-time part of \<^verbatim>\<open>kern/pmap.c\<close>. Memory detection, the free list that results, and that a
    guest detects the memory it was given.
  \<^item> \<open>Console\<close>, \<open>Console_Correct\<close>: \<^verbatim>\<open>kern/console.c\<close>, \<^verbatim>\<open>kern/picirq.c\<close>, \<^verbatim>\<open>kern/time.c\<close>. Input is a queue (locale
    \<open>char_source\<close> for the two devices that feed it), output a terminal.
  \<^item> \<open>Str_Lib\<close>, \<open>Str_Correct\<close>: \<^verbatim>\<open>lib/string.c\<close> on a memory of bytes. \<^verbatim>\<open>memmove\<close> on overlapping blocks, \<^verbatim>\<open>memset\<close>, string length
    and order.
  \<^item> \<open>Print_Fmt\<close>, \<open>Print_Correct\<close>: \<^verbatim>\<open>lib/printfmt.c\<close>, \<^verbatim>\<open>kern/printf.c\<close>, \<^verbatim>\<open>lib/printf.c\<close>, \<^verbatim>\<open>lib/fprintf.c\<close>. The output of a
    format does not depend on the output function; bounds of \<^verbatim>\<open>snprintf\<close>; numbers read back by \<^verbatim>\<open>strtol\<close>; buffered output of
    user programs (locale \<open>byte_sink\<close>).

  \<^bold>\<open>Loops.\<close> No definition has fuel. Loops with a counter are recursion or folds over the counter's range; other terminating loops
  have a termination proof; loops that need not end (the end of a string, a console that keeps delivering characters, the recursion
  of a number conversion) are \<^theory_text>\<open>partial_function (option)\<close>, where \<open>None\<close> means that there is no result, and the theorems
  about them state that there is one.

  \<^bold>\<open>Parameters.\<close> What the hardware decides is an argument: the record \<open>machine\<close> (\<^verbatim>\<open>cpuid\<close>, model-specific registers, the outcome
  of VMX instructions, addresses fixed by the linker), \<open>boot_env\<close> (CMOS, boot loader's memory map) and \<open>io_bus\<close> (ports of the
  console devices, over any state of the devices). Theorems hold for all of them; hypotheses about them are stated where needed,
  and the witnesses instantiate them.

  \<^bold>\<open>Not modelled.\<close> Segment registers, descriptor tables and the instructions that load them; assembly start-up and trap entry code
  (\<^verbatim>\<open>kern/entry.S\<close>, \<^verbatim>\<open>kern/bootstrap.S\<close>, \<^verbatim>\<open>kern/trapentry.S\<close>, \<^verbatim>\<open>boot/\<close>), whose effect is that of the processor; a VM entry
  that the processor refuses after \<^verbatim>\<open>vmlaunch\<close>; drivers that only program devices (PCI, local APIC, multiprocessor tables); the
  self tests; the interactive monitor and the DWARF reader of back traces. Messages that the modelled kernel functions print are left
  out. User-mode libraries and servers rest on system calls that panic in this kernel (\<^verbatim>\<open>syscall\<close> itself panics), the file system
  server on \<^verbatim>\<open>alloc_block\<close>, \<^verbatim>\<open>file_block_walk\<close> and \<^verbatim>\<open>file_get_block\<close>, which panic, and the network server on a third-party stack.
\<close>

end
